(* ===== verification/Prelude.thy ===== *)
theory Prelude
  imports Main "HOL-Library.Word" "HOL-Library.Char_ord" "HOL-Library.List_Lexorder"
    "HOL-Library.Product_Lexorder" "HOL-Library.AList" "HOL-Library.Multiset"
begin

text \<open>
  Shared vocabulary of the development: the machine integer types of the native code, faults as
  values, byte buffers with little-endian field access, and the operations of
  \<^verbatim>\<open>std::string\<close>, \<^verbatim>\<open>std::getline\<close> and the C string library that the
  components use. Every component theory builds on these definitions and on the two collections
  \<^verbatim>\<open>fault_simps\<close> (fault propagation) and \<^verbatim>\<open>string_simps\<close> (string searches).
\<close>

unbundle bit_operations_syntax

named_theorems fault_simps "rewriting of computations that may fault"
named_theorems string_simps "rewriting of string searches"

section \<open>Machine integers\<close>

type_synonym u8 = "8 word"
type_synonym u16 = "16 word"
type_synonym u32 = "32 word"
type_synonym u64 = "64 word"

lemma unat_u32_less: "unat (x :: u32) < 2 ^ 32"
  using unsigned_less [of x] by simp

lemma unat_u16_less: "unat (x :: u16) < 2 ^ 16"
  using unsigned_less [of x] by simp

lemma unat_ucast_u32_u64 [simp]: "unat (ucast (x :: u32) :: u64) = unat x"
  using unat_u32_less [of x] by (simp add: unsigned_ucast_eq take_bit_eq_mod)

lemma unat_ucast_u16_u32 [simp]: "unat (ucast (x :: u16) :: u32) = unat x"
  using unat_u16_less [of x] by (simp add: unsigned_ucast_eq take_bit_eq_mod)

lemma unat_ucast_u16_u64 [simp]: "unat (ucast (x :: u16) :: u64) = unat x"
  using unat_u16_less [of x] by (simp add: unsigned_ucast_eq take_bit_eq_mod)

section \<open>Faults as values\<close>

text \<open>
  What the native code does outside its defined behaviour: an access outside a buffer, a division
  by zero, a shift by the width or more, a signed overflow, an allocation request that throws, a
  second lock of a mutex its own thread holds, unbounded recursion, the call of
  \<^verbatim>\<open>std::terminate\<close> by the assignment to a thread object that still runs, and the
  conversion of a floating-point value that its integer type does not hold.
\<close>

datatype fault =
    OutOfBounds
  | DivideByZero
  | ShiftRange
  | SignedOverflow
  | LengthError
  | SelfDeadlock
  | StackExhausted
  | Terminated
  | FloatRange

fun bnd :: "fault + 'a \<Rightarrow> ('a \<Rightarrow> fault + 'b) \<Rightarrow> fault + 'b" where
  "bnd (Inl e) f = Inl e"
| "bnd (Inr x) f = f x"

lemma bnd_Inr_iff [fault_simps]:
  "bnd m f = Inr y \<longleftrightarrow> (\<exists>x. m = Inr x \<and> f x = Inr y)"
  by (cases m) auto

lemma bnd_return [simp]: "bnd m Inr = m"
  by (cases m) auto

lemma bnd_assoc: "bnd (bnd m f) g = bnd m (\<lambda>x. bnd (f x) g)"
  by (cases m) auto

lemma bnd_cong [fundef_cong]:
  "m = m' \<Longrightarrow> (\<And>x. m' = Inr x \<Longrightarrow> f x = f' x) \<Longrightarrow> bnd m f = bnd m' f'"
  by (cases m') auto

definition no_fault :: "fault + 'a \<Rightarrow> bool" where
  "no_fault m \<longleftrightarrow> (case m of Inl _ \<Rightarrow> False | Inr _ \<Rightarrow> True)"

lemma no_fault_Inr [simp]: "no_fault (Inr x)"
  by (simp add: no_fault_def)

lemma no_fault_Inl [simp]: "\<not> no_fault (Inl e)"
  by (simp add: no_fault_def)

lemma no_fault_iff: "no_fault m \<longleftrightarrow> (\<exists>x. m = Inr x)"
  by (cases m) auto

lemma no_fault_bnd [intro]:
  "no_fault m \<Longrightarrow> (\<And>x. m = Inr x \<Longrightarrow> no_fault (f x)) \<Longrightarrow> no_fault (bnd m f)"
  by (cases m) auto

lemma ex_bool_simps [simp]: "\<exists>b. b" "\<exists>b. \<not> b" "Ex Not"
  by blast+

section \<open>Signed arithmetic\<close>

text \<open>An \<^verbatim>\<open>int\<close> has 32 bits; a result outside its range is a fault.\<close>

definition int_range :: "int \<Rightarrow> bool" where
  "int_range i \<longleftrightarrow> - (2 ^ 31) \<le> i \<and> i < 2 ^ 31"

definition int_ret :: "int \<Rightarrow> fault + int" where
  "int_ret i = (if int_range i then Inr i else Inl SignedOverflow)"

definition int_mul :: "int \<Rightarrow> int \<Rightarrow> fault + int" where
  "int_mul a b = int_ret (a * b)"

lemma int_ret_ok: "int_range i \<Longrightarrow> int_ret i = Inr i"
  by (simp add: int_ret_def)

section \<open>Counted loops\<close>

text \<open>A loop over a list of counters whose body may fault, and the rule that carries an invariant through it.\<close>

fun for_each :: "'i list \<Rightarrow> ('i \<Rightarrow> 's \<Rightarrow> fault + 's) \<Rightarrow> 's \<Rightarrow> fault + 's" where
  "for_each [] body s = Inr s"
| "for_each (i # is) body s = bnd (body i s) (\<lambda>s. for_each is body s)"

lemma for_each_set:
  assumes "\<And>i S s. i \<in> set is \<Longrightarrow> P S s \<Longrightarrow> \<exists>s'. body i s = Inr s' \<and> P (insert i S) s'" "P {} s"
  shows "\<exists>s'. for_each is body s = Inr s' \<and> P (set is) s'"
proof -
  have "\<exists>s'. for_each js body s = Inr s' \<and> P (set js \<union> S) s'" if "set js \<subseteq> set is" "P S s" for js S s
    using that
  proof (induction js arbitrary: S s)
    case (Cons j js)
    obtain s1 where s1: "body j s = Inr s1" "P (insert j S) s1"
      using assms(1) [of j S s] Cons.prems by auto
    then have "\<exists>s'. for_each js body s1 = Inr s' \<and> P (set js \<union> insert j S) s'"
      using Cons.prems(1) by (intro Cons.IH) auto
    then show ?case
      using s1(1) by simp
  qed simp
  from this [of "is" "{}" s] show ?thesis
    using assms(2) by simp
qed

text \<open>The same for a body that may stop with one kind of fault.\<close>

lemma for_each_set_allows:
  assumes "\<And>i S s. i \<in> set is \<Longrightarrow> P S s \<Longrightarrow> body i s = Inl e \<or> (\<exists>s'. body i s = Inr s' \<and> P (insert i S) s')" "P {} s"
  shows "for_each is body s = Inl e \<or> (\<exists>s'. for_each is body s = Inr s' \<and> P (set is) s')"
proof -
  have "for_each js body s = Inl e \<or> (\<exists>s'. for_each js body s = Inr s' \<and> P (set js \<union> S) s')"
    if "set js \<subseteq> set is" "P S s" for js S s
    using that
  proof (induction js arbitrary: S s)
    case (Cons j js)
    have "body j s = Inl e \<or> (\<exists>s'. body j s = Inr s' \<and> P (insert j S) s')"
      using assms(1) [of j S s] Cons.prems by auto
    then show ?case
    proof
      assume "\<exists>s'. body j s = Inr s' \<and> P (insert j S) s'"
      then obtain s1 where s1: "body j s = Inr s1" "P (insert j S) s1" by blast
      then show ?thesis
        using Cons.IH [of "insert j S" s1] Cons.prems(1) by simp
    qed simp
  qed simp
  from this [of "is" "{}" s] show ?thesis
    using assms(2) by simp
qed

lemma for_each_allows:
  assumes "\<And>i s. i \<in> set is \<Longrightarrow> P s \<Longrightarrow> body i s = Inl e \<or> (\<exists>s'. body i s = Inr s' \<and> P s')" "P s"
  shows "for_each is body s = Inl e \<or> (\<exists>s'. for_each is body s = Inr s' \<and> P s')"
  using for_each_set_allows [of "is" "\<lambda>S. P"] assms by blast

text \<open>A step that may fault, and what holds of every outcome.\<close>

lemma bnd_allows:
  "m = Inl e \<or> (\<exists>x. m = Inr x \<and> P x) \<Longrightarrow> (\<And>x. P x \<Longrightarrow> Q (f x)) \<Longrightarrow> Q (Inl e) \<Longrightarrow> Q (bnd m f)"
  by auto

section \<open>Byte buffers\<close>

definition memcpy_from :: "u8 list \<Rightarrow> nat \<Rightarrow> nat \<Rightarrow> fault + u8 list" where
  "memcpy_from buf off n =
     (if off + n \<le> length buf then Inr (take n (drop off buf)) else Inl OutOfBounds)"

definition store_prefix :: "u8 list \<Rightarrow> u8 list \<Rightarrow> fault + u8 list" where
  "store_prefix buf src =
     (if length src \<le> length buf then Inr (src @ drop (length src) buf) else Inl OutOfBounds)"

definition store_at :: "u8 list \<Rightarrow> nat \<Rightarrow> u8 list \<Rightarrow> fault + u8 list" where
  "store_at buf off src =
     (if off + length src \<le> length buf
      then Inr (take off buf @ src @ drop (off + length src) buf) else Inl OutOfBounds)"

fun le_nat :: "u8 list \<Rightarrow> nat" where
  "le_nat [] = 0"
| "le_nat (b # bs) = unat b + 256 * le_nat bs"

fun le_word :: "u8 list \<Rightarrow> 'a::len word" where
  "le_word [] = 0"
| "le_word (b # bs) = ucast b + 256 * le_word bs"

definition le16 :: "u8 list \<Rightarrow> nat \<Rightarrow> u16" where
  "le16 bs off = le_word (take 2 (drop off bs))"

definition le32 :: "u8 list \<Rightarrow> nat \<Rightarrow> u32" where
  "le32 bs off = le_word (take 4 (drop off bs))"

lemma le_word_le_nat: "le_word bs = word_of_nat (le_nat bs)"
  by (induction bs) simp_all

lemma memcpy_from_ok [fault_simps]:
  "off + n \<le> length buf \<Longrightarrow> memcpy_from buf off n = Inr (take n (drop off buf))"
  by (simp add: memcpy_from_def)

lemma memcpy_from_length:
  "memcpy_from buf off n = Inr b \<Longrightarrow> length b = n"
  by (auto simp: memcpy_from_def split: if_splits)

lemma store_prefix_ok [fault_simps]:
  "length src \<le> length buf \<Longrightarrow> store_prefix buf src = Inr (src @ drop (length src) buf)"
  by (simp add: store_prefix_def)

lemma store_prefix_length:
  "store_prefix buf src = Inr buf' \<Longrightarrow> length buf' = length buf"
  by (auto simp: store_prefix_def split: if_splits)

lemma store_at_length: "store_at buf off src = Inr buf' \<Longrightarrow> length buf' = length buf"
  by (auto simp: store_at_def split: if_splits)

lemma le_nat_bound: "le_nat bs < 256 ^ length bs"
proof (induction bs)
  case Nil
  then show ?case by simp
next
  case (Cons b bs)
  have "unat b < 2 ^ LENGTH(8)" by (rule unsigned_less)
  then have "unat b < 256" by simp
  with Cons show ?case by simp
qed

section \<open>Strings\<close>

definition bytes_to_string :: "u8 list \<Rightarrow> string" where
  "bytes_to_string bs = map (\<lambda>b. char_of (unat b)) bs"

definition string_to_bytes :: "string \<Rightarrow> u8 list" where
  "string_to_bytes s = map (\<lambda>c. word_of_nat (of_char c)) s"

definition nl :: char where
  "nl = CHR 0x0A"

definition nul :: char where
  "nul = CHR 0x00"

definition starts_with :: "string \<Rightarrow> string \<Rightarrow> bool" where
  "starts_with p s \<longleftrightarrow> take (length p) s = p"

fun find_char :: "char \<Rightarrow> string \<Rightarrow> nat option" where
  "find_char c [] = None"
| "find_char c (x # xs) = (if x = c then Some 0 else map_option Suc (find_char c xs))"

fun has_substr :: "string \<Rightarrow> string \<Rightarrow> bool" where
  "has_substr p [] = (p = [])"
| "has_substr p (x # xs) = (starts_with p (x # xs) \<or> has_substr p xs)"

definition is_trim_char :: "char \<Rightarrow> bool" where
  "is_trim_char c \<longleftrightarrow> c = CHR '' '' \<or> c = CHR 0x09 \<or> c = CHR 0x0D \<or> c = CHR 0x0A"

definition trim :: "string \<Rightarrow> string" where
  "trim s = rev (dropWhile is_trim_char (rev (dropWhile is_trim_char s)))"

definition is_space :: "char \<Rightarrow> bool" where
  "is_space c \<longleftrightarrow> is_trim_char c \<or> c = CHR 0x0B \<or> c = CHR 0x0C"

text \<open>
  \<^verbatim>\<open>while (std::getline(stream, line, d))\<close>: the lines it delivers. A text that ends with
  the delimiter has no further empty line.
\<close>

function getlines :: "char \<Rightarrow> string \<Rightarrow> string list" where
  "getlines d s =
     (if s = [] then []
      else takeWhile (\<lambda>c. c \<noteq> d) s # getlines d (tl (dropWhile (\<lambda>c. c \<noteq> d) s)))"
  by pat_completeness auto
termination
proof (relation "measure (\<lambda>(d, s). length s)", goal_cases)
  case 1
  then show ?case by simp
next
  case (2 d s)
  then have "length (tl (dropWhile (\<lambda>c. c \<noteq> d) s)) < length s"
    using length_dropWhile_le [of "\<lambda>c. c \<noteq> d" s]
    by (cases s) (auto simp: le_imp_less_Suc less_Suc_eq_le)
  then show ?case by simp
qed

declare getlines.simps [simp del]

text \<open>\<^verbatim>\<open>while (iss >> token)\<close>: the maximal runs of non-space characters.\<close>

function split_tokens :: "string \<Rightarrow> string list" where
  "split_tokens s =
     (let r = dropWhile is_space s
      in if r = [] then []
         else takeWhile (\<lambda>c. \<not> is_space c) r
                # split_tokens (dropWhile (\<lambda>c. \<not> is_space c) r))"
  by pat_completeness auto
termination
proof (relation "measure length", goal_cases)
  case 1
  then show ?case by simp
next
  case (2 s r)
  then obtain c cs where r: "r = c # cs" "\<not> is_space c"
    by (metis hd_dropWhile list.exhaust_sel)
  then have "length (dropWhile (\<lambda>c. \<not> is_space c) r) < length r"
    using length_dropWhile_le [of "\<lambda>c. \<not> is_space c" cs] by simp
  moreover have "length r \<le> length s"
    using 2(1) length_dropWhile_le [of is_space s] by simp
  ultimately show ?case by simp
qed

declare split_tokens.simps [simp del]

definition digit :: "nat \<Rightarrow> char" where
  "digit n = char_of (48 + n)"

function dec :: "nat \<Rightarrow> string" where
  "dec n = (if n < 10 then [digit n] else dec (n div 10) @ [digit (n mod 10)])"
  by pat_completeness auto
termination
  by (relation "measure id") auto

declare dec.simps [simp del]

definition dec_int :: "int \<Rightarrow> string" where
  "dec_int i = (if i < 0 then CHR ''-'' # dec (nat (- i)) else dec (nat i))"

text \<open>A line of an output stream, and a field of it padded to a width.\<close>

definition oline :: "string \<Rightarrow> string" where
  "oline s = s @ [nl]"

definition pad_left :: "nat \<Rightarrow> char \<Rightarrow> string \<Rightarrow> string" where
  "pad_left n c s = replicate (n - length s) c @ s"

definition pad_right :: "nat \<Rightarrow> string \<Rightarrow> string" where
  "pad_right n s = s @ replicate (n - length s) (CHR '' '')"

text \<open>
  A quotient printed with one decimal, rounded to the nearest tenth, ties to even, as a stream prints
  a double that holds the quotient exactly or is no tie.
\<close>

definition fixed1 :: "nat \<Rightarrow> nat \<Rightarrow> string" where
  "fixed1 n d =
     (let q = (10 * n) div d; r = (10 * n) mod d;
          q = (if 2 * r > d \<or> 2 * r = d \<and> odd q then q + 1 else q)
      in dec (q div 10) @ ''.'' @ dec (q mod 10))"

text \<open>\<^verbatim>\<open>atoi\<close> on values that an \<^verbatim>\<open>int\<close> holds.\<close>

definition is_digit :: "char \<Rightarrow> bool" where
  "is_digit c \<longleftrightarrow> 48 \<le> (of_char c :: nat) \<and> (of_char c :: nat) \<le> 57"

definition digits_val :: "string \<Rightarrow> int" where
  "digits_val s = foldl (\<lambda>a c. 10 * a + (of_char c - 48)) 0 s"

definition atoi :: "string \<Rightarrow> int" where
  "atoi s = (let t = dropWhile is_space s in
     case t of
       [] \<Rightarrow> 0
     | c # r \<Rightarrow>
         if c = CHR ''-'' then - digits_val (takeWhile is_digit r)
         else if c = CHR ''+'' then digits_val (takeWhile is_digit r)
         else digits_val (takeWhile is_digit t))"

text \<open>A printed number reads back, so printing is injective.\<close>

lemma digits_val_dec: "digits_val (dec n) = int n"
proof (induction n rule: dec.induct)
  case (1 n)
  have "(of_char (digit k) :: nat) = 48 + k" if "k < 10" for k
    using that by (simp add: digit_def)
  then have d: "k < 10 \<Longrightarrow> (of_char (digit k) :: int) = 48 + int k" for k
    using of_nat_of_char [of "digit k", where 'a = int] by simp
  show ?case
  proof (cases "n < 10")
    case True
    then show ?thesis using d by (simp add: dec.simps digits_val_def)
  next
    case False
    have "int n = 10 * int (n div 10) + int (n mod 10)" by presburger
    with False show ?thesis
      using 1 d [of "n mod 10"] by (subst dec.simps) (simp add: digits_val_def)
  qed
qed

lemma dec_inject [simp]: "dec m = dec n \<longleftrightarrow> m = n"
proof
  assume eq: "dec m = dec n"
  have "int m = int n"
    by (simp only: digits_val_dec [symmetric] eq)
  then show "m = n" by simp
qed simp

section \<open>The end of a list\<close>

text \<open>The last \<open>n\<close> elements, and what a bounded buffer keeps when an element is pushed.\<close>

definition keep_last :: "nat \<Rightarrow> 'a list \<Rightarrow> 'a list" where
  "keep_last n xs = drop (length xs - n) xs"

lemma keep_last_all: "length xs \<le> n \<Longrightarrow> keep_last n xs = xs"
  by (simp add: keep_last_def)

lemma length_keep_last [simp]: "length (keep_last n xs) = min n (length xs)"
  by (simp add: keep_last_def)

lemma keep_last_push:
  "(if length (keep_last n xs @ [x]) > n then tl (keep_last n xs @ [x]) else keep_last n xs @ [x])
   = keep_last n (xs @ [x])"
proof (cases "n \<le> length xs")
  case True
  let ?k = "length xs - n"
  have "keep_last n (xs @ [x]) = drop (Suc ?k) (xs @ [x])"
    by (simp only: keep_last_def length_append_singleton Suc_diff_le [OF True])
  moreover have "\<dots> = tl (drop ?k (xs @ [x]))"
    by (simp only: drop_Suc tl_drop)
  moreover have "drop ?k (xs @ [x]) = keep_last n xs @ [x]"
    by (simp add: keep_last_def)
  moreover have "length (keep_last n xs @ [x]) > n"
    using True by simp
  ultimately show ?thesis by simp
next
  case False
  then show ?thesis by (simp add: keep_last_all)
qed

lemma keep_last_rev_take: "keep_last n xs = rev (take n (rev xs))"
  by (simp add: keep_last_def rev_take)

section \<open>Little-endian encoding\<close>

definition u32_bytes :: "u32 \<Rightarrow> u8 list" where
  "u32_bytes w = [ucast w, ucast (drop_bit 8 w), ucast (drop_bit 16 w), ucast (drop_bit 24 w)]"

definition u16_bytes :: "u16 \<Rightarrow> u8 list" where
  "u16_bytes w = [ucast w, ucast (drop_bit 8 w)]"

lemma unat_ucast_byte: "unat (ucast (drop_bit k (w :: 'a::len word)) :: u8) = unat w div 2 ^ k mod 256"
proof -
  have "unat (drop_bit k w) = drop_bit k (unat w)"
    by (simp only: unsigned_drop_bit_eq take_bit_nat_eq_self [OF unsigned_less])
  then show ?thesis
    by (simp only: unsigned_ucast_eq take_bit_eq_mod drop_bit_eq_div [of k "unat w"]) simp
qed

lemma mod_div_256: "m mod 256 + 256 * (m div 256) = (m :: nat)"
  by simp

lemma le_nat_u32_bytes: "le_nat (u32_bytes w) = unat w"
proof -
  have b0: "unat (ucast w :: u8) = unat w mod 256"
    using unat_ucast_byte [of 0 w] by simp
  have "unat w div 256 div 256 div 256 < 256"
    using unat_u32_less [of w] by (simp add: less_mult_imp_div_less)
  then show ?thesis
    by (simp add: u32_bytes_def b0 unat_ucast_byte div_mult2_eq [of _ 256 256, simplified]
        div_mult2_eq [of _ 65536 256, simplified] mod_div_256)
qed

lemma le_nat_u16_bytes: "le_nat (u16_bytes w) = unat w"
proof -
  have b0: "unat (ucast w :: u8) = unat w mod 256"
    using unat_ucast_byte [of 0 w] by simp
  have "unat w div 256 < 256"
    using unat_u16_less [of w] by (simp add: less_mult_imp_div_less)
  then show ?thesis
    by (simp add: u16_bytes_def b0 unat_ucast_byte mod_div_256)
qed

lemma le_word_bytes [simp]: "le_word (u32_bytes w) = w" "le_word (u16_bytes v) = v"
  by (simp_all add: le_word_le_nat le_nat_u32_bytes le_nat_u16_bytes)

lemma length_word_bytes [simp]: "length (u32_bytes w) = 4" "length (u16_bytes v) = 2"
  by (simp_all add: u32_bytes_def u16_bytes_def)

lemma bytes_string_roundtrip [simp]: "bytes_to_string (string_to_bytes s) = s"
proof -
  have "char_of (unat (word_of_nat (of_char c) :: u8)) = c" for c :: char
    by (simp add: unat_of_nat)
  then show ?thesis
    by (induction s) (simp_all add: bytes_to_string_def string_to_bytes_def)
qed

lemma length_string_to_bytes [simp]: "length (string_to_bytes s) = length s"
  by (simp add: string_to_bytes_def)

lemma string_to_bytes_no_nul:
  assumes "nul \<notin> set s"
  shows "\<forall>x \<in> set (string_to_bytes s). x \<noteq> 0"
proof
  fix x assume "x \<in> set (string_to_bytes s)"
  then obtain c where c: "c \<in> set s" "x = word_of_nat (of_char c)"
    by (auto simp: string_to_bytes_def)
  have "char_of (unat (word_of_nat (of_char c) :: u8)) = c"
    by (simp add: unat_of_nat)
  then have "c = CHR 0x00" if "x = 0"
    using that c(2) by (simp add: char_of_def)
  then show "x \<noteq> 0"
    using assms c(1) by (auto simp: nul_def)
qed

end
