(* ===== verification/Block_Device.thy ===== *)
theory Block_Device
  imports Prelude
begin

text \<open>
  The block devices of \<^verbatim>\<open>block_device.cpp\<close>: a raw image read with
  \<^verbatim>\<open>pread\<close> and an Android sparse image whose chunk index is built once and searched
  by \<^verbatim>\<open>std::upper_bound\<close> at every read. A descriptor is the function
  \<^verbatim>\<open>pread\<close> computes on it, a parameter of the model. A read works on the caller's
  buffer, so a device block larger than the buffer is a fault.
\<close>

section \<open>Descriptors\<close>

text \<open>
  \<open>fd off n\<close> is what \<^verbatim>\<open>pread(fd, buf, n, off)\<close> delivers: \<open>None\<close> for -1,
  otherwise the bytes read. The offset is the 64-bit \<^verbatim>\<open>off_t\<close>.
\<close>

type_synonym fd = "u64 \<Rightarrow> nat \<Rightarrow> u8 list option"

definition pread_ok :: "fd \<Rightarrow> bool" where
  "pread_ok f \<longleftrightarrow> (\<forall>off n b. f off n = Some b \<longrightarrow> length b \<le> n)"

definition file_fd :: "u8 list \<Rightarrow> fd" where
  "file_fd content off n =
     (if sint off < 0 then None else Some (take n (drop (unat off) content)))"

lemma pread_ok_file_fd [intro, simp]: "pread_ok (file_fd content)"
  by (auto simp: pread_ok_def file_fd_def split: if_splits)

lemma pread_ok_length: "pread_ok f \<Longrightarrow> f off n = Some b \<Longrightarrow> length b \<le> n"
  by (auto simp: pread_ok_def)

section \<open>The interface IBlockDevice\<close>

text \<open>
  A read takes the block number and the caller's buffer, and returns the success flag with the
  buffer as it is left.
\<close>

type_synonym read_fn = "u64 \<Rightarrow> u8 list \<Rightarrow> fault + (bool \<times> u8 list)"

record iblockdev =
  readBlock :: read_fn
  getBlockSize :: u32
  getTotalBlocks :: u64

section \<open>RawBlockDevice\<close>

record raw_dev =
  rFd :: fd
  rBlockSize :: u32
  rTotalBlocks :: u64

definition pread_block :: "fd \<Rightarrow> u32 \<Rightarrow> u64 \<Rightarrow> u8 list \<Rightarrow> fault + (bool \<times> u8 list)" where
  "pread_block f bs off buf =
     (case f off (unat bs) of
        None \<Rightarrow> Inr (False, buf)
      | Some b \<Rightarrow> bnd (store_prefix buf b) (\<lambda>buf'. Inr (length b = unat bs, buf')))"

definition raw_readBlock :: "raw_dev \<Rightarrow> read_fn" where
  "raw_readBlock d n buf =
     (if n \<ge> rTotalBlocks d then Inr (False, buf)
      else pread_block (rFd d) (rBlockSize d) (n * ucast (rBlockSize d)) buf)"

text \<open>
  The loop of \<^verbatim>\<open>readBlocks\<close>, shared by both devices: block \<open>i\<close> goes to
  \<^verbatim>\<open>ptr + (i * mBlockSize)\<close>, a product of two 32-bit values that wraps.
\<close>

fun read_blocks_loop ::
  "read_fn \<Rightarrow> u32 \<Rightarrow> u64 \<Rightarrow> nat \<Rightarrow> u32 \<Rightarrow> u8 list \<Rightarrow> fault + (bool \<times> u8 list)" where
  "read_blocks_loop rd bs start 0 i buf = Inr (True, buf)"
| "read_blocks_loop rd bs start (Suc k) i buf =
     (let at = unat (i * bs) in
      if length buf < at then Inl OutOfBounds
      else bnd (rd (start + ucast i) (drop at buf)) (\<lambda>(ok, tail').
        if ok then read_blocks_loop rd bs start k (i + 1) (take at buf @ tail')
        else Inr (False, take at buf @ tail')))"

definition raw_readBlocks :: "raw_dev \<Rightarrow> u64 \<Rightarrow> u32 \<Rightarrow> u8 list \<Rightarrow> fault + (bool \<times> u8 list)" where
  "raw_readBlocks d start cnt buf =
     read_blocks_loop (raw_readBlock d) (rBlockSize d) start (unat cnt) 0 buf"

definition raw_iface :: "raw_dev \<Rightarrow> iblockdev" where
  "raw_iface d =
     \<lparr>readBlock = raw_readBlock d, getBlockSize = rBlockSize d, getTotalBlocks = rTotalBlocks d\<rparr>"

section \<open>SparseBlockDevice\<close>

definition CHUNK_TYPE_RAW :: u16 where "CHUNK_TYPE_RAW = 0xCAC1"
definition CHUNK_TYPE_FILL :: u16 where "CHUNK_TYPE_FILL = 0xCAC2"
definition CHUNK_TYPE_DONT_CARE :: u16 where "CHUNK_TYPE_DONT_CARE = 0xCAC3"
definition SPARSE_MAGIC :: u32 where "SPARSE_MAGIC = 0xED26FF3A"

record sparse_header =
  sh_magic :: u32
  sh_major :: u16
  sh_minor :: u16
  sh_file_hdr_sz :: u16
  sh_chunk_hdr_sz :: u16
  sh_blk_sz :: u32
  sh_total_blks :: u32
  sh_total_chunks :: u32
  sh_checksum :: u32

definition decode_sparse_header :: "u8 list \<Rightarrow> sparse_header" where
  "decode_sparse_header b =
     \<lparr>sh_magic = le32 b 0, sh_major = le16 b 4, sh_minor = le16 b 6,
      sh_file_hdr_sz = le16 b 8, sh_chunk_hdr_sz = le16 b 10, sh_blk_sz = le32 b 12,
      sh_total_blks = le32 b 16, sh_total_chunks = le32 b 20, sh_checksum = le32 b 24\<rparr>"

record chunk_header =
  ch_type :: u16
  ch_reserved :: u16
  ch_chunk_sz :: u32
  ch_total_sz :: u32

definition decode_chunk_header :: "u8 list \<Rightarrow> chunk_header" where
  "decode_chunk_header b =
     \<lparr>ch_type = le16 b 0, ch_reserved = le16 b 2, ch_chunk_sz = le32 b 4,
      ch_total_sz = le32 b 8\<rparr>"

record sparse_chunk =
  virtualBlockStart :: u64
  blockCount :: u32
  chunkType :: u16
  fillVal :: u32
  fileOffset :: u64

record sparse_dev =
  sFd :: fd
  sBlockSize :: u32
  sTotalBlocks :: u64
  mChunks :: "sparse_chunk list"

definition pread_exact :: "fd \<Rightarrow> u64 \<Rightarrow> nat \<Rightarrow> u8 list option" where
  "pread_exact f off n =
     (case f off n of None \<Rightarrow> None | Some b \<Rightarrow> if length b = n then Some b else None)"

text \<open>
  The fill value is read without looking at the result of \<^verbatim>\<open>pread\<close>: the bytes that
  arrive are the low bytes of a variable that was zero.
\<close>

definition read_fill :: "fd \<Rightarrow> u64 \<Rightarrow> u32" where
  "read_fill f off = (case f off 4 of None \<Rightarrow> 0 | Some b \<Rightarrow> le32 b 0)"

definition mk_chunk :: "fd \<Rightarrow> u16 \<Rightarrow> u64 \<Rightarrow> u64 \<Rightarrow> chunk_header \<Rightarrow> sparse_chunk" where
  "mk_chunk f chs off cur h =
     (let dataOff = off + ucast chs in
      \<lparr>virtualBlockStart = cur, blockCount = ch_chunk_sz h, chunkType = ch_type h,
       fillVal = (if ch_type h = CHUNK_TYPE_FILL then read_fill f dataOff else 0),
       fileOffset = dataOff\<rparr>)"

fun index_chunks :: "fd \<Rightarrow> u16 \<Rightarrow> nat \<Rightarrow> u64 \<Rightarrow> u64 \<Rightarrow> sparse_chunk list option" where
  "index_chunks f chs 0 off cur = Some []"
| "index_chunks f chs (Suc k) off cur =
     (case pread_exact f off 12 of
        None \<Rightarrow> None
      | Some b \<Rightarrow>
          let h = decode_chunk_header b in
          map_option ((#) (mk_chunk f chs off cur h))
            (index_chunks f chs k (off + ucast (ch_total_sz h)) (cur + ucast (ch_chunk_sz h))))"

definition buildIndex :: "fd \<Rightarrow> sparse_chunk list option" where
  "buildIndex f =
     (case pread_exact f 0 28 of
        None \<Rightarrow> None
      | Some b \<Rightarrow>
          let h = decode_sparse_header b in
          index_chunks f (sh_chunk_hdr_sz h) (unat (sh_total_chunks h))
            (ucast (sh_file_hdr_sz h)) 0)"

definition sparse_create :: "fd \<Rightarrow> sparse_dev option" where
  "sparse_create f =
     (case pread_exact f 0 28 of
        None \<Rightarrow> None
      | Some b \<Rightarrow>
          let h = decode_sparse_header b in
          if sh_magic h \<noteq> SPARSE_MAGIC then None
          else map_option
                 (\<lambda>cs. \<lparr>sFd = f, sBlockSize = sh_blk_sz h,
                        sTotalBlocks = ucast (sh_total_blks h), mChunks = cs\<rparr>)
                 (buildIndex f))"

text \<open>
  \<^verbatim>\<open>std::upper_bound\<close> halves the interval \<open>[first, first + len)\<close>: the first chunk
  that starts after block \<open>b\<close>, when the chunks are in the order of their first block.
\<close>

function upper_bound :: "u64 \<Rightarrow> sparse_chunk list \<Rightarrow> nat \<Rightarrow> nat \<Rightarrow> nat" where
  "upper_bound b cs first len =
     (if len = 0 then first
      else let half = len div 2; mid = first + half in
           if b < virtualBlockStart (cs ! mid) then upper_bound b cs first half
           else upper_bound b cs (mid + 1) (len - half - 1))"
  by pat_completeness auto
termination
  by (relation "measure (\<lambda>(b, cs, first, len). len)") auto

declare upper_bound.simps [simp del]

definition read_chunk :: "sparse_dev \<Rightarrow> sparse_chunk \<Rightarrow> u64 \<Rightarrow> u8 list \<Rightarrow> fault + (bool \<times> u8 list)"
where
  "read_chunk d c k buf =
     (if chunkType c = CHUNK_TYPE_RAW
      then pread_block (sFd d) (sBlockSize d) (fileOffset c + k * ucast (sBlockSize d)) buf
      else if chunkType c = CHUNK_TYPE_FILL
      then bnd (store_prefix buf (concat (replicate (unat (sBlockSize d div 4)) (u32_bytes (fillVal c)))))
             (\<lambda>buf'. Inr (True, buf'))
      else bnd (store_prefix buf (replicate (unat (sBlockSize d)) 0))
             (\<lambda>buf'. Inr (True, buf')))"

definition sparse_readBlock :: "sparse_dev \<Rightarrow> read_fn" where
  "sparse_readBlock d n buf =
     (if n \<ge> sTotalBlocks d \<or> mChunks d = [] then Inr (False, buf)
      else let it = upper_bound n (mChunks d) 0 (length (mChunks d)) in
        if it = 0 then Inr (False, buf)
        else let c = mChunks d ! (it - 1) in
          if n < virtualBlockStart c \<or> n \<ge> virtualBlockStart c + ucast (blockCount c)
          then Inr (False, buf)
          else read_chunk d c (n - virtualBlockStart c) buf)"

definition sparse_readBlocks ::
  "sparse_dev \<Rightarrow> u64 \<Rightarrow> u32 \<Rightarrow> u8 list \<Rightarrow> fault + (bool \<times> u8 list)" where
  "sparse_readBlocks d start cnt buf =
     read_blocks_loop (sparse_readBlock d) (sBlockSize d) start (unat cnt) 0 buf"

definition sparse_iface :: "sparse_dev \<Rightarrow> iblockdev" where
  "sparse_iface d =
     \<lparr>readBlock = sparse_readBlock d, getBlockSize = sBlockSize d,
      getTotalBlocks = sTotalBlocks d\<rparr>"


section \<open>Binary search\<close>

abbreviation chunk_le :: "u64 \<Rightarrow> sparse_chunk \<Rightarrow> bool" where
  "chunk_le b c \<equiv> virtualBlockStart c \<le> b"

lemma upper_bound_split:
  assumes "sorted (map virtualBlockStart cs)" "first + len \<le> length cs"
    and "\<forall>i < first. chunk_le b (cs ! i)"
    and "\<forall>i. first + len \<le> i \<and> i < length cs \<longrightarrow> \<not> chunk_le b (cs ! i)"
  shows "upper_bound b cs first len \<le> length cs
    \<and> (\<forall>i < upper_bound b cs first len. chunk_le b (cs ! i))
    \<and> (\<forall>i. upper_bound b cs first len \<le> i \<and> i < length cs \<longrightarrow> \<not> chunk_le b (cs ! i))"
  using assms
proof (induction b cs first len rule: upper_bound.induct)
  case (1 b cs first len)
  have mono: "virtualBlockStart (cs ! i) \<le> virtualBlockStart (cs ! j)"
    if "i \<le> j" "j < length cs" for i j
    using "1.prems"(1) that sorted_nth_mono [of "map virtualBlockStart cs" i j] by simp
  show ?case
  proof (cases "len = 0")
    case True
    then show ?thesis
      using "1.prems" by (simp add: upper_bound.simps)
  next
    case False
    define mid where "mid = first + len div 2"
    have mid: "mid < length cs"
      using False "1.prems"(2) by (simp add: mid_def)
    show ?thesis
    proof (cases "b < virtualBlockStart (cs ! mid)")
      case True
      have above: "\<not> chunk_le b (cs ! i)" if "mid \<le> i" "i < length cs" for i
        using True mono [OF that] by (auto simp: not_le)
      have "upper_bound b cs first len = upper_bound b cs first (len div 2)"
        using False True by (subst upper_bound.simps) (simp add: mid_def Let_def)
      moreover have "first + len div 2 \<le> length cs"
        using mid by (simp add: mid_def)
      ultimately show ?thesis
        using "1.IH"(1) [OF False refl refl] True "1.prems"(1,3) above mid_def by auto
    next
      case below: False
      have le: "chunk_le b (cs ! i)" if "i \<le> mid" for i
        using below mono [OF that mid] by (auto simp: not_less)
      have eq: "upper_bound b cs first len = upper_bound b cs (mid + 1) (len - len div 2 - 1)"
        using False below by (subst upper_bound.simps) (simp add: mid_def Let_def)
      have len: "mid + 1 + (len - len div 2 - 1) = first + len"
        using False by (simp add: mid_def)
      show ?thesis
        unfolding eq
        by (rule "1.IH"(2) [OF False refl refl, folded mid_def, OF below "1.prems"(1)])
          (use len "1.prems"(2,4) le in \<open>auto simp: less_Suc_eq_le\<close>)
    qed
  qed
qed

lemma length_takeWhile_split:
  assumes "t \<le> length xs" "\<forall>i < t. P (xs ! i)" "\<forall>i. t \<le> i \<and> i < length xs \<longrightarrow> \<not> P (xs ! i)"
  shows "length (takeWhile P xs) = t"
proof (cases "t < length xs")
  case True
  then show ?thesis
    using assms takeWhile_eq_take_P_nth [of t xs P] by simp
next
  case False
  then have t: "t = length xs"
    using assms(1) by simp
  have "\<forall>x \<in> set xs. P x"
    using assms(2) by (auto simp: t in_set_conv_nth)
  then have "takeWhile P xs = xs"
    by (rule takeWhile_eq_all_conv [THEN iffD2])
  then show ?thesis
    by (simp only: t)
qed

lemma upper_bound_takeWhile:
  assumes "sorted (map virtualBlockStart cs)"
  shows "upper_bound b cs 0 (length cs) = length (takeWhile (chunk_le b) cs)"
proof -
  have "upper_bound b cs 0 (length cs) \<le> length cs
    \<and> (\<forall>i < upper_bound b cs 0 (length cs). chunk_le b (cs ! i))
    \<and> (\<forall>i. upper_bound b cs 0 (length cs) \<le> i \<and> i < length cs \<longrightarrow> \<not> chunk_le b (cs ! i))"
    by (rule upper_bound_split [OF assms]) (simp_all, meson leD)
  then show ?thesis
    by (intro length_takeWhile_split [symmetric]) blast+
qed

section \<open>Index arithmetic\<close>

lemma prefix_mult_less: "(i + k) * b < (n :: nat) \<Longrightarrow> i * b < n"
  by (simp add: add_mult_distrib)

lemma unat_mult_of_nat:
  assumes "i < 2 ^ 32" "i * unat b < 2 ^ 32"
  shows "unat ((word_of_nat i :: u32) * b) = i * unat b"
  using assms by (simp add: unat_word_ariths unat_of_nat)

lemma ucast_of_nat_u32:
  "i < 2 ^ 32 \<Longrightarrow> ucast (word_of_nat i :: u32) = (word_of_nat i :: u64)"
  by (simp add: unsigned_of_nat take_bit_nat_eq_self)

section \<open>The chunk index\<close>

text \<open>
  The specification of a sparse image: chunk after chunk, each holds the next
  \<^verbatim>\<open>chunk_sz\<close> blocks. \<open>chunk_at\<close> walks the chunks in order, in unbounded arithmetic.
\<close>

fun chunk_at :: "sparse_chunk list \<Rightarrow> nat \<Rightarrow> (sparse_chunk \<times> nat) option" where
  "chunk_at [] n = None"
| "chunk_at (c # cs) n =
     (if n < unat (blockCount c) then Some (c, n) else chunk_at cs (n - unat (blockCount c)))"

fun starts_from :: "nat \<Rightarrow> sparse_chunk list \<Rightarrow> bool" where
  "starts_from s [] \<longleftrightarrow> s < 2 ^ 64"
| "starts_from s (c # cs) \<longleftrightarrow>
     unat (virtualBlockStart c) = s \<and> starts_from (s + unat (blockCount c)) cs"

lemma starts_from_bound: "starts_from s cs \<Longrightarrow> s < 2 ^ 64"
proof (induction cs arbitrary: s)
  case (Cons a cs)
  have "starts_from (s + unat (blockCount a)) cs"
    using Cons.prems by simp
  then have "s + unat (blockCount a) < 2 ^ 64"
    by (rule Cons.IH)
  then show ?case
    by (rule add_lessD1)
qed simp

lemma unat_add_u32:
  assumes "unat cur + unat (x :: u32) < 2 ^ 64"
  shows "unat ((cur :: u64) + ucast x) = unat cur + unat x"
  using assms unat_u32_less [of x]
  by (simp add: unat_word_ariths unsigned_ucast_eq take_bit_eq_mod)

lemma index_chunks_starts:
  assumes "index_chunks f chs k off cur = Some cs" "unat cur + k * 2 ^ 32 < 2 ^ 64"
  shows "starts_from (unat cur) cs"
  using assms
proof (induction k arbitrary: off cur cs)
  case 0
  then show ?case using unsigned_less [of cur] by simp
next
  case (Suc k)
  then obtain b cs' where b: "pread_exact f off 12 = Some b"
    and rest: "index_chunks f chs k (off + ucast (ch_total_sz (decode_chunk_header b)))
      (cur + ucast (ch_chunk_sz (decode_chunk_header b))) = Some cs'"
    and cs: "cs = mk_chunk f chs off cur (decode_chunk_header b) # cs'"
    by (auto simp: Let_def split: option.splits)
  let ?x = "ch_chunk_sz (decode_chunk_header b)"
  have "unat (cur + ucast ?x) = unat cur + unat ?x"
    using Suc.prems(2) unat_u32_less [of ?x] by (intro unat_add_u32) simp
  then show ?case
    using Suc.IH [OF rest] Suc.prems(2) unat_u32_less [of ?x] by (simp add: cs mk_chunk_def Let_def)
qed

lemma starts_from_ge:
  "starts_from s cs \<Longrightarrow> c \<in> set cs \<Longrightarrow> s \<le> unat (virtualBlockStart c)"
proof (induction cs arbitrary: s)
  case (Cons a cs)
  then show ?case using Cons.IH [of "s + unat (blockCount a)"] by fastforce
qed simp

lemma starts_from_sorted: "starts_from s cs \<Longrightarrow> sorted (map virtualBlockStart cs)"
proof (induction cs arbitrary: s)
  case (Cons a cs)
  have "virtualBlockStart a \<le> virtualBlockStart c" if "c \<in> set cs" for c
    using starts_from_ge [of "s + unat (blockCount a)" cs c] Cons.prems that
    by (simp add: word_le_nat_alt)
  moreover have "sorted (map virtualBlockStart cs)"
    using Cons.IH [of "s + unat (blockCount a)"] Cons.prems by simp
  ultimately show ?case
    by simp
qed simp

lemma chunk_at_takeWhile:
  assumes "starts_from s cs" "s \<le> unat b"
  shows "chunk_at cs (unat b - s) =
    (let t = length (takeWhile (chunk_le b) cs) in
     if t = 0 then None
     else let c = cs ! (t - 1) in
       if unat b < unat (virtualBlockStart c) + unat (blockCount c)
       then Some (c, unat b - unat (virtualBlockStart c)) else None)"
  using assms
proof (induction cs arbitrary: s)
  case Nil
  then show ?case by simp
next
  case (Cons a cs)
  have hd: "chunk_le b a"
    using Cons.prems by (simp add: word_le_nat_alt)
  have rest: "starts_from (s + unat (blockCount a)) cs"
    using Cons.prems by simp
  show ?case
  proof (cases "unat b < s + unat (blockCount a)")
    case True
    have "takeWhile (chunk_le b) cs = []"
      using True starts_from_ge [OF rest, of "hd cs"]
      by (cases cs) (auto simp: word_le_nat_alt)
    then show ?thesis
      using True hd Cons.prems by auto
  next
    case False
    then have skip: "\<not> unat b - s < unat (blockCount a)"
      by linarith
    then have "chunk_at (a # cs) (unat b - s) = chunk_at cs (unat b - (s + unat (blockCount a)))"
      using Cons.prems by simp
    moreover have "chunk_at cs 0 = chunk_at cs (unat b - (s + unat (blockCount a)))"
      if "unat b = s + unat (blockCount a)"
      using that by simp
    ultimately show ?thesis
      using Cons.IH [OF rest] False skip hd Cons.prems
      by (cases "takeWhile (chunk_le b) cs = []") (auto simp: Let_def nth_Cons' split: if_splits)
  qed
qed

lemma starts_from_end:
  assumes "starts_from s cs" "i < length cs"
  shows "unat (virtualBlockStart (cs ! i)) + unat (blockCount (cs ! i)) < 2 ^ 64"
  using assms
proof (induction cs arbitrary: s i)
  case (Cons a cs)
  have rest: "starts_from (s + unat (blockCount a)) cs" and s: "unat (virtualBlockStart a) = s"
    using Cons.prems(1) by simp_all
  show ?case
  proof (cases i)
    case 0
    then show ?thesis using starts_from_bound [OF rest] s by simp
  next
    case (Suc j)
    then show ?thesis using Cons.IH [OF rest, of j] Cons.prems(2) by simp
  qed
qed simp

lemma sparse_create_starts:
  assumes "sparse_create f = Some d"
  shows "starts_from 0 (mChunks d)"
proof -
  obtain h :: sparse_header where
    "index_chunks f (sh_chunk_hdr_sz h) (unat (sh_total_chunks h)) (ucast (sh_file_hdr_sz h)) 0
      = Some (mChunks d)"
    using assms by (fastforce simp: sparse_create_def buildIndex_def Let_def split: option.splits if_splits)
  from index_chunks_starts [OF this] show ?thesis
    using unat_u32_less [of "sh_total_chunks h"] by simp
qed


definition chunk_content :: "sparse_dev \<Rightarrow> sparse_chunk \<Rightarrow> nat \<Rightarrow> u8 list option" where
  "chunk_content d c k =
     (if chunkType c = CHUNK_TYPE_RAW
      then pread_exact (sFd d) (fileOffset c + word_of_nat k * ucast (sBlockSize d)) (unat (sBlockSize d))
      else if chunkType c = CHUNK_TYPE_FILL
      then Some (concat (replicate (unat (sBlockSize d div 4)) (u32_bytes (fillVal c))))
      else Some (replicate (unat (sBlockSize d)) 0))"

definition sparse_content :: "sparse_dev \<Rightarrow> u64 \<Rightarrow> u8 list option" where
  "sparse_content d n =
     (if n \<ge> sTotalBlocks d then None
      else case chunk_at (mChunks d) (unat n) of
             None \<Rightarrow> None | Some (c, k) \<Rightarrow> chunk_content d c k)"

definition sparse_ok :: "sparse_dev \<Rightarrow> bool" where
  "sparse_ok d \<longleftrightarrow> pread_ok (sFd d) \<and> starts_from 0 (mChunks d)"

definition raw_content :: "raw_dev \<Rightarrow> u64 \<Rightarrow> u8 list option" where
  "raw_content d n =
     (if n \<ge> rTotalBlocks d then None
      else pread_exact (rFd d) (n * ucast (rBlockSize d)) (unat (rBlockSize d)))"

lemma sparse_readBlock_walk:
  assumes "starts_from 0 (mChunks d)"
  shows "sparse_readBlock d n buf =
    (if n \<ge> sTotalBlocks d then Inr (False, buf)
     else case chunk_at (mChunks d) (unat n) of
            None \<Rightarrow> Inr (False, buf)
          | Some (c, k) \<Rightarrow> read_chunk d c (word_of_nat k) buf)"
proof (cases "n \<ge> sTotalBlocks d \<or> mChunks d = []")
  case True
  then show ?thesis by (auto simp: sparse_readBlock_def)
next
  case False
  let ?cs = "mChunks d"
  define t where "t = length (takeWhile (chunk_le n) ?cs)"
  have ub: "upper_bound n ?cs 0 (length ?cs) = t"
    unfolding t_def by (rule upper_bound_takeWhile [OF starts_from_sorted [OF assms]])
  have walk: "chunk_at ?cs (unat n) =
    (if t = 0 then None
     else let c = ?cs ! (t - 1) in
       if unat n < unat (virtualBlockStart c) + unat (blockCount c)
       then Some (c, unat n - unat (virtualBlockStart c)) else None)"
    using chunk_at_takeWhile [OF assms, of n] by (simp add: t_def Let_def)
  show ?thesis
  proof (cases "t = 0")
    case True
    then show ?thesis using False ub walk by (simp add: sparse_readBlock_def)
  next
    case pos: False
    define c where "c = ?cs ! (t - 1)"
    have tl: "t - 1 < length (takeWhile (chunk_le n) ?cs)"
      using pos by (simp add: t_def)
    have le: "virtualBlockStart c \<le> n"
      using nth_mem [OF tl] takeWhile_nth [OF tl] set_takeWhileD by (metis c_def One_nat_def)
    have bound: "unat (virtualBlockStart c) + unat (blockCount c) < 2 ^ 64"
    proof -
      have "t - 1 < length ?cs"
        using tl length_takeWhile_le [of "chunk_le n" ?cs] by linarith
      then show ?thesis
        using starts_from_end [OF assms] by (simp add: c_def)
    qed
    have sum: "unat (virtualBlockStart c + ucast (blockCount c)) =
      unat (virtualBlockStart c) + unat (blockCount c)"
      using bound by (rule unat_add_u32)
    have sub: "word_of_nat (unat n - unat (virtualBlockStart c)) = n - virtualBlockStart c"
      by (simp only: unat_sub [OF le, symmetric] of_nat_unat ucast_id)
    have code: "sparse_readBlock d n buf =
      (if n < virtualBlockStart c \<or> n \<ge> virtualBlockStart c + ucast (blockCount c)
       then Inr (False, buf) else read_chunk d c (n - virtualBlockStart c) buf)"
      using False pos by (simp only: sparse_readBlock_def ub c_def Let_def if_False One_nat_def)
    have inside: "n \<ge> virtualBlockStart c + ucast (blockCount c) \<longleftrightarrow>
      \<not> unat n < unat (virtualBlockStart c) + unat (blockCount c)"
      by (simp only: word_le_nat_alt sum not_less)
    have walk': "chunk_at ?cs (unat n) =
      (if unat n < unat (virtualBlockStart c) + unat (blockCount c)
       then Some (c, unat n - unat (virtualBlockStart c)) else None)"
      using pos by (simp only: walk c_def Let_def if_False One_nat_def)
    have nlt: "\<not> n < virtualBlockStart c"
      using le by (simp only: not_less)
    show ?thesis
      using False nlt unfolding code inside walk' by (simp add: sub)
  qed
qed


section \<open>The contract of a block device\<close>

text \<open>
  What \<^verbatim>\<open>ext4_reader.cpp\<close> relies on: a read past the end fails and leaves the
  buffer; with a buffer of at least a device block no access leaves it, its length and its bytes
  after the first block are kept.
\<close>

locale block_device =
  fixes okd :: "'d \<Rightarrow> bool"
    and rd :: "'d \<Rightarrow> read_fn"
    and bs :: "'d \<Rightarrow> u32"
    and total :: "'d \<Rightarrow> u64"
  assumes rd_range: "okd d \<Longrightarrow> total d \<le> n \<Longrightarrow> rd d n buf = Inr (False, buf)"
    and rd_safe: "okd d \<Longrightarrow> unat (bs d) \<le> length buf \<Longrightarrow>
      \<exists>ok buf'. rd d n buf = Inr (ok, buf') \<and> length buf' = length buf
        \<and> drop (unat (bs d)) buf' = drop (unat (bs d)) buf"
begin

lemma read_blocks_safe:
  assumes "okd d" "(i + k) * unat (bs d) \<le> length buf" "i + k < 2 ^ 32"
    "(i + k) * unat (bs d) < 2 ^ 32"
  shows "\<exists>ok buf'. read_blocks_loop (rd d) (bs d) start k (word_of_nat i) buf = Inr (ok, buf')
    \<and> length buf' = length buf"
  using assms(2-)
proof (induction k arbitrary: i buf)
  case (Suc k)
  have at: "unat ((word_of_nat i :: u32) * bs d) = i * unat (bs d)"
    using Suc.prems(2) prefix_mult_less [OF Suc.prems(3)] by (intro unat_mult_of_nat) auto
  have room: "unat (bs d) \<le> length (drop (i * unat (bs d)) buf)"
    using Suc.prems(1) by (simp add: algebra_simps)
  obtain ok b' where rd: "rd d (start + ucast (word_of_nat i :: u32)) (drop (i * unat (bs d)) buf) = Inr (ok, b')"
    and len: "length b' = length (drop (i * unat (bs d)) buf)"
    using rd_safe [OF assms(1) room] by blast
  have step: "word_of_nat i + 1 = (word_of_nat (Suc i) :: u32)"
    by simp
  let ?buf = "take (i * unat (bs d)) buf @ b'"
  have len': "length ?buf = length buf"
    using len Suc.prems(1) by (simp add: algebra_simps)
  have "\<exists>ok buf'. read_blocks_loop (rd d) (bs d) start k (word_of_nat (Suc i)) ?buf = Inr (ok, buf')
    \<and> length buf' = length ?buf"
    by (rule Suc.IH) (use Suc.prems len' in \<open>simp_all add: algebra_simps\<close>)
  then show ?case
    using Suc.prems(1) rd len' by (cases ok) (auto simp: at Let_def step algebra_simps)
qed auto

end

text \<open>A device whose blocks have a fixed content, which a read copies to the buffer's head.\<close>

locale content_device = block_device okd rd bs total
  for okd :: "'d \<Rightarrow> bool" and rd :: "'d \<Rightarrow> read_fn" and bs :: "'d \<Rightarrow> u32" and total :: "'d \<Rightarrow> u64" +
  fixes exact :: "'d \<Rightarrow> bool"
    and content :: "'d \<Rightarrow> u64 \<Rightarrow> u8 list option"
  assumes content_length: "okd d \<Longrightarrow> exact d \<Longrightarrow> content d n = Some b \<Longrightarrow> length b = unat (bs d)"
    and content_read: "okd d \<Longrightarrow> exact d \<Longrightarrow> unat (bs d) \<le> length buf \<Longrightarrow> content d n = Some b \<Longrightarrow>
      rd d n buf = Inr (True, b @ drop (unat (bs d)) buf)"
    and content_none: "okd d \<Longrightarrow> exact d \<Longrightarrow> unat (bs d) \<le> length buf \<Longrightarrow> content d n = None \<Longrightarrow>
      \<exists>buf'. rd d n buf = Inr (False, buf')"
begin

lemma read_blocks_content:
  assumes "okd d" "exact d" "(i + k) * unat (bs d) \<le> length buf" "i + k < 2 ^ 32"
    "(i + k) * unat (bs d) < 2 ^ 32" "\<forall>j < k. content d (start + word_of_nat (i + j)) \<noteq> None"
  shows "read_blocks_loop (rd d) (bs d) start k (word_of_nat i) buf =
    Inr (True, take (i * unat (bs d)) buf
      @ concat (map (\<lambda>j. the (content d (start + word_of_nat (i + j)))) [0..<k])
      @ drop ((i + k) * unat (bs d)) buf)"
  using assms(3-)
proof (induction k arbitrary: i buf)
  case (Suc k)
  let ?B = "unat (bs d)"
  obtain b where b: "content d (start + word_of_nat i) = Some b"
    using Suc.prems(4) by fastforce
  have lb: "length b = ?B"
    using content_length [OF assms(1,2) b] .
  have at: "unat ((word_of_nat i :: u32) * bs d) = i * ?B"
    using Suc.prems(2) prefix_mult_less [OF Suc.prems(3)] by (intro unat_mult_of_nat) auto
  have idx: "ucast (word_of_nat i :: u32) = (word_of_nat i :: u64)"
    using Suc.prems(2) by (intro ucast_of_nat_u32) simp
  have room: "?B \<le> length (drop (i * ?B) buf)"
    using Suc.prems(1) by (simp add: algebra_simps)
  let ?buf = "take (i * ?B) buf @ b @ drop ?B (drop (i * ?B) buf)"
  have rd: "rd d (start + word_of_nat i) (drop (i * ?B) buf) = Inr (True, b @ drop ?B (drop (i * ?B) buf))"
    by (rule content_read [OF assms(1,2) room b])
  have step: "word_of_nat i + 1 = (word_of_nat (Suc i) :: u32)"
    by simp
  have buf_len: "length ?buf = length buf"
    using Suc.prems(1) by (simp add: lb algebra_simps)
  have later: "\<forall>j < k. content d (start + word_of_nat (Suc i + j)) \<noteq> None"
  proof (intro allI impI)
    fix j assume "j < k"
    then show "content d (start + word_of_nat (Suc i + j)) \<noteq> None"
      using Suc.prems(4) [rule_format, of "Suc j"] by (simp del: of_nat_Suc of_nat_add)
  qed
  have IH: "read_blocks_loop (rd d) (bs d) start k (word_of_nat (Suc i)) ?buf =
    Inr (True, take (Suc i * ?B) ?buf
      @ concat (map (\<lambda>j. the (content d (start + word_of_nat (Suc i + j)))) [0..<k])
      @ drop ((Suc i + k) * ?B) ?buf)"
    by (rule Suc.IH) (use Suc.prems(1-3) buf_len later in \<open>simp_all add: algebra_simps\<close>)
  have iB: "i * ?B \<le> length buf"
    using Suc.prems(1) by (simp add: algebra_simps)
  have front: "take (Suc i * ?B) ?buf = take (i * ?B) buf @ b"
    using iB lb by (simp add: min_def)
  have behind: "drop ((Suc i + k) * ?B) ?buf = drop ((i + Suc k) * ?B) buf"
    using iB lb by (simp add: algebra_simps)
  have "[0..<Suc k] = 0 # map Suc [0..<k]"
    by (simp add: map_Suc_upt upt_conv_Cons del: upt_Suc)
  then have "concat (map (\<lambda>j. the (content d (start + word_of_nat (i + j)))) [0..<Suc k]) =
    b @ concat (map (\<lambda>j. the (content d (start + word_of_nat (Suc i + j)))) [0..<k])"
    using b by (simp add: comp_def add.left_commute del: upt_Suc)
  then show ?case
    using IH [unfolded front behind] iB rd by (simp add: at idx Let_def step del: upt_Suc of_nat_Suc)
qed simp

end


section \<open>Both devices keep the contract\<close>

lemma pread_block_content:
  assumes "pread_ok f" "unat bs \<le> length buf"
  shows "case pread_exact f off (unat bs) of
      Some b \<Rightarrow> length b = unat bs \<and> pread_block f bs off buf = Inr (True, b @ drop (unat bs) buf)
    | None \<Rightarrow> \<exists>buf'. pread_block f bs off buf = Inr (False, buf') \<and> length buf' = length buf
        \<and> drop (unat bs) buf' = drop (unat bs) buf"
proof (cases "f off (unat bs)")
  case None
  then show ?thesis by (simp add: pread_exact_def pread_block_def)
next
  case (Some b)
  then have "length b \<le> unat bs"
    using assms(1) by (simp add: pread_ok_length)
  then show ?thesis
    using Some assms(2) by (simp add: pread_exact_def pread_block_def store_prefix_ok)
qed

lemma pread_block_safe:
  assumes "pread_ok f" "unat bs \<le> length buf"
  shows "\<exists>ok buf'. pread_block f bs off buf = Inr (ok, buf') \<and> length buf' = length buf
        \<and> drop (unat bs) buf' = drop (unat bs) buf"
  using pread_block_content [OF assms, of off] assms(2) by (auto split: option.splits)

lemma length_fill_block:
  "length (concat (replicate (unat (bs div 4)) (u32_bytes v))) = 4 * (unat (bs :: u32) div 4)"
  by (simp add: u32_bytes_def length_concat sum_list_replicate unat_div_distrib)

lemma read_chunk_safe:
  assumes "pread_ok (sFd d)" "unat (sBlockSize d) \<le> length buf"
  shows "\<exists>ok buf'. read_chunk d c k buf = Inr (ok, buf') \<and> length buf' = length buf
        \<and> drop (unat (sBlockSize d)) buf' = drop (unat (sBlockSize d)) buf"
proof -
  have "4 * (unat (sBlockSize d) div 4) \<le> unat (sBlockSize d)"
    by simp
  then show ?thesis
    using assms pread_block_safe [OF assms]
    by (simp add: read_chunk_def store_prefix_ok length_fill_block min_def)
qed

lemma chunk_content_read:
  assumes "pread_ok (sFd d)" "unat (sBlockSize d) \<le> length buf" "4 dvd unat (sBlockSize d)"
  shows "case chunk_content d c k of
      Some b \<Rightarrow> length b = unat (sBlockSize d)
        \<and> read_chunk d c (word_of_nat k) buf = Inr (True, b @ drop (unat (sBlockSize d)) buf)
    | None \<Rightarrow> \<exists>buf'. read_chunk d c (word_of_nat k) buf = Inr (False, buf')"
proof -
  have "4 * (unat (sBlockSize d) div 4) = unat (sBlockSize d)"
    using assms(3) by simp
  moreover note pread_block_content [OF assms(1,2), of "fileOffset c + word_of_nat k * ucast (sBlockSize d)"]
  ultimately show ?thesis
    using assms(2)
    by (auto simp: chunk_content_def read_chunk_def store_prefix_ok length_fill_block split: option.splits)
qed

interpretation raw: block_device "\<lambda>d. pread_ok (rFd d)" raw_readBlock rBlockSize rTotalBlocks
proof
  fix d :: raw_dev and n and buf :: "u8 list"
  assume "pread_ok (rFd d)" "unat (rBlockSize d) \<le> length buf"
  then show "\<exists>ok buf'. raw_readBlock d n buf = Inr (ok, buf') \<and> length buf' = length buf
      \<and> drop (unat (rBlockSize d)) buf' = drop (unat (rBlockSize d)) buf"
    using pread_block_safe by (simp add: raw_readBlock_def)
qed (simp add: raw_readBlock_def)

interpretation sparse: block_device sparse_ok sparse_readBlock sBlockSize sTotalBlocks
proof
  fix d n and buf :: "u8 list"
  assume "sparse_ok d" "unat (sBlockSize d) \<le> length buf"
  then show "\<exists>ok buf'. sparse_readBlock d n buf = Inr (ok, buf') \<and> length buf' = length buf
      \<and> drop (unat (sBlockSize d)) buf' = drop (unat (sBlockSize d)) buf"
    using read_chunk_safe by (simp add: sparse_readBlock_walk sparse_ok_def split: option.splits)
qed (simp add: sparse_readBlock_def)

interpretation raw: content_device "\<lambda>d. pread_ok (rFd d)" raw_readBlock rBlockSize rTotalBlocks
  "\<lambda>d. True" raw_content
proof
  fix d :: raw_dev and n b and buf :: "u8 list"
  show "length b = unat (rBlockSize d)" if "pread_ok (rFd d)" "raw_content d n = Some b"
    using that by (auto simp: raw_content_def pread_exact_def split: if_splits option.splits)
  assume ok: "pread_ok (rFd d)" "unat (rBlockSize d) \<le> length buf"
  note rd = pread_block_content [OF ok, of "n * ucast (rBlockSize d)"]
  show "raw_readBlock d n buf = Inr (True, b @ drop (unat (rBlockSize d)) buf)"
    if "raw_content d n = Some b"
    using that rd by (auto simp: raw_content_def raw_readBlock_def split: if_splits)
  show "\<exists>buf'. raw_readBlock d n buf = Inr (False, buf')" if "raw_content d n = None"
    using that rd by (auto simp: raw_content_def raw_readBlock_def split: if_splits)
qed

interpretation sparse: content_device sparse_ok sparse_readBlock sBlockSize sTotalBlocks
  "\<lambda>d. 4 dvd unat (sBlockSize d)" sparse_content
proof
  fix d n b and buf :: "u8 list"
  assume sp: "sparse_ok d" and dvd: "4 dvd unat (sBlockSize d)"
  then have pr: "pread_ok (sFd d)" and st: "starts_from 0 (mChunks d)"
    by (simp_all add: sparse_ok_def)
  note rd = chunk_content_read [OF pr _ dvd]
  show "length b = unat (sBlockSize d)" if "sparse_content d n = Some b"
    using that rd [of "replicate (unat (sBlockSize d)) 0"]
    by (force simp: sparse_content_def split: if_splits option.splits)
  assume len: "unat (sBlockSize d) \<le> length buf"
  show "sparse_readBlock d n buf = Inr (True, b @ drop (unat (sBlockSize d)) buf)"
    if "sparse_content d n = Some b"
    using that rd [OF len]
    by (force simp: sparse_content_def sparse_readBlock_walk [OF st] split: if_splits option.splits)
  show "\<exists>buf'. sparse_readBlock d n buf = Inr (False, buf')" if "sparse_content d n = None"
    using that rd [OF len]
    by (force simp: sparse_content_def sparse_readBlock_walk [OF st] split: if_splits option.splits)
qed

lemma sparse_create_ok: "sparse_create f = Some d \<Longrightarrow> pread_ok f \<Longrightarrow> sparse_ok d"
  using sparse_create_starts [of f d]
  by (auto simp: sparse_ok_def sparse_create_def Let_def split: option.splits if_splits)


section \<open>Properties\<close>

text \<open>C4: Reading block \<open>n\<close> of a created sparse device is the linear walk over its chunks in file
  order, each holding the next \<^verbatim>\<open>chunk_sz\<close> blocks in unbounded arithmetic: the
  binary search, the 64-bit running sums and the range check never pick another chunk, also with
  empty chunks, and a block that no chunk holds is refused.\<close>

theorem sparse_read_is_chunk_walk:
  assumes "sparse_create f = Some d"
  shows "sparse_readBlock d n buf =
    (if n \<ge> sTotalBlocks d then Inr (False, buf)
     else case chunk_at (mChunks d) (unat n) of
            None \<Rightarrow> Inr (False, buf)
          | Some (c, k) \<Rightarrow> read_chunk d c (word_of_nat k) buf)"
  by (rule sparse_readBlock_walk [OF sparse_create_starts [OF assms]])

text \<open>A sparse image of three blocks of four bytes: a fill chunk of two, a hole of one.\<close>

definition demo_sparse :: "u8 list" where
  "demo_sparse =
     [0x3A, 0xFF, 0x26, 0xED, 1, 0, 0, 0, 28, 0, 12, 0, 4, 0, 0, 0, 3, 0, 0, 0, 2, 0, 0, 0, 0, 0, 0, 0,
      0xC2, 0xCA, 0, 0, 2, 0, 0, 0, 16, 0, 0, 0, 4, 3, 2, 1,
      0xC3, 0xCA, 0, 0, 1, 0, 0, 0, 12, 0, 0, 0]"


definition demo_sparse_dev :: sparse_dev where
  "demo_sparse_dev = the (sparse_create (file_fd demo_sparse))"

lemma demo_sparse_created: "sparse_create (file_fd demo_sparse) = Some demo_sparse_dev"
proof -
  have "\<not> Option.is_none (sparse_create (file_fd demo_sparse))"
    by code_simp
  then show ?thesis
    by (simp add: demo_sparse_dev_def Option.is_none_def)
qed

theorem sparse_read_is_chunk_walk_witness:
  "sparse_readBlock demo_sparse_dev 1 [9, 9, 9, 9, 9] = Inr (True, [4, 3, 2, 1, 9])"
proof -
  have "(if 1 \<ge> sTotalBlocks demo_sparse_dev then Inr (False, [9, 9, 9, 9, 9])
     else case chunk_at (mChunks demo_sparse_dev) (unat (1 :: u64)) of
            None \<Rightarrow> Inr (False, [9, 9, 9, 9, 9])
          | Some (c, k) \<Rightarrow> read_chunk demo_sparse_dev c (word_of_nat k) [9, 9, 9, 9, 9])
     = Inr (True, [4, 3, 2, 1, 9])"
    by code_simp
  then show ?thesis
    by (simp only: sparse_read_is_chunk_walk [OF demo_sparse_created])
qed

text \<open>C5: \<^verbatim>\<open>SparseBlockDevice::readBlocks\<close> on a created device: when every requested
  block is there, the buffer holds \<open>cnt\<close> blocks and their bytes stay below \<open>2^32\<close>, it succeeds
  and puts exactly the blocks, one after the other, at the head of the buffer.\<close>

theorem sparse_readBlocks_concat:
  assumes "sparse_create f = Some d" "pread_ok f" "4 dvd unat (sBlockSize d)"
    and "unat cnt * unat (sBlockSize d) \<le> length buf" "unat cnt * unat (sBlockSize d) < 2 ^ 32"
    and "\<forall>j < unat cnt. sparse_content d (start + word_of_nat j) \<noteq> None"
  shows "sparse_readBlocks d start cnt buf =
    Inr (True, concat (map (\<lambda>j. the (sparse_content d (start + word_of_nat j))) [0..<unat cnt])
      @ drop (unat cnt * unat (sBlockSize d)) buf)"
  using sparse.read_blocks_content [OF sparse_create_ok [OF assms(1,2)] assms(3), of 0 "unat cnt" buf start]
    assms(4-6) unat_u32_less [of cnt]
  by (simp add: sparse_readBlocks_def)

theorem sparse_readBlocks_concat_witness:
  "sparse_readBlocks demo_sparse_dev 1 2 (replicate 9 7) = Inr (True, [4, 3, 2, 1, 0, 0, 0, 0, 7])"
proof -
  have bs: "sBlockSize demo_sparse_dev = 4"
    by code_simp
  have s: "4 dvd unat (sBlockSize demo_sparse_dev)"
      "unat (2 :: u32) * unat (sBlockSize demo_sparse_dev) \<le> length (replicate 9 (7 :: u8))"
      "unat (2 :: u32) * unat (sBlockSize demo_sparse_dev) < 2 ^ 32"
    by (simp_all add: bs)
  have c: "\<forall>j < unat (2 :: u32). sparse_content demo_sparse_dev (1 + word_of_nat j) \<noteq> None"
    by code_simp
  have "concat (map (\<lambda>j. the (sparse_content demo_sparse_dev (1 + word_of_nat j))) [0..<unat (2 :: u32)])
      @ drop (unat (2 :: u32) * unat (sBlockSize demo_sparse_dev)) (replicate 9 (7 :: u8))
    = [4, 3, 2, 1, 0, 0, 0, 0, 7]"
    by code_simp
  with sparse_readBlocks_concat [OF demo_sparse_created pread_ok_file_fd s c] show ?thesis
    by (simp only:)
qed

end
