(* ===== verification/Image_Verifier.thy ===== *)
theory Image_Verifier
  imports Block_Device
begin

text \<open>
  The image recogniser of \<^verbatim>\<open>image_verifier.cpp\<close>: an Android sparse header at offset 0
  is tried first, then an EXT4 superblock at offset 1024.
\<close>

datatype ImageFormat = IMAGE_UNKNOWN | ANDROID_SPARSE | RAW_EXT4

record ImageVerificationResult =
  viIsValid :: bool
  viFormat :: ImageFormat
  viBlockSize :: u32
  viTotalBlocks :: u64
  viUncompressedSizeBytes :: u64
  viDescription :: string
  viVolumeName :: string

definition default_result :: ImageVerificationResult where
  "default_result =
     \<lparr>viIsValid = False, viFormat = IMAGE_UNKNOWN, viBlockSize = 0, viTotalBlocks = 0,
      viUncompressedSizeBytes = 0, viDescription = [], viVolumeName = []\<rparr>"

definition EXT4_SUPERBLOCK_MAGIC :: u16 where "EXT4_SUPERBLOCK_MAGIC = 0xEF53"
definition EXT4_SUPERBLOCK_OFFSET :: u64 where "EXT4_SUPERBLOCK_OFFSET = 1024"

text \<open>The packed header is 136 bytes; only the fields the recogniser looks at are kept.\<close>

record ext4_sb_header =
  vs_blocks_count_lo :: u32
  vs_log_block_size :: u32
  vs_magic :: u16
  vs_volume_name :: "u8 list"

definition decode_ext4_sb_header :: "u8 list \<Rightarrow> ext4_sb_header" where
  "decode_ext4_sb_header b =
     \<lparr>vs_blocks_count_lo = le32 b 4, vs_log_block_size = le32 b 24, vs_magic = le16 b 56,
      vs_volume_name = take 16 (drop 120 b)\<rparr>"

definition c_string :: "u8 list \<Rightarrow> string" where
  "c_string b = bytes_to_string (takeWhile (\<lambda>x. x \<noteq> 0) b)"

definition shl32 :: "u32 \<Rightarrow> u32 \<Rightarrow> fault + u32" where
  "shl32 x n = (if n \<ge> 32 then Inl ShiftRange else Inr (push_bit (unat n) x))"

definition dec_word :: "'a::len word \<Rightarrow> string" where
  "dec_word w = dec (unat w)"

definition verify_sparse :: "sparse_header \<Rightarrow> ImageVerificationResult" where
  "verify_sparse h =
     (let size = ucast (sh_blk_sz h) * ucast (sh_total_blks h) :: u64 in
      \<lparr>viIsValid = True, viFormat = ANDROID_SPARSE, viBlockSize = sh_blk_sz h,
       viTotalBlocks = ucast (sh_total_blks h), viUncompressedSizeBytes = size,
       viDescription = ''Android Sparse Image (v'' @ dec_word (sh_major h) @ ''.''
         @ dec_word (sh_minor h) @ '') | Block Size: '' @ dec_word (sh_blk_sz h) @ '' B''
         @ '' | Total Blocks: '' @ dec_word (sh_total_blks h)
         @ '' | Uncompressed Size: '' @ dec_word (size div (1024 * 1024)) @ '' MB'',
       viVolumeName = []\<rparr>)"

definition verify_ext4 :: "ext4_sb_header \<Rightarrow> fault + ImageVerificationResult" where
  "verify_ext4 h =
     bnd (shl32 1024 (vs_log_block_size h)) (\<lambda>bs.
       let total = ucast (vs_blocks_count_lo h) :: u64;
           size = ucast bs * total;
           vol = c_string (vs_volume_name h)
       in Inr \<lparr>viIsValid = True, viFormat = RAW_EXT4, viBlockSize = bs, viTotalBlocks = total,
            viUncompressedSizeBytes = size,
            viDescription = ''Raw EXT4 Partition Image | Volume: '' @ [CHR 0x22] @ vol @ [CHR 0x22]
              @ '' | Block Size: '' @ dec_word bs @ '' B'' @ '' | Total Blocks: '' @ dec_word total
              @ '' | Size: '' @ dec_word (size div (1024 * 1024)) @ '' MB'',
            viVolumeName = vol\<rparr>)"

definition unknown_image :: ImageVerificationResult where
  "unknown_image = default_result
     \<lparr>viDescription := ''Unknown or unsupported image format. Not a valid Android Sparse or EXT4 image.''\<rparr>"

text \<open>A negative descriptor is \<open>None\<close>.\<close>

definition verifyFileDescriptor :: "fd option \<Rightarrow> fault + ImageVerificationResult" where
  "verifyFileDescriptor fdo =
     (case fdo of
        None \<Rightarrow> Inr (default_result\<lparr>viDescription := ''Invalid file descriptor''\<rparr>)
      | Some f \<Rightarrow>
          let sparse = map_option decode_sparse_header (pread_exact f 0 28);
              ext4 = map_option decode_ext4_sb_header (pread_exact f EXT4_SUPERBLOCK_OFFSET 136)
          in if (case sparse of Some h \<Rightarrow> sh_magic h = SPARSE_MAGIC | None \<Rightarrow> False)
             then Inr (verify_sparse (the sparse))
             else if (case ext4 of Some h \<Rightarrow> vs_magic h = EXT4_SUPERBLOCK_MAGIC | None \<Rightarrow> False)
             then verify_ext4 (the ext4)
             else Inr unknown_image)"

text \<open>\<open>openf\<close> is what \<^verbatim>\<open>open(path, O_RDONLY)\<close> gives.\<close>

definition verifyFilePath :: "(string \<Rightarrow> fd option) \<Rightarrow> string \<Rightarrow> fault + ImageVerificationResult" where
  "verifyFilePath openf path =
     (case openf path of
        None \<Rightarrow> Inr (default_result\<lparr>viDescription := ''Failed to open file path: '' @ path\<rparr>)
      | Some f \<Rightarrow> verifyFileDescriptor (Some f))"

lemma verify_sparse_iff:
  assumes "verifyFileDescriptor (Some f) = Inr r"
  shows "viFormat r = ANDROID_SPARSE \<longleftrightarrow>
    (\<exists>b. pread_exact f 0 28 = Some b \<and> sh_magic (decode_sparse_header b) = SPARSE_MAGIC)"
  using assms
  by (auto simp: verifyFileDescriptor_def verify_sparse_def verify_ext4_def unknown_image_def
      default_result_def Let_def fault_simps split: option.splits if_splits)

lemma verify_ext4_fields:
  assumes "verifyFileDescriptor (Some f) = Inr r" "viFormat r = RAW_EXT4"
  shows "\<exists>b. pread_exact f 1024 136 = Some b \<and> le16 b 56 = 0xEF53 \<and> le32 b 24 < 32
    \<and> viIsValid r \<and> viBlockSize r = push_bit (unat (le32 b 24)) 1024
    \<and> viTotalBlocks r = ucast (le32 b 4) \<and> viVolumeName r = c_string (take 16 (drop 120 b))"
  using assms
  by (auto simp: verifyFileDescriptor_def verify_sparse_def verify_ext4_def unknown_image_def
      default_result_def Let_def fault_simps shl32_def EXT4_SUPERBLOCK_OFFSET_def
      EXT4_SUPERBLOCK_MAGIC_def decode_ext4_sb_header_def not_le
      split: option.splits if_splits)

end
