(* ===== verification/Ext4_Reader.thy ===== *)
theory Ext4_Reader
  imports Image_Verifier
begin

text \<open>
  The user-space EXT4 reader of \<^verbatim>\<open>ext4_reader.cpp\<close> over an
  \<^verbatim>\<open>IBlockDevice\<close>: superblock, grp descriptors, inodes, extent trees, directories,
  paths, files and \<^verbatim>\<open>build.prop\<close>. A packed structure is read with
  \<open>memcpy_from\<close>, which faults outside its buffer. The recursion of
  \<^verbatim>\<open>readExtentTree\<close> has no bound in the code; the model's \<open>stk\<close> is the number of
  frames the native stack has room for, and \<open>StackExhausted\<close> is the overflow.
\<close>

section \<open>On-disk structures\<close>

definition EXT4_MAGIC :: u16 where "EXT4_MAGIC = 0xEF53"
definition EXT4_EXTENTS_MAGIC :: u16 where "EXT4_EXTENTS_MAGIC = 0xF30A"
definition EXT4_ROOT_INO :: u32 where "EXT4_ROOT_INO = 2"
definition INCOMPAT_64BIT :: u32 where "INCOMPAT_64BIT = 0x0080"

record raw_superblock =
  s_log_block_size :: u32
  s_inodes_per_group :: u32
  s_magic :: u16
  s_inode_size :: u16
  s_feature_incompat :: u32
  s_volume_name :: "u8 list"
  s_desc_size :: u16

definition decode_superblock :: "u8 list \<Rightarrow> raw_superblock" where
  "decode_superblock b =
     \<lparr>s_log_block_size = le32 b 24, s_inodes_per_group = le32 b 40, s_magic = le16 b 56,
      s_inode_size = le16 b 88, s_feature_incompat = le32 b 96,
      s_volume_name = take 16 (drop 120 b), s_desc_size = le16 b 254\<rparr>"

record raw_inode =
  i_size_lo :: u32
  i_block :: "u8 list"
  i_size_high :: u32

definition decode_inode :: "u8 list \<Rightarrow> raw_inode" where
  "decode_inode b =
     \<lparr>i_size_lo = le32 b 4, i_block = take 60 (drop 40 b), i_size_high = le32 b 108\<rparr>"

record raw_extent_header =
  eh_magic :: u16
  eh_entries :: u16
  eh_depth :: u16

definition decode_extent_header :: "u8 list \<Rightarrow> raw_extent_header" where
  "decode_extent_header b =
     \<lparr>eh_magic = le16 b 0, eh_entries = le16 b 2, eh_depth = le16 b 6\<rparr>"

record raw_extent =
  ee_len :: u16
  ee_start_hi :: u16
  ee_start_lo :: u32

definition decode_extent :: "u8 list \<Rightarrow> raw_extent" where
  "decode_extent b = \<lparr>ee_len = le16 b 4, ee_start_hi = le16 b 6, ee_start_lo = le32 b 8\<rparr>"

record raw_extent_idx =
  ei_leaf_lo :: u32
  ei_leaf_hi :: u16

definition decode_extent_idx :: "u8 list \<Rightarrow> raw_extent_idx" where
  "decode_extent_idx b = \<lparr>ei_leaf_lo = le32 b 4, ei_leaf_hi = le16 b 8\<rparr>"

record raw_dirent =
  de_inode :: u32
  de_rec_len :: u16
  de_name_len :: u8
  de_file_type :: u8

definition decode_dirent :: "u8 list \<Rightarrow> raw_dirent" where
  "decode_dirent b =
     \<lparr>de_inode = le32 b 0, de_rec_len = le16 b 4, de_name_len = b ! 6, de_file_type = b ! 7\<rparr>"

section \<open>The reader\<close>

record reader =
  mDev :: iblockdev
  mBlockSize :: u32
  mInodesPerGroup :: u32
  mInodeSize :: u16
  mDescSize :: u16
  mIs64Bit :: bool
  mVolumeName :: string

definition init_fields :: "iblockdev \<Rightarrow> raw_superblock \<Rightarrow> u32 \<Rightarrow> reader" where
  "init_fields dev sb bs =
     (let is64 = s_feature_incompat sb AND INCOMPAT_64BIT \<noteq> 0 in
      \<lparr>mDev = dev, mBlockSize = bs, mInodesPerGroup = s_inodes_per_group sb,
       mInodeSize = (if s_inode_size sb \<noteq> 0 then s_inode_size sb else 128),
       mDescSize = (if is64 then if s_desc_size sb \<noteq> 0 then s_desc_size sb else 64 else 32),
       mIs64Bit = is64, mVolumeName = c_string (s_volume_name sb)\<rparr>)"

definition ext4_open :: "iblockdev \<Rightarrow> fault + reader option" where
  "ext4_open dev =
     (let sbBlock = if getBlockSize dev = 1024 then 1 else 0;
          sbOffset = if getBlockSize dev = 1024 then 0 else 1024
      in bnd (readBlock dev sbBlock (replicate (unat (getBlockSize dev)) 0)) (\<lambda>(ok, blockBuf).
         if \<not> ok then Inr None
         else bnd (memcpy_from blockBuf sbOffset 256) (\<lambda>b.
           let sb = decode_superblock b in
           if s_magic sb \<noteq> EXT4_MAGIC then Inr None
           else bnd (shl32 1024 (s_log_block_size sb)) (\<lambda>bs. Inr (Some (init_fields dev sb bs))))))"

definition div_mod_block :: "reader \<Rightarrow> u64 \<Rightarrow> fault + (u64 \<times> nat)" where
  "div_mod_block r off =
     (if mBlockSize r = 0 then Inl DivideByZero
      else Inr (off div ucast (mBlockSize r), unat (off mod ucast (mBlockSize r))))"

definition hi_lo :: "'a::len word \<Rightarrow> u32 \<Rightarrow> u64" where
  "hi_lo hi lo = push_bit 32 (ucast hi) OR ucast lo"

definition getInodeTableBlock :: "reader \<Rightarrow> u32 \<Rightarrow> fault + u64" where
  "getInodeTableBlock r grp =
     (let gdtStartBlock = if mBlockSize r = 1024 then 2 else 1 in
      bnd (div_mod_block r (ucast grp * ucast (mDescSize r))) (\<lambda>(q, off).
      bnd (readBlock (mDev r) (gdtStartBlock + q) (replicate (unat (mBlockSize r)) 0)) (\<lambda>(ok, buf).
        if \<not> ok then Inr 0
        else if mIs64Bit r
        then bnd (memcpy_from buf off 64) (\<lambda>gd. Inr (hi_lo (le32 gd 40) (le32 gd 8)))
        else bnd (memcpy_from buf off 32) (\<lambda>gd. Inr (ucast (le32 gd 8))))))"

definition readInode :: "reader \<Rightarrow> u32 \<Rightarrow> fault + raw_inode option" where
  "readInode r ino =
     (if ino = 0 \<or> mInodesPerGroup r = 0 then Inr None
      else let grp = (ino - 1) div mInodesPerGroup r;
               index = (ino - 1) mod mInodesPerGroup r
      in bnd (getInodeTableBlock r grp) (\<lambda>itableBlock.
         if itableBlock = 0 then Inr None
         else bnd (div_mod_block r (ucast index * ucast (mInodeSize r))) (\<lambda>(q, off).
         bnd (readBlock (mDev r) (itableBlock + q) (replicate (unat (mBlockSize r)) 0)) (\<lambda>(ok, buf).
           if \<not> ok then Inr None
           else bnd (memcpy_from buf off 112) (\<lambda>b. Inr (Some (decode_inode b)))))))"

section \<open>Extent trees\<close>

definition extent_range :: "raw_extent \<Rightarrow> u64 \<times> u32" where
  "extent_range e =
     (let cnt = ucast (ee_len e) :: u32 in
      (hi_lo (ee_start_hi e) (ee_start_lo e), if cnt > 32768 then cnt - 32768 else cnt))"

fun ext_leaves :: "u8 list \<Rightarrow> nat \<Rightarrow> nat \<Rightarrow> fault + (u64 \<times> u32) list" where
  "ext_leaves buf off 0 = Inr []"
| "ext_leaves buf off (Suc k) =
     bnd (memcpy_from buf off 12) (\<lambda>e.
     bnd (ext_leaves buf (off + 12) k) (\<lambda>rs. Inr (extent_range (decode_extent e) # rs)))"

text \<open>The loop over index entries: one child buffer serves all children of a node.\<close>

fun ext_idxs :: "iblockdev \<Rightarrow> (u8 list \<Rightarrow> fault + (u64 \<times> u32) list) \<Rightarrow> u8 list \<Rightarrow> nat \<Rightarrow> nat
    \<Rightarrow> u8 list \<Rightarrow> fault + (u64 \<times> u32) list" where
  "ext_idxs dev sub buf off 0 childBuf = Inr []"
| "ext_idxs dev sub buf off (Suc k) childBuf =
     bnd (memcpy_from buf off 12) (\<lambda>e.
     let idx = decode_extent_idx e in
     bnd (readBlock dev (hi_lo (ei_leaf_hi idx) (ei_leaf_lo idx)) childBuf) (\<lambda>(ok, childBuf').
     bnd (if ok then sub childBuf' else Inr []) (\<lambda>rs.
     bnd (ext_idxs dev sub buf (off + 12) k childBuf') (\<lambda>rs'. Inr (rs @ rs')))))"

fun readExtentTree :: "reader \<Rightarrow> nat \<Rightarrow> u8 list \<Rightarrow> fault + (u64 \<times> u32) list" where
  "readExtentTree r 0 buf = Inl StackExhausted"
| "readExtentTree r (Suc stk) buf =
     bnd (memcpy_from buf 0 12) (\<lambda>hb.
     let h = decode_extent_header hb in
     if eh_magic h \<noteq> EXT4_EXTENTS_MAGIC then Inr []
     else if eh_depth h = 0 then ext_leaves buf 12 (unat (eh_entries h))
     else ext_idxs (mDev r) (readExtentTree r stk) buf 12 (unat (eh_entries h))
            (replicate (unat (mBlockSize r)) 0))"

section \<open>File data\<close>

fun copy_range :: "reader \<Rightarrow> u64 \<Rightarrow> nat \<Rightarrow> u64 \<Rightarrow> u8 list \<Rightarrow> u8 list
    \<Rightarrow> fault + (bool \<times> u64 \<times> u8 list \<times> u8 list)" where
  "copy_range r blk 0 left buf out = Inr (True, left, buf, out)"
| "copy_range r blk (Suc k) left buf out =
     (if left = 0 then Inr (True, left, buf, out)
      else bnd (readBlock (mDev r) blk buf) (\<lambda>(ok, buf').
        if \<not> ok then Inr (False, left, buf', out)
        else let toCopy = min left (ucast (mBlockSize r)) in
          copy_range r (blk + 1) k (left - toCopy) buf' (out @ take (unat toCopy) buf')))"

fun copy_ranges :: "reader \<Rightarrow> (u64 \<times> u32) list \<Rightarrow> u64 \<Rightarrow> u8 list \<Rightarrow> u8 list \<Rightarrow> fault + u8 list option"
where
  "copy_ranges r [] left buf out = Inr (Some out)"
| "copy_ranges r ((start, cnt) # rs) left buf out =
     bnd (copy_range r start (unat cnt) left buf out) (\<lambda>(ok, left', buf', out').
       if ok then copy_ranges r rs left' buf' out' else Inr None)"

definition readFileDataByInode :: "reader \<Rightarrow> nat \<Rightarrow> u32 \<Rightarrow> fault + u8 list option" where
  "readFileDataByInode r stk ino =
     bnd (readInode r ino) (\<lambda>io.
       case io of
         None \<Rightarrow> Inr None
       | Some inode \<Rightarrow>
           let fileSize = hi_lo (i_size_high inode) (i_size_lo inode) in
           if fileSize \<ge> 2 ^ 63 then Inl LengthError
           else bnd (readExtentTree r stk (i_block inode)) (\<lambda>rs.
             copy_ranges r rs fileSize (replicate (unat (mBlockSize r)) 0) []))"

section \<open>Directories and paths\<close>

text \<open>
  The scan of a directory: a record length of 0 ends it, a slot with inode 0 is skipped.
\<close>

function dir_find :: "u8 list \<Rightarrow> string \<Rightarrow> nat \<Rightarrow> fault + u32" where
  "dir_find dirData name offset =
     (if offset + 8 \<le> length dirData then
        let de = decode_dirent (take 8 (drop offset dirData)) in
        if de_rec_len de = 0 then Inr 0
        else if de_inode de \<noteq> 0 \<and> unat (de_name_len de) = length name
        then bnd (memcpy_from dirData (offset + 8) (length name)) (\<lambda>entryName.
               if bytes_to_string entryName = name then Inr (de_inode de)
               else dir_find dirData name (offset + unat (de_rec_len de)))
        else dir_find dirData name (offset + unat (de_rec_len de))
      else Inr 0)"
  by pat_completeness auto
termination
  by (relation "measure (\<lambda>(d, n, off). length d - off)")
    (auto simp: unat_eq_0 intro!: diff_less_mono2 gr0I)

declare dir_find.simps [simp del]

definition findChildInode :: "reader \<Rightarrow> nat \<Rightarrow> u32 \<Rightarrow> string \<Rightarrow> fault + u32" where
  "findChildInode r stk dirIno name =
     bnd (readFileDataByInode r stk dirIno) (\<lambda>d.
       case d of None \<Rightarrow> Inr 0 | Some dirData \<Rightarrow> dir_find dirData name 0)"

fun walk_items :: "reader \<Rightarrow> nat \<Rightarrow> u32 \<Rightarrow> string list \<Rightarrow> fault + u32" where
  "walk_items r stk ino [] = Inr ino"
| "walk_items r stk ino (item # items) =
     (if item = [] \<or> item = ''.'' then walk_items r stk ino items
      else bnd (findChildInode r stk ino item) (\<lambda>child.
        if child = 0 then Inr 0 else walk_items r stk child items))"

definition resolvePath :: "reader \<Rightarrow> nat \<Rightarrow> string \<Rightarrow> fault + u32" where
  "resolvePath r stk path =
     (if path = [] \<or> path = ''/'' then Inr EXT4_ROOT_INO
      else walk_items r stk EXT4_ROOT_INO (getlines (CHR ''/'') path))"

record FsFileEntry =
  feName :: string
  fePath :: string
  feInode :: u32
  feSize :: u64
  feIsDirectory :: bool
  feIsSymlink :: bool

definition mk_entry :: "string \<Rightarrow> string \<Rightarrow> raw_dirent \<Rightarrow> raw_inode option \<Rightarrow> FsFileEntry" where
  "mk_entry dir entryName de child =
     \<lparr>feName = entryName, fePath = (if dir = ''/'' then [] else dir) @ ''/'' @ entryName,
      feInode = de_inode de,
      feSize = (case child of Some i \<Rightarrow> hi_lo (i_size_high i) (i_size_lo i) | None \<Rightarrow> 0),
      feIsDirectory = (de_file_type de = 2), feIsSymlink = (de_file_type de = 7)\<rparr>"

function dir_entries :: "reader \<Rightarrow> string \<Rightarrow> u8 list \<Rightarrow> nat \<Rightarrow> fault + FsFileEntry list" where
  "dir_entries r dir dirData offset =
     (if offset + 8 \<le> length dirData then
        let de = decode_dirent (take 8 (drop offset dirData)) in
        if de_rec_len de = 0 then Inr []
        else bnd
          (if de_inode de = 0 then Inr []
           else bnd (memcpy_from dirData (offset + 8) (unat (de_name_len de))) (\<lambda>b.
             let entryName = bytes_to_string b in
             if entryName = ''.'' \<or> entryName = ''..'' then Inr []
             else bnd (readInode r (de_inode de)) (\<lambda>child. Inr [mk_entry dir entryName de child])))
          (\<lambda>es. bnd (dir_entries r dir dirData (offset + unat (de_rec_len de)))
            (\<lambda>es'. Inr (es @ es')))
      else Inr [])"
  by pat_completeness auto
termination
  by (relation "measure (\<lambda>(r, p, d, off). length d - off)")
    (auto simp: unat_eq_0 intro!: diff_less_mono2 gr0I)

declare dir_entries.simps [simp del]

definition entry_key :: "FsFileEntry \<Rightarrow> bool \<times> string" where
  "entry_key e = (\<not> feIsDirectory e, feName e)"

definition listDirectory :: "reader \<Rightarrow> nat \<Rightarrow> string \<Rightarrow> fault + FsFileEntry list option" where
  "listDirectory r stk p =
     bnd (resolvePath r stk p) (\<lambda>dirIno.
       if dirIno = 0 then Inr None
       else bnd (readFileDataByInode r stk dirIno) (\<lambda>d.
         case d of
           None \<Rightarrow> Inr None
         | Some dirData \<Rightarrow>
             bnd (dir_entries r p dirData 0) (\<lambda>es. Inr (Some (sort_key entry_key es)))))"

definition readFile :: "reader \<Rightarrow> nat \<Rightarrow> string \<Rightarrow> fault + u8 list option" where
  "readFile r stk p =
     bnd (resolvePath r stk p) (\<lambda>ino.
       if ino = 0 then Inr None else readFileDataByInode r stk ino)"

definition readFileString :: "reader \<Rightarrow> nat \<Rightarrow> string \<Rightarrow> fault + string option" where
  "readFileString r stk p =
     bnd (readFile r stk p) (\<lambda>d. Inr (map_option bytes_to_string d))"

section \<open>build.prop\<close>

record BuildPropInfo =
  bpOsVersion :: string
  bpSdkVersion :: string
  bpBuildId :: string
  bpSecurityPatch :: string
  bpModel :: string
  bpFingerprint :: string
  bpIsTrebleEnabled :: bool
  bpRawContent :: string

definition no_build_prop :: BuildPropInfo where
  "no_build_prop =
     \<lparr>bpOsVersion = [], bpSdkVersion = [], bpBuildId = [], bpSecurityPatch = [], bpModel = [],
      bpFingerprint = [], bpIsTrebleEnabled = True, bpRawContent = []\<rparr>"

definition drop_cr :: "string \<Rightarrow> string" where
  "drop_cr v = (if v \<noteq> [] \<and> last v = CHR 0x0D then butlast v else v)"

definition split_eq :: "string \<Rightarrow> (string \<times> string) option" where
  "split_eq line = map_option (\<lambda>i. (take i line, drop (Suc i) line)) (find_char (CHR ''='') line)"

definition build_prop_set :: "BuildPropInfo \<Rightarrow> string \<Rightarrow> string \<Rightarrow> BuildPropInfo" where
  "build_prop_set info key val =
     (if key = ''ro.build.version.release'' then info\<lparr>bpOsVersion := val\<rparr>
      else if key = ''ro.build.version.sdk'' then info\<lparr>bpSdkVersion := val\<rparr>
      else if key = ''ro.build.id'' then info\<lparr>bpBuildId := val\<rparr>
      else if key = ''ro.build.version.security_patch'' then info\<lparr>bpSecurityPatch := val\<rparr>
      else if key = ''ro.product.model'' \<or> key = ''ro.product.system.model''
      then if bpModel info = [] then info\<lparr>bpModel := val\<rparr> else info
      else if key = ''ro.system.build.fingerprint'' \<or> key = ''ro.build.fingerprint''
      then if bpFingerprint info = [] then info\<lparr>bpFingerprint := val\<rparr> else info
      else if key = ''ro.treble.enabled'' then info\<lparr>bpIsTrebleEnabled := (val = ''true'')\<rparr>
      else info)"

definition build_prop_line :: "BuildPropInfo \<Rightarrow> string \<Rightarrow> BuildPropInfo" where
  "build_prop_line info line =
     (if line = [] \<or> hd line = CHR ''#'' then info
      else case split_eq line of
             None \<Rightarrow> info
           | Some (key, val) \<Rightarrow> build_prop_set info key (drop_cr val))"

text \<open>The candidates in order, until one gives a text that is not empty.\<close>

fun first_text :: "reader \<Rightarrow> nat \<Rightarrow> string list \<Rightarrow> string \<Rightarrow> fault + string" where
  "first_text r stk [] propText = Inr propText"
| "first_text r stk (p # ps) propText =
     bnd (readFileString r stk p) (\<lambda>t.
       case t of
         None \<Rightarrow> first_text r stk ps propText
       | Some s \<Rightarrow> if s \<noteq> [] then Inr s else first_text r stk ps s)"

definition parse_build_prop :: "string \<Rightarrow> BuildPropInfo" where
  "parse_build_prop propText =
     (if propText = [] then no_build_prop
      else foldl build_prop_line (no_build_prop\<lparr>bpRawContent := propText\<rparr>) (getlines nl propText))"

definition extractBuildProp :: "reader \<Rightarrow> nat \<Rightarrow> fault + BuildPropInfo" where
  "extractBuildProp r stk =
     bnd (first_text r stk
            [''/system/build.prop'', ''/build.prop'', ''/system/system/build.prop''] [])
       (\<lambda>t. Inr (parse_build_prop t))"

section \<open>Mounting\<close>

text \<open>
  \<^verbatim>\<open>nativeOpenFilesystem\<close>: the image is opened as sparse, else verified and opened raw.
\<close>

definition openFilesystem :: "fd \<Rightarrow> fault + reader option" where
  "openFilesystem f =
     (case sparse_create f of
        Some d \<Rightarrow> ext4_open (sparse_iface d)
      | None \<Rightarrow>
          bnd (verifyFileDescriptor (Some f)) (\<lambda>ver.
            if viIsValid ver \<and> viFormat ver = RAW_EXT4
            then ext4_open (raw_iface \<lparr>rFd = f, rBlockSize = viBlockSize ver, rTotalBlocks = viTotalBlocks ver\<rparr>)
            else Inr None))"

section \<open>The device below the reader\<close>

definition holds_content :: "iblockdev \<Rightarrow> (u64 \<Rightarrow> u8 list option) \<Rightarrow> bool" where
  "holds_content dev c \<longleftrightarrow> (\<forall>n buf. unat (getBlockSize dev) \<le> length buf \<longrightarrow>
     (case c n of
        Some b \<Rightarrow> length b = unat (getBlockSize dev)
          \<and> readBlock dev n buf = Inr (True, b @ drop (unat (getBlockSize dev)) buf)
      | None \<Rightarrow> \<exists>buf'. readBlock dev n buf = Inr (False, buf') \<and> length buf' = length buf))"

text \<open>The reader's block size is the device's, as after opening a well-formed raw image.\<close>

definition reader_on :: "reader \<Rightarrow> (u64 \<Rightarrow> u8 list option) \<Rightarrow> bool" where
  "reader_on r c \<longleftrightarrow> holds_content (mDev r) c \<and> getBlockSize (mDev r) = mBlockSize r
     \<and> 0 < mBlockSize r"

context content_device
begin

lemma iface_content:
  assumes "okd d" "exact d" "readBlock dev = rd d" "getBlockSize dev = bs d"
  shows "holds_content dev (content d)"
  unfolding holds_content_def
proof (intro allI impI)
  fix n and buf :: "u8 list"
  assume len: "unat (getBlockSize dev) \<le> length buf"
  then have room: "unat (bs d) \<le> length buf"
    using assms(4) by simp
  show "case content d n of
        Some b \<Rightarrow> length b = unat (getBlockSize dev)
          \<and> readBlock dev n buf = Inr (True, b @ drop (unat (getBlockSize dev)) buf)
      | None \<Rightarrow> \<exists>buf'. readBlock dev n buf = Inr (False, buf') \<and> length buf' = length buf"
    using assms rd_safe [OF assms(1) room, of n] content_length [OF assms(1,2), of n]
      content_read [OF assms(1,2) room, of n] content_none [OF assms(1,2) room, of n]
    by (cases "content d n") auto
qed

end

lemma reader_on_read:
  assumes "reader_on r c" "length buf = unat (mBlockSize r)"
  shows "case c n of
        Some b \<Rightarrow> length b = unat (mBlockSize r) \<and> readBlock (mDev r) n buf = Inr (True, b)
      | None \<Rightarrow> \<exists>buf'. readBlock (mDev r) n buf = Inr (False, buf') \<and> length buf' = length buf"
proof -
  have hold: "holds_content (mDev r) c" and bs: "getBlockSize (mDev r) = mBlockSize r"
    using assms(1) by (simp_all add: reader_on_def)
  have "case c n of
        Some b \<Rightarrow> length b = unat (mBlockSize r)
          \<and> readBlock (mDev r) n buf = Inr (True, b @ drop (unat (mBlockSize r)) buf)
      | None \<Rightarrow> \<exists>buf'. readBlock (mDev r) n buf = Inr (False, buf') \<and> length buf' = length buf"
    by (rule hold [unfolded holds_content_def bs, rule_format]) (simp add: assms(2))
  then show ?thesis
    using assms(2) by (cases "c n") simp_all
qed

lemma reader_on_length: "reader_on r c \<Longrightarrow> c n = Some b \<Longrightarrow> length b = unat (mBlockSize r)"
  using reader_on_read [of r c "replicate (unat (mBlockSize r)) 0" n] by simp

section \<open>File data is the content of the blocks\<close>

definition range_blocks :: "u64 \<times> u32 \<Rightarrow> u64 list" where
  "range_blocks rng = map (\<lambda>i. fst rng + word_of_nat i) [0..<unat (snd rng)]"

fun gather :: "(u64 \<Rightarrow> u8 list option) \<Rightarrow> nat \<Rightarrow> u64 list \<Rightarrow> nat \<Rightarrow> u8 list option" where
  "gather c bs [] left = Some []"
| "gather c bs (b # bl) left =
     (if left = 0 then Some []
      else case c b of
             None \<Rightarrow> None
           | Some x \<Rightarrow> map_option ((@) (take (min left bs) x)) (gather c bs bl (left - min left bs)))"

lemma gather_zero [simp]: "gather c bs bl 0 = Some []"
  by (cases bl) simp_all

lemma gather_closed:
  assumes "0 < bs" "\<And>n x. c n = Some x \<Longrightarrow> length x = bs"
  shows "gather c bs bl left =
    (let need = take ((left + bs - 1) div bs) bl in
     if \<forall>b \<in> set need. c b \<noteq> None then Some (take left (concat (map (\<lambda>b. the (c b)) need))) else None)"
proof (induction bl arbitrary: left)
  case Nil
  then show ?case by simp
next
  case (Cons b bl)
  show ?case
  proof (cases "left = 0")
    case True
    then show ?thesis using assms(1) by simp
  next
    case False
    have n: "(left + bs - 1) div bs = Suc ((left - min left bs + bs - 1) div bs)"
    proof -
      have "left + bs - 1 = bs + (left - 1)"
        using False by simp
      then have "(left + bs - 1) div bs = Suc ((left - 1) div bs)"
        using assms(1) by (simp only: div_add_self1 less_imp_neq [THEN not_sym] Suc_eq_plus1 not_False_eq_True)
      moreover have "(left - min left bs + bs - 1) div bs = (left - 1) div bs"
        using False assms(1) by (cases "left \<le> bs") auto
      ultimately show ?thesis by simp
    qed
    show ?thesis
    proof (cases "c b")
      case None
      then show ?thesis using False n by simp
    next
      case (Some x)
      then have "length x = bs" using assms(2) by blast
      then have "take (min left bs) x = take left x" by (simp add: min_def)
      then have head: "gather c bs (b # bl) left =
        map_option ((@) (take left x)) (gather c bs bl (left - min left bs))"
        using Some False by simp
      define q where "q = (left - min left bs + bs - 1) div bs"
      have rest: "take left (x @ ys) = take left x @ take (left - min left bs) ys" for ys
        using \<open>length x = bs\<close> by (simp add: min_def)
      have IH: "gather c bs bl (left - min left bs) = (if \<forall>b \<in> set (take q bl). c b \<noteq> None
        then Some (take (left - min left bs) (concat (map (\<lambda>b. the (c b)) (take q bl)))) else None)"
        unfolding Cons.IH q_def Let_def by (rule refl)
      show ?thesis
        unfolding head IH n [folded q_def] Let_def take_Suc_Cons list.map concat.simps
        using Some by (simp add: rest del: take_append)
    qed
  qed
qed

lemma gather_length: "gather c bs bl left = Some x \<Longrightarrow> length x \<le> left"
proof (induction bl arbitrary: left x)
  case (Cons b bl)
  then show ?case
    by (fastforce split: if_splits option.splits)
qed simp

lemma gather_append:
  assumes "0 < bs" "\<And>n x. c n = Some x \<Longrightarrow> length x = bs"
  shows "gather c bs (bl @ bl') left =
    (case gather c bs bl left of
       None \<Rightarrow> None | Some x \<Rightarrow> map_option ((@) x) (gather c bs bl' (left - length x)))"
proof (induction bl arbitrary: left)
  case Nil
  then show ?case by (cases "gather c bs bl' left") simp_all
next
  case (Cons b bl)
  show ?case
  proof (cases "c b")
    case (Some x)
    then have "length x = bs" using assms(2) by blast
    then show ?thesis
      using Some Cons.IH by (auto simp: option.map_comp comp_def min_def fun_eq_iff
          intro!: option.map_cong split: option.splits)
  qed simp
qed

lemma unat_min_block: "unat (min (l :: u64) (ucast (b :: u32))) = min (unat l) (unat b)"
  by (simp add: min_def word_le_nat_alt)

lemma copy_range_gather:
  assumes "reader_on r c" "length buf = unat (mBlockSize r)"
  shows "case gather c (unat (mBlockSize r)) (map (\<lambda>i. s + word_of_nat i) [0..<k]) (unat left) of
      None \<Rightarrow> \<exists>l b o'. copy_range r s k left buf out = Inr (False, l, b, o')
    | Some x \<Rightarrow> \<exists>l b. copy_range r s k left buf out = Inr (True, l, b, out @ x)
        \<and> unat l = unat left - length x \<and> length b = unat (mBlockSize r)"
  using assms(2)
proof (induction k arbitrary: s left buf out)
  case 0
  then show ?case by simp
next
  case (Suc k)
  let ?B = "unat (mBlockSize r)"
  have blocks: "map (\<lambda>i. s + word_of_nat i) [0..<Suc k] =
    s # map (\<lambda>i. (s + 1) + word_of_nat i) [0..<k]"
    by (simp add: upt_conv_Cons map_Suc_upt [symmetric] comp_def algebra_simps del: upt_Suc)
  show ?case
  proof (cases "left = 0")
    case True
    then show ?thesis using Suc.prems by (simp add: blocks del: upt_Suc)
  next
    case False
    then have nz: "unat left \<noteq> 0" by (simp add: unat_eq_0)
    note rd = reader_on_read [OF assms(1) Suc.prems, of s]
    show ?thesis
    proof (cases "c s")
      case None
      then show ?thesis using rd False nz by (auto simp: blocks simp del: upt_Suc)
    next
      case (Some x)
      let ?n = "min left (ucast (mBlockSize r))"
      have n: "unat ?n = min (unat left) ?B" by (rule unat_min_block)
      have sub: "unat (left - ?n) = unat left - min (unat left) ?B"
        using n by (simp add: unat_sub)
      have lx: "length x = ?B" using rd Some by simp
      show ?thesis
        using Suc.IH [OF lx, of "s + 1" "left - ?n" "out @ take (unat ?n) x"] rd Some False nz lx
        by (auto simp: blocks n sub Let_def simp del: upt_Suc split: option.splits)
    qed
  qed
qed

lemma copy_ranges_gather:
  assumes "reader_on r c" "length buf = unat (mBlockSize r)"
  shows "copy_ranges r rs left buf out = Inr (map_option ((@) out)
    (gather c (unat (mBlockSize r)) (concat (map range_blocks rs)) (unat left)))"
  using assms(2)
proof (induction rs arbitrary: left buf out)
  case Nil
  then show ?case by simp
next
  case (Cons rng rs)
  obtain s n where rng: "rng = (s, n)" by (cases rng)
  have pos: "0 < unat (mBlockSize r)"
    using assms(1) by (simp add: reader_on_def word_gt_0 unat_gt_0)
  let ?G = "gather c (unat (mBlockSize r))"
  let ?rest = "concat (map range_blocks rs)"
  have rb: "map (\<lambda>i. s + word_of_nat i) [0..<unat n] = range_blocks rng"
    by (simp add: rng range_blocks_def)
  note step = copy_range_gather [OF assms(1) Cons.prems, of s "unat n" left out, unfolded rb]
  have app: "?G (range_blocks rng @ ?rest) (unat left) =
    (case ?G (range_blocks rng) (unat left) of
       None \<Rightarrow> None | Some x \<Rightarrow> map_option ((@) x) (?G ?rest (unat left - length x)))"
    by (rule gather_append [OF pos reader_on_length [OF assms(1)]])
  show ?case
  proof (cases "?G (range_blocks rng) (unat left)")
    case None
    then show ?thesis using step app by (auto simp: rng)
  next
    case (Some x)
    then obtain l b where cr: "copy_range r s (unat n) left buf out = Inr (True, l, b, out @ x)"
      "unat l = unat left - length x" "length b = unat (mBlockSize r)"
      using step by auto
    show ?thesis
      using Some app cr Cons.IH [OF cr(3), of l "out @ x"]
      by (simp add: rng option.map_comp comp_def)
  qed
qed

text \<open>C6: The bytes of a file are the blocks of its extents in order, cut at the file size: all
  blocks that hold a byte of the file must be readable, and no other block is read. The first
  logical block \<^verbatim>\<open>ee_block\<close> of an extent plays no part.\<close>

theorem readFileData_is_block_content:
  assumes "reader_on r c" "readInode r ino = Inr (Some i)"
    and "fsz = hi_lo (i_size_high i) (i_size_lo i)" "fsz < 2 ^ 63"
    and "readExtentTree r stk (i_block i) = Inr rs"
    and "need = take ((unat fsz + unat (mBlockSize r) - 1) div unat (mBlockSize r))
      (concat (map range_blocks rs))"
  shows "readFileDataByInode r stk ino =
    Inr (if \<forall>b \<in> set need. c b \<noteq> None
         then Some (take (unat fsz) (concat (map (\<lambda>b. the (c b)) need))) else None)"
proof -
  have pos: "0 < unat (mBlockSize r)"
    using assms(1) by (simp add: reader_on_def word_gt_0 unat_gt_0)
  have "readFileDataByInode r stk ino =
    Inr (map_option ((@) []) (gather c (unat (mBlockSize r)) (concat (map range_blocks rs)) (unat fsz)))"
    using assms(2-5) copy_ranges_gather [OF assms(1), of "replicate (unat (mBlockSize r)) 0" rs fsz "[]"]
    by (simp add: readFileDataByInode_def Let_def not_le [symmetric])
  then show ?thesis
    using gather_closed [OF pos reader_on_length [OF assms(1)], where left = "unat fsz"] assms(6)
    by (simp add: Let_def)
qed

text \<open>
  A file system of seven blocks of 128 bytes for the witnesses: inode 1 is a file of 130 bytes in
  blocks 4 and 5, inode 2 the root directory in block 6.
\<close>

definition pad :: "nat \<Rightarrow> u8 list \<Rightarrow> u8 list" where
  "pad n xs = xs @ replicate (n - length xs) 0"

definition demo_inode :: "u8 \<Rightarrow> u8 \<Rightarrow> u8 \<Rightarrow> u8 list" where
  "demo_inode sz blk cnt = pad 128 ([0, 0, 0, 0, sz, 0, 0, 0] @ replicate 32 0
     @ [0x0A, 0xF3, 1, 0, 4, 0, 0, 0, 0, 0, 0, 0] @ [0, 0, 0, 0, cnt, 0, 0, 0, blk, 0, 0, 0])"

definition demo_dir :: "u8 list" where
  "demo_dir = pad 128 ([2, 0, 0, 0, 12, 0, 1, 2, 46, 0, 0, 0]
     @ [1, 0, 0, 0, 12, 0, 1, 1, 102, 0, 0, 0] @ [2, 0, 0, 0, 104, 0, 1, 2, 100, 0, 0, 0])"

definition demo_image :: "u8 list" where
  "demo_image = pad 128 [] @ pad 128 [0, 0, 0, 0, 0, 0, 0, 0, 2] @ demo_inode 130 4 2
     @ demo_inode 128 6 1 @ replicate 128 7 @ pad 128 [1, 2] @ demo_dir"

definition demo_raw :: raw_dev where
  "demo_raw = \<lparr>rFd = file_fd demo_image, rBlockSize = 128, rTotalBlocks = 7\<rparr>"

definition demo_reader :: reader where
  "demo_reader = \<lparr>mDev = raw_iface demo_raw, mBlockSize = 128, mInodesPerGroup = 8,
     mInodeSize = 128, mDescSize = 32, mIs64Bit = False, mVolumeName = []\<rparr>"

lemma demo_reader_on: "reader_on demo_reader (raw_content demo_raw)"
proof -
  have "holds_content (raw_iface demo_raw) (raw_content demo_raw)"
    by (rule raw.iface_content) (simp_all add: demo_raw_def raw_iface_def)
  then show ?thesis
    by (simp add: reader_on_def demo_reader_def demo_raw_def raw_iface_def)
qed

lemma demo_inode_1:
  "readInode demo_reader 1 = Inr (Some (decode_inode (take 112 (demo_inode 130 4 2))))"
  by code_simp

theorem readFileData_is_block_content_witness:
  "readFileDataByInode demo_reader 1 1 = Inr (Some (replicate 128 7 @ [1, 2]))"
proof -
  let ?i = "decode_inode (take 112 (demo_inode 130 4 2))"
  have sz: "130 = hi_lo (i_size_high ?i) (i_size_lo ?i)" and lt: "(130 :: u64) < 2 ^ 63"
    by code_simp+
  have rs: "readExtentTree demo_reader 1 (i_block ?i) = Inr [(4, 2)]"
    by code_simp
  have need: "[4, 5] = take ((unat (130 :: u64) + unat (mBlockSize demo_reader) - 1)
      div unat (mBlockSize demo_reader)) (concat (map range_blocks [(4, 2)]))"
    by code_simp
  have out: "(if \<forall>b \<in> set [4, 5]. raw_content demo_raw b \<noteq> None
         then Some (take (unat (130 :: u64)) (concat (map (\<lambda>b. the (raw_content demo_raw b)) [4, 5])))
         else None) = Some (replicate 128 7 @ [1, 2])"
    by code_simp
  show ?thesis
    using readFileData_is_block_content [OF demo_reader_on demo_inode_1 sz lt rs need] out
    by (simp only:)
qed

section \<open>Extent trees\<close>

text \<open>The tree the blocks describe: a leaf's ranges, or the children of an index node in order.\<close>

datatype etree = ELeaf "(u64 \<times> u32) list" | ENode "etree list"

fun flat_ranges :: "etree \<Rightarrow> (u64 \<times> u32) list" where
  "flat_ranges (ELeaf rs) = rs"
| "flat_ranges (ENode ts) = concat (map flat_ranges ts)"

fun etree_height :: "etree \<Rightarrow> nat" where
  "etree_height (ELeaf rs) = 0"
| "etree_height (ENode ts) = Suc (foldr max (map etree_height ts) 0)"

definition ext_entry :: "u8 list \<Rightarrow> nat \<Rightarrow> u8 list" where
  "ext_entry buf i = take 12 (drop (12 + 12 * i) buf)"

definition ext_child :: "u8 list \<Rightarrow> nat \<Rightarrow> u64" where
  "ext_child buf i = (let idx = decode_extent_idx (ext_entry buf i) in
     hi_lo (ei_leaf_hi idx) (ei_leaf_lo idx))"

definition ext_node :: "u8 list \<Rightarrow> nat \<Rightarrow> bool \<Rightarrow> bool" where
  "ext_node buf n leaf \<longleftrightarrow> 12 + 12 * n \<le> length buf
     \<and> eh_magic (decode_extent_header (take 12 buf)) = EXT4_EXTENTS_MAGIC
     \<and> unat (eh_entries (decode_extent_header (take 12 buf))) = n
     \<and> (eh_depth (decode_extent_header (take 12 buf)) = 0 \<longleftrightarrow> leaf)"

inductive ext_rep :: "(u64 \<Rightarrow> u8 list option) \<Rightarrow> u8 list \<Rightarrow> etree \<Rightarrow> bool"
  for c :: "u64 \<Rightarrow> u8 list option" where
  ext_rep_leaf:
    "ext_node buf n True \<Longrightarrow> rs = map (\<lambda>i. extent_range (decode_extent (ext_entry buf i))) [0..<n]
     \<Longrightarrow> ext_rep c buf (ELeaf rs)"
| ext_rep_node:
    "ext_node buf n False \<Longrightarrow>
     list_all2 (\<lambda>i t. \<exists>x. c (ext_child buf i) = Some x \<and> ext_rep c x t) [0..<n] ts
     \<Longrightarrow> ext_rep c buf (ENode ts)"

lemma ext_leaves_ok:
  "off + 12 * k \<le> length buf \<Longrightarrow>
   ext_leaves buf off k = Inr (map (\<lambda>i. extent_range (decode_extent (take 12 (drop (off + 12 * i) buf)))) [0..<k])"
proof (induction k arbitrary: off)
  case (Suc k)
  have "[0..<Suc k] = 0 # map Suc [0..<k]"
    by (simp add: map_Suc_upt upt_conv_Cons del: upt_Suc)
  then show ?case
    using Suc.IH [of "off + 12"] Suc.prems
    by (simp add: memcpy_from_ok comp_def add.assoc del: upt_Suc)
qed simp

lemma ext_idxs_ok:
  assumes "reader_on r c"
    and "list_all2 (\<lambda>i t. \<exists>x. c (ext_child buf i) = Some x \<and> sub x = Inr (flat_ranges t)) [j..<j + k] ts"
    and "12 + 12 * (j + k) \<le> length buf" "length child = unat (mBlockSize r)"
  shows "ext_idxs (mDev r) sub buf (12 + 12 * j) k child = Inr (concat (map flat_ranges ts))"
  using assms(2-)
proof (induction k arbitrary: j ts child)
  case (Suc k)
  have "[j..<j + Suc k] = j # [Suc j..<Suc j + k]"
    by (simp add: upt_conv_Cons del: upt_Suc)
  with Suc.prems(1) obtain t ts' x where ts: "ts = t # ts'"
    and x: "c (ext_child buf j) = Some x" "sub x = Inr (flat_ranges t)"
    and rest: "list_all2 (\<lambda>i t. \<exists>x. c (ext_child buf i) = Some x \<and> sub x = Inr (flat_ranges t))
      [Suc j..<Suc j + k] ts'"
    by (auto simp: list_all2_Cons1 simp del: upt_Suc)
  have rd: "readBlock (mDev r) (ext_child buf j) child = Inr (True, x)" and lx: "length x = unat (mBlockSize r)"
    using reader_on_read [OF assms(1) Suc.prems(3), of "ext_child buf j"] x(1) by simp_all
  have "ext_idxs (mDev r) sub buf (12 + 12 * Suc j) k x = Inr (concat (map flat_ranges ts'))"
    by (rule Suc.IH [OF rest]) (use Suc.prems lx in simp_all)
  then show ?case
    using Suc.prems(2) x(2) rd
    by (simp add: ts memcpy_from_ok ext_child_def ext_entry_def Let_def algebra_simps)
qed simp

lemma readExtentTree_node:
  assumes "ext_node buf n leaf"
  shows "readExtentTree r (Suc stk) buf =
    (if leaf then ext_leaves buf 12 n
     else ext_idxs (mDev r) (readExtentTree r stk) buf 12 n (replicate (unat (mBlockSize r)) 0))"
  using assms by (auto simp: ext_node_def memcpy_from_def Let_def)

lemma foldr_max_less: "foldr max (map f ts) 0 < (k :: nat) \<Longrightarrow> t \<in> set ts \<Longrightarrow> f t < k"
  by (induction ts) auto

text \<open>C7: When the blocks describe an extent tree, leaves and index nodes chained through readable
  blocks, and the stack has more frames than the tree has index levels, the recursion returns and
  delivers exactly the leaf ranges from left to right.\<close>

theorem readExtentTree_flattens:
  assumes "reader_on r c" "ext_rep c buf t" "etree_height t < stk"
  shows "readExtentTree r stk buf = Inr (flat_ranges t)"
  using assms(2,3)
proof (induction arbitrary: stk rule: ext_rep.induct)
  case (ext_rep_leaf buf n rs)
  then obtain k where "stk = Suc k" by (cases stk) auto
  then show ?case
    using ext_rep_leaf ext_leaves_ok [of 12 n buf] readExtentTree_node [OF ext_rep_leaf(1), of r k]
    by (simp add: ext_node_def ext_entry_def del: readExtentTree.simps)
next
  case (ext_rep_node buf n ts)
  then obtain k where k: "stk = Suc k" by (cases stk) auto
  have low: "etree_height t < k" if "t \<in> set ts" for t
    using ext_rep_node.prems foldr_max_less [of etree_height ts k] that k by simp
  have len: "12 + 12 * (0 + n) \<le> length buf"
    using ext_rep_node(1) by (simp add: ext_node_def)
  have "list_all2 (\<lambda>i t. \<exists>x. c (ext_child buf i) = Some x \<and> readExtentTree r k x = Inr (flat_ranges t))
    [0..<0 + n] ts"
    using ext_rep_node(2) low by (fastforce simp: list_all2_conv_all_nth)
  then have "ext_idxs (mDev r) (readExtentTree r k) buf (12 + 12 * 0) n
      (replicate (unat (mBlockSize r)) 0) = Inr (concat (map flat_ranges ts))"
    by (rule ext_idxs_ok [OF assms(1) _ len]) simp
  then show ?case
    by (simp add: k readExtentTree_node [OF ext_rep_node(1)] del: readExtentTree.simps)
qed

text \<open>An index block that names itself as its first child exhausts every stack: the recursion has
  neither a depth limit nor a check against \<^verbatim>\<open>eh_depth\<close>.\<close>

lemma readExtentTree_cycle:
  assumes "reader_on r c" "ext_node buf (Suc n) False" "ext_child buf 0 = blk" "c blk = Some buf"
  shows "readExtentTree r stk buf = Inl StackExhausted"
proof (induction stk)
  case 0
  then show ?case by simp
next
  case (Suc stk)
  have "readBlock (mDev r) blk (replicate (unat (mBlockSize r)) 0) = Inr (True, buf)"
    using reader_on_read [OF assms(1), of "replicate (unat (mBlockSize r)) 0" blk] assms(4) by simp
  then show ?case
    using assms(2,3) Suc.IH
    by (simp add: readExtentTree_node [OF assms(2)] ext_node_def memcpy_from_ok ext_child_def
        ext_entry_def Let_def del: readExtentTree.simps)
qed

text \<open>An index node over two leaf blocks, and an index block that names itself.\<close>

definition demo_leaf :: "u8 \<Rightarrow> u8 list" where
  "demo_leaf s = pad 128 ([0x0A, 0xF3, 1, 0, 4, 0, 0, 0, 0, 0, 0, 0, 0, 0, 0, 0, 1, 0, 0, 0, s, 0, 0, 0])"

definition demo_index :: "u8 \<Rightarrow> u8 \<Rightarrow> u8 list" where
  "demo_index a b = pad 128 ([0x0A, 0xF3, 2, 0, 4, 0, 1, 0, 0, 0, 0, 0]
     @ [0, 0, 0, 0, a, 0, 0, 0, 0, 0, 0, 0] @ [1, 0, 0, 0, b, 0, 0, 0, 0, 0, 0, 0])"

definition demo_tree_raw :: raw_dev where
  "demo_tree_raw = \<lparr>rFd = file_fd (demo_index 1 2 @ demo_leaf 9 @ demo_leaf 17 @ demo_index 3 3),
     rBlockSize = 128, rTotalBlocks = 4\<rparr>"

definition demo_tree_reader :: reader where
  "demo_tree_reader = demo_reader\<lparr>mDev := raw_iface demo_tree_raw\<rparr>"

lemma demo_tree_reader_on: "reader_on demo_tree_reader (raw_content demo_tree_raw)"
proof -
  have "holds_content (raw_iface demo_tree_raw) (raw_content demo_tree_raw)"
    by (rule raw.iface_content) (simp_all add: demo_tree_raw_def raw_iface_def)
  then show ?thesis
    by (simp add: reader_on_def demo_tree_reader_def demo_reader_def demo_tree_raw_def raw_iface_def)
qed

lemma demo_leaf_rep:
  "ext_rep c (demo_leaf 9) (ELeaf [(9, 1)])" "ext_rep c (demo_leaf 17) (ELeaf [(17, 1)])"
proof -
  have "ext_node (demo_leaf 9) 1 True" "ext_node (demo_leaf 17) 1 True"
    "[(9, 1)] = map (\<lambda>i. extent_range (decode_extent (ext_entry (demo_leaf 9) i))) [0..<1]"
    "[(17, 1)] = map (\<lambda>i. extent_range (decode_extent (ext_entry (demo_leaf 17) i))) [0..<1]"
    by code_simp+
  then show "ext_rep c (demo_leaf 9) (ELeaf [(9, 1)])" "ext_rep c (demo_leaf 17) (ELeaf [(17, 1)])"
    by (auto intro: ext_rep_leaf)
qed

lemma demo_tree_blocks:
  "raw_content demo_tree_raw 1 = Some (demo_leaf 9)"
  "raw_content demo_tree_raw 2 = Some (demo_leaf 17)"
  "raw_content demo_tree_raw 3 = Some (demo_index 3 3)"
  "ext_node (demo_index 1 2) 2 False" "ext_node (demo_index 3 3) (Suc 1) False"
  "ext_child (demo_index 1 2) 0 = 1" "ext_child (demo_index 1 2) 1 = 2"
  "ext_child (demo_index 3 3) 0 = 3"
  by code_simp+

theorem readExtentTree_flattens_witness:
  "readExtentTree demo_tree_reader 2 (demo_index 1 2) = Inr [(9, 1), (17, 1)]"
proof -
  have "[0..<2] = [0, 1::nat]"
    by (simp add: upt_rec)
  then have "list_all2 (\<lambda>i t. \<exists>x. raw_content demo_tree_raw (ext_child (demo_index 1 2) i) = Some x
      \<and> ext_rep (raw_content demo_tree_raw) x t) [0..<2] [ELeaf [(9, 1)], ELeaf [(17, 1)]]"
    using demo_leaf_rep by (simp add: demo_tree_blocks [unfolded One_nat_def])
  then have "ext_rep (raw_content demo_tree_raw) (demo_index 1 2) (ENode [ELeaf [(9, 1)], ELeaf [(17, 1)]])"
    by (rule ext_rep_node [OF demo_tree_blocks(4)])
  from readExtentTree_flattens [OF demo_tree_reader_on this, of 2] show ?thesis
    by simp
qed

lemma readExtentTree_cycle_witness:
  "readExtentTree demo_tree_reader 100 (demo_index 3 3) = Inl StackExhausted"
  by (rule readExtentTree_cycle [OF demo_tree_reader_on demo_tree_blocks(5,8,3)])

section \<open>Directories\<close>

text \<open>The record of a directory entry as EXT4 stores it, padded to its record length.\<close>

record dir_item =
  di_inode :: u32
  di_rec_len :: u16
  di_name :: string
  di_type :: u8

definition encode_item :: "dir_item \<Rightarrow> u8 list" where
  "encode_item d = (let b = u32_bytes (di_inode d) @ u16_bytes (di_rec_len d)
       @ [word_of_nat (length (di_name d)), di_type d] @ string_to_bytes (di_name d)
     in b @ replicate (unat (di_rec_len d) - length b) 0)"

definition item_ok :: "dir_item \<Rightarrow> bool" where
  "item_ok d \<longleftrightarrow> length (di_name d) < 256 \<and> 8 + length (di_name d) \<le> unat (di_rec_len d)"

lemma length_encode_item: "item_ok d \<Longrightarrow> length (encode_item d) = unat (di_rec_len d)"
  unfolding encode_item_def item_ok_def Let_def by simp linarith

lemma encode_item_head:
  "take 8 (encode_item d @ rest) = u32_bytes (di_inode d) @ u16_bytes (di_rec_len d)
     @ [word_of_nat (length (di_name d)), di_type d]"
  by (simp add: encode_item_def Let_def)

lemma decode_dirent_item:
  assumes "item_ok d"
  shows "decode_dirent (take 8 (encode_item d @ rest)) =
    \<lparr>de_inode = di_inode d, de_rec_len = di_rec_len d,
     de_name_len = word_of_nat (length (di_name d)), de_file_type = di_type d\<rparr>"
  unfolding encode_item_head
  by (simp add: decode_dirent_def le32_def le16_def nth_append)

lemma unat_name_len: "item_ok d \<Longrightarrow> unat (word_of_nat (length (di_name d)) :: u8) = length (di_name d)"
  by (simp add: item_ok_def unat_of_nat)

lemma item_name_bytes:
  assumes "item_ok d"
  shows "take (length (di_name d)) (drop 8 (encode_item d @ rest)) = string_to_bytes (di_name d)"
  by (simp add: encode_item_def Let_def)

fun first_match :: "dir_item list \<Rightarrow> string \<Rightarrow> u32" where
  "first_match [] nm = 0"
| "first_match (d # ds) nm =
     (if di_inode d \<noteq> 0 \<and> di_name d = nm then di_inode d else first_match ds nm)"

lemma item_ok_rec_len: "item_ok d \<Longrightarrow> di_rec_len d \<noteq> 0"
  by (auto simp: item_ok_def)

lemma dir_find_items:
  assumes "\<forall>d \<in> set ds. item_ok d"
  shows "dir_find (pre @ concat (map encode_item ds)) nm (length pre) = Inr (first_match ds nm)"
  using assms
proof (induction ds arbitrary: pre)
  case Nil
  then show ?case by (simp add: dir_find.simps)
next
  case (Cons d ds)
  let ?rest = "concat (map encode_item ds)"
  have ok: "item_ok d" using Cons.prems by simp
  have len: "length (encode_item d) = unat (di_rec_len d)" by (rule length_encode_item [OF ok])
  have next_ok: "dir_find (pre @ encode_item d @ ?rest) nm (length pre + unat (di_rec_len d)) =
    Inr (first_match ds nm)"
    using Cons.IH [of "pre @ encode_item d"] Cons.prems len by simp
  have room: "8 + length (di_name d) \<le> unat (di_rec_len d)"
    using ok by (simp add: item_ok_def)
  note dd = decode_dirent_item [OF ok, of ?rest] item_name_bytes [OF ok, of ?rest]
  have mem: "memcpy_from (pre @ encode_item d @ ?rest) (length pre + 8) (length (di_name d)) =
    Inr (string_to_bytes (di_name d))"
    using room len dd(2) by (simp add: memcpy_from_def)
  show ?case
    using next_ok mem dd(1) room len item_ok_rec_len [OF ok] unat_name_len [OF ok]
    by (subst dir_find.simps) (auto simp: Let_def)
qed

text \<open>C8: Looking a name up in a directory of well-formed records gives the inode of the first live
  record with that name, and 0 when there is none: deleted records (inode 0) never match, and the
  scan stays inside the data.\<close>

theorem dir_find_first_match:
  assumes "\<forall>d \<in> set ds. item_ok d"
  shows "dir_find (concat (map encode_item ds)) nm 0 = Inr (first_match ds nm)"
  using dir_find_items [OF assms, of "[]"] by simp

definition demo_items :: "dir_item list" where
  "demo_items = [\<lparr>di_inode = 2, di_rec_len = 12, di_name = ''.'', di_type = 2\<rparr>,
     \<lparr>di_inode = 0, di_rec_len = 12, di_name = ''f'', di_type = 1\<rparr>,
     \<lparr>di_inode = 7, di_rec_len = 16, di_name = ''f'', di_type = 1\<rparr>]"

theorem dir_find_first_match_witness:
  "dir_find (concat (map encode_item demo_items)) ''f'' 0 = Inr 7"
proof -
  have "\<forall>d \<in> set demo_items. item_ok d"
    by (simp add: demo_items_def item_ok_def)
  from dir_find_first_match [OF this, of "''f''"] show ?thesis
    by (simp add: demo_items_def)
qed

lemma dir_entries_items:
  assumes "\<forall>d \<in> set ds. item_ok d" "\<forall>d \<in> set ds. readInode r (di_inode d) = Inr (child (di_inode d))"
  shows "dir_entries r dir (pre @ concat (map encode_item ds)) (length pre) =
    Inr (map (\<lambda>d. mk_entry dir (di_name d) \<lparr>de_inode = di_inode d, de_rec_len = di_rec_len d,
         de_name_len = word_of_nat (length (di_name d)), de_file_type = di_type d\<rparr> (child (di_inode d)))
       (filter (\<lambda>d. di_inode d \<noteq> 0 \<and> di_name d \<noteq> ''.'' \<and> di_name d \<noteq> ''..'') ds))"
  using assms
proof (induction ds arbitrary: pre)
  case Nil
  then show ?case by (simp add: dir_entries.simps)
next
  case (Cons d ds)
  let ?rest = "concat (map encode_item ds)"
  have ok: "item_ok d" using Cons.prems by simp
  have len: "length (encode_item d) = unat (di_rec_len d)" by (rule length_encode_item [OF ok])
  note IH = Cons.IH [of "pre @ encode_item d", simplified len append_assoc length_append]
  have room: "8 + length (di_name d) \<le> unat (di_rec_len d)"
    using ok by (simp add: item_ok_def)
  note dd = decode_dirent_item [OF ok, of ?rest] item_name_bytes [OF ok, of ?rest]
  have mem: "memcpy_from (pre @ encode_item d @ ?rest) (length pre + 8) (length (di_name d)) =
    Inr (string_to_bytes (di_name d))"
    using room len dd(2) by (simp add: memcpy_from_def)
  show ?case
    using IH Cons.prems mem dd(1) room len item_ok_rec_len [OF ok] unat_name_len [OF ok]
    by (subst dir_entries.simps) (auto simp: Let_def)
qed

definition item_dirent :: "dir_item \<Rightarrow> raw_dirent" where
  "item_dirent d = \<lparr>de_inode = di_inode d, de_rec_len = di_rec_len d,
     de_name_len = word_of_nat (length (di_name d)), de_file_type = di_type d\<rparr>"

definition listed :: "dir_item \<Rightarrow> bool" where
  "listed d \<longleftrightarrow> di_inode d \<noteq> 0 \<and> di_name d \<noteq> ''.'' \<and> di_name d \<noteq> ''..''"

definition item_entry :: "string \<Rightarrow> (u32 \<Rightarrow> raw_inode option) \<Rightarrow> dir_item \<Rightarrow> FsFileEntry" where
  "item_entry dir child d = mk_entry dir (di_name d) (item_dirent d) (child (di_inode d))"

lemma listDirectory_eq:
  assumes "resolvePath r stk p = Inr ino" "ino \<noteq> 0"
    and "readFileDataByInode r stk ino = Inr (Some (concat (map encode_item ds)))"
    and "\<forall>d \<in> set ds. item_ok d \<and> readInode r (di_inode d) = Inr (child (di_inode d))"
  shows "listDirectory r stk p =
    Inr (Some (sort_key entry_key (map (item_entry p child) (filter listed ds))))"
  using assms dir_entries_items [of ds r child p "[]"]
  by (simp add: listDirectory_def item_entry_def [abs_def] item_dirent_def listed_def [abs_def])


lemma no_delim:
  "d \<notin> set s \<Longrightarrow> takeWhile (\<lambda>c. c \<noteq> d) s = s" "d \<notin> set s \<Longrightarrow> dropWhile (\<lambda>c. c \<noteq> d) s = []"
  by (induction s) auto

lemma no_delim_append:
  "d \<notin> set p \<Longrightarrow> takeWhile (\<lambda>c. c \<noteq> d) (p @ d # s) = p"
  "d \<notin> set p \<Longrightarrow> dropWhile (\<lambda>c. c \<noteq> d) (p @ d # s) = d # s"
  by (induction p) auto

lemma getlines_single:
  assumes "d \<notin> set s" "s \<noteq> []"
  shows "getlines d s = [s]"
  using assms by (simp add: getlines.simps [of d s] getlines.simps [of d "[]"] no_delim del: dropWhile_eq_Nil_conv takeWhile_eq_all_conv)

lemma filter_getlines_append:
  "filter (\<lambda>x. x \<noteq> []) (getlines d (p @ d # s)) =
   filter (\<lambda>x. x \<noteq> []) (getlines d p) @ filter (\<lambda>x. x \<noteq> []) (getlines d s)"
proof (induction d p rule: getlines.induct)
  case (1 d p)
  show ?case
  proof (cases "d \<in> set p")
    case True
    then have ne: "p \<noteq> []" by auto
    have tw: "takeWhile (\<lambda>c. c \<noteq> d) (p @ d # s) = takeWhile (\<lambda>c. c \<noteq> d) p"
      "dropWhile (\<lambda>c. c \<noteq> d) (p @ d # s) = dropWhile (\<lambda>c. c \<noteq> d) p @ d # s"
      using True by (simp_all add: takeWhile_append1 dropWhile_append1)
    have "dropWhile (\<lambda>c. c \<noteq> d) p \<noteq> []"
      using True by (simp add: dropWhile_eq_Nil_conv)
    then have "tl (dropWhile (\<lambda>c. c \<noteq> d) p @ d # s) = tl (dropWhile (\<lambda>c. c \<noteq> d) p) @ d # s"
      by simp
    then show ?thesis
      using "1.IH" [OF ne] ne tw by (simp add: getlines.simps [of d p] getlines.simps [of d "p @ d # s"])
  next
    case False
    then show ?thesis
      by (cases "p = []") (simp_all add: getlines.simps [of d "p @ d # s"] getlines.simps [of d "d # s"]
          getlines.simps [of d "[]"] getlines_single no_delim_append)
  qed
qed

lemma walk_items_filter: "walk_items r stk ino (filter (\<lambda>x. x \<noteq> []) xs) = walk_items r stk ino xs"
  by (induction xs arbitrary: ino) (auto intro!: bnd_cong)

lemma walk_items_append:
  "ino \<noteq> 0 \<Longrightarrow> walk_items r stk ino (xs @ ys) =
   bnd (walk_items r stk ino xs) (\<lambda>i. if i = 0 then Inr 0 else walk_items r stk i ys)"
proof (induction xs arbitrary: ino)
  case (Cons x xs)
  show ?case
  proof (cases "x = [] \<or> x = ''.''")
    case True
    then show ?thesis using Cons by auto
  next
    case False
    then show ?thesis
      using Cons.IH by (cases "findChildInode r stk ino x") auto
  qed
qed simp

lemma resolvePath_walk:
  "resolvePath r stk p = walk_items r stk EXT4_ROOT_INO (filter (\<lambda>x. x \<noteq> []) (getlines (CHR ''/'') p))"
proof (cases "p = [] \<or> p = ''/''")
  case True
  then have "filter (\<lambda>x. x \<noteq> []) (getlines (CHR ''/'') p) = []"
    by (auto simp: getlines.simps [of _ "[]"] getlines.simps [of _ "''/''"])
  then show ?thesis
    using True by (simp only: resolvePath_def walk_items.simps if_True)
next
  case False
  then show ?thesis
    by (simp only: resolvePath_def walk_items_filter if_False)
qed

lemma resolvePath_child:
  assumes "CHR ''/'' \<notin> set nm" "nm \<noteq> []" "nm \<noteq> ''.''"
  shows "resolvePath r stk (p @ CHR ''/'' # nm) =
    bnd (resolvePath r stk p) (\<lambda>i. if i = 0 then Inr 0 else findChildInode r stk i nm)"
proof -
  have "filter (\<lambda>x. x \<noteq> []) (getlines (CHR ''/'') nm) = [nm]"
    using assms by (simp add: getlines_single)
  moreover have "walk_items r stk i [nm] = findChildInode r stk i nm" for i
    using assms by (cases "findChildInode r stk i nm") simp_all
  moreover have "EXT4_ROOT_INO \<noteq> 0"
    by (simp add: EXT4_ROOT_INO_def)
  ultimately show ?thesis
    by (simp only: resolvePath_walk filter_getlines_append walk_items_append simp_thms if_True)
qed

lemma resolvePath_root: "resolvePath r stk ''/'' = resolvePath r stk []"
  by (simp add: resolvePath_def)

lemma first_match_distinct:
  assumes "distinct (map di_name (filter (\<lambda>d. di_inode d \<noteq> 0) ds))" "d \<in> set ds" "di_inode d \<noteq> 0"
  shows "first_match ds (di_name d) = di_inode d"
  using assms
proof (induction ds)
  case (Cons a ds)
  have "di_name a \<noteq> di_name d" if "di_inode a \<noteq> 0" "d \<in> set ds"
    using Cons.prems(1,3) that by (auto simp: image_iff)
  then show ?case
    using Cons by (auto split: if_splits)
qed simp

text \<open>C10: The listing and the path walk agree: the path that a listed entry carries resolves back to
  the entry's inode, when the live names of the directory are distinct and hold no slash.\<close>

theorem listed_path_resolves:
  assumes "resolvePath r stk p = Inr ino" "ino \<noteq> 0"
    and "readFileDataByInode r stk ino = Inr (Some (concat (map encode_item ds)))"
    and "\<forall>d \<in> set ds. item_ok d \<and> readInode r (di_inode d) = Inr (child (di_inode d))"
    and "distinct (map di_name (filter (\<lambda>d. di_inode d \<noteq> 0) ds))"
    and "\<forall>d \<in> set ds. di_name d \<noteq> [] \<and> CHR ''/'' \<notin> set (di_name d)"
    and "listDirectory r stk p = Inr (Some es)" "e \<in> set es"
  shows "resolvePath r stk (fePath e) = Inr (feInode e)"
proof -
  obtain d where d: "d \<in> set ds" "listed d" "e = item_entry p child d"
    using assms(7,8) listDirectory_eq [OF assms(1-4)] by auto
  let ?dir = "if p = ''/'' then [] else p"
  have path: "fePath e = ?dir @ CHR ''/'' # di_name d" and ino: "feInode e = di_inode d"
    by (simp_all add: d(3) item_entry_def mk_entry_def item_dirent_def)
  have nm: "CHR ''/'' \<notin> set (di_name d)" "di_name d \<noteq> []" "di_name d \<noteq> ''.''"
    using assms(6) d(1,2) by (auto simp: listed_def)
  have dir: "resolvePath r stk ?dir = Inr ino"
    using assms(1) resolvePath_root [of r stk] by auto
  have "findChildInode r stk ino (di_name d) = Inr (di_inode d)"
    using assms(3,4) dir_find_items [of ds "[]" "di_name d"] first_match_distinct [OF assms(5) d(1)] d(2)
    by (simp add: findChildInode_def listed_def)
  then show ?thesis
    unfolding path ino resolvePath_child [OF nm] dir using assms(2) by simp
qed

definition demo_child :: "u32 \<Rightarrow> raw_inode option" where
  "demo_child ino = Some (decode_inode (take 112
     (if ino = 1 then demo_inode 130 4 2 else demo_inode 128 6 1)))"

definition demo_root_items :: "dir_item list" where
  "demo_root_items = [\<lparr>di_inode = 2, di_rec_len = 12, di_name = ''.'', di_type = 2\<rparr>,
     \<lparr>di_inode = 1, di_rec_len = 12, di_name = ''f'', di_type = 1\<rparr>,
     \<lparr>di_inode = 2, di_rec_len = 104, di_name = ''d'', di_type = 2\<rparr>]"

lemma demo_root_read:
  "resolvePath demo_reader 1 ''/'' = Inr 2" "(2 :: u32) \<noteq> 0"
  "readFileDataByInode demo_reader 1 2 = Inr (Some (concat (map encode_item demo_root_items)))"
  by code_simp+

lemma demo_root_items_ok:
  "\<forall>d \<in> set demo_root_items. item_ok d \<and> readInode demo_reader (di_inode d) = Inr (demo_child (di_inode d))"
proof -
  have "list_all item_ok demo_root_items"
    by (simp add: demo_root_items_def item_ok_def)
  moreover have "list_all (\<lambda>d. readInode demo_reader (di_inode d) = Inr (demo_child (di_inode d))) demo_root_items"
    by code_simp
  ultimately show ?thesis
    by (simp add: list_all_iff)
qed


theorem listed_path_resolves_witness:
  "resolvePath demo_reader 1 ''/f'' = Inr 1"
proof -
  let ?es = "sort_key entry_key (map (item_entry ''/'' demo_child) (filter listed demo_root_items))"
  let ?e = "item_entry ''/'' demo_child \<lparr>di_inode = 1, di_rec_len = 12, di_name = ''f'', di_type = 1\<rparr>"
  have es: "listDirectory demo_reader 1 ''/'' = Inr (Some ?es)"
    by (rule listDirectory_eq [OF demo_root_read demo_root_items_ok])
  have e: "?e \<in> set ?es"
    by (simp add: demo_root_items_def listed_def)
  have d: "distinct (map di_name (filter (\<lambda>d. di_inode d \<noteq> 0) demo_root_items))"
    "\<forall>d \<in> set demo_root_items. di_name d \<noteq> [] \<and> CHR ''/'' \<notin> set (di_name d)"
    by (simp_all add: demo_root_items_def)
  have "fePath ?e = ''/f''" "feInode ?e = 1"
    by (simp_all add: item_entry_def mk_entry_def item_dirent_def)
  with listed_path_resolves [OF demo_root_read demo_root_items_ok d es e] show ?thesis
    by (simp only:)
qed

section \<open>build.prop\<close>

definition prop_pair :: "string \<Rightarrow> (string \<times> string) option" where
  "prop_pair line = (if line = [] \<or> hd line = CHR ''#'' then None
     else map_option (\<lambda>(k, v). (k, drop_cr v)) (split_eq line))"

definition prop_pairs :: "string \<Rightarrow> (string \<times> string) list" where
  "prop_pairs t = List.map_filter prop_pair (getlines nl t)"

definition last_val :: "string \<Rightarrow> (string \<times> string) list \<Rightarrow> string" where
  "last_val k ps = (case map_of (rev ps) k of Some v \<Rightarrow> v | None \<Rightarrow> [])"

definition first_val :: "string list \<Rightarrow> (string \<times> string) list \<Rightarrow> string" where
  "first_val ks ps =
     (case find (\<lambda>p. fst p \<in> set ks \<and> snd p \<noteq> []) ps of Some p \<Rightarrow> snd p | None \<Rightarrow> [])"

lemma build_prop_foldl:
  "foldl build_prop_line info ls =
   foldl (\<lambda>i p. build_prop_set i (fst p) (snd p)) info (List.map_filter prop_pair ls)"
  by (induction ls arbitrary: info)
    (auto simp: build_prop_line_def prop_pair_def map_filter_simps split: option.splits)

lemma last_val_snoc:
  "last_val k (ps @ [p]) = (if k = fst p then snd p else last_val k ps)"
  by (cases p) (simp add: last_val_def)

lemma first_val_snoc:
  "first_val ks (ps @ [p]) =
   (if first_val ks ps = [] \<and> fst p \<in> set ks then snd p else first_val ks ps)"
  by (induction ps) (auto simp: first_val_def)

lemma build_prop_set_fields:
  "bpOsVersion (build_prop_set i k v) = (if ''ro.build.version.release'' = k then v else bpOsVersion i)"
  "bpSdkVersion (build_prop_set i k v) = (if ''ro.build.version.sdk'' = k then v else bpSdkVersion i)"
  "bpBuildId (build_prop_set i k v) = (if ''ro.build.id'' = k then v else bpBuildId i)"
  "bpSecurityPatch (build_prop_set i k v) =
    (if ''ro.build.version.security_patch'' = k then v else bpSecurityPatch i)"
  "bpModel (build_prop_set i k v) =
    (if bpModel i = [] \<and> k \<in> set [''ro.product.model'', ''ro.product.system.model''] then v else bpModel i)"
  "bpFingerprint (build_prop_set i k v) =
    (if bpFingerprint i = [] \<and> k \<in> set [''ro.system.build.fingerprint'', ''ro.build.fingerprint'']
     then v else bpFingerprint i)"
  "bpRawContent (build_prop_set i k v) = bpRawContent i"
  by (auto simp: build_prop_set_def)

lemmas build_prop_steps = build_prop_set_fields last_val_snoc first_val_snoc


section \<open>Mounting agrees with verification\<close>

lemma le32_take: "off + 4 \<le> n \<Longrightarrow> le32 (take n xs) off = le32 xs off"
  by (simp add: le32_def drop_take min_def)

lemma le16_take: "off + 2 \<le> n \<Longrightarrow> le16 (take n xs) off = le16 xs off"
  by (simp add: le16_def drop_take min_def)

lemma file_fd_exact:
  "pread_exact (file_fd img) off n = Some b \<Longrightarrow> b = take n (drop (unat off) img) \<and> length b = n"
  by (auto simp: pread_exact_def file_fd_def split: if_splits)

lemma raw_read_file:
  assumes "raw_readBlock \<lparr>rFd = file_fd img, rBlockSize = bs, rTotalBlocks = tot\<rparr> n
      (replicate (unat bs) 0) = Inr (True, buf)"
  shows "buf = take (unat bs) (drop (unat (n * ucast bs)) img)"
  using assms
  by (auto simp: raw_readBlock_def pread_block_def file_fd_def store_prefix_def split: if_splits)

lemma ext4_open_raw:
  assumes "ext4_open (raw_iface \<lparr>rFd = file_fd img, rBlockSize = bs, rTotalBlocks = tot\<rparr>) = Inr (Some r)"
  shows "le32 (drop 1024 img) 24 < 32
    \<and> r = init_fields (raw_iface \<lparr>rFd = file_fd img, rBlockSize = bs, rTotalBlocks = tot\<rparr>)
            (decode_superblock (take 256 (drop 1024 img))) (push_bit (unat (le32 (drop 1024 img) 24)) 1024)"
proof -
  let ?d = "\<lparr>rFd = file_fd img, rBlockSize = bs, rTotalBlocks = tot\<rparr>"
  let ?blk = "if bs = 1024 then 1 else 0 :: u64" and ?off = "if bs = 1024 then 0 else 1024 :: nat"
  have bs: "getBlockSize (raw_iface ?d) = bs" "readBlock (raw_iface ?d) = raw_readBlock ?d"
    by (simp_all add: raw_iface_def)
  obtain buf b where buf: "raw_readBlock ?d ?blk (replicate (unat bs) 0) = Inr (True, buf)"
    and b: "memcpy_from buf ?off 256 = Inr b" and lt: "s_log_block_size (decode_superblock b) < 32"
    and r: "r = init_fields (raw_iface ?d) (decode_superblock b)
      (push_bit (unat (s_log_block_size (decode_superblock b))) 1024)"
    using assms unfolding ext4_open_def bs Let_def
    by (auto simp: fault_simps shl32_def not_le split: if_splits)
  have content: "buf = take (unat bs) (drop (unat (?blk * ucast bs)) img)"
    by (rule raw_read_file [OF buf])
  have "b = take 256 (drop 1024 img)"
    using b content by (auto simp: memcpy_from_def drop_take min_def split: if_splits)
  then show ?thesis
    using lt r by (simp add: decode_superblock_def le32_take)
qed

text \<open>C12: When the recogniser reports a raw EXT4 image and the engine's mount succeeds, the reader it
  builds has the reported block size and volume name and the device below it the reported block
  size and block count.\<close>

theorem mount_agrees_with_verifier:
  assumes "verifyFileDescriptor (Some (file_fd img)) = Inr v" "viFormat v = RAW_EXT4"
    and "openFilesystem (file_fd img) = Inr (Some r)"
  shows "mBlockSize r = viBlockSize v \<and> mVolumeName r = viVolumeName v
    \<and> getBlockSize (mDev r) = mBlockSize r \<and> getTotalBlocks (mDev r) = viTotalBlocks v"
proof -
  obtain b where b: "pread_exact (file_fd img) 1024 136 = Some b" and "viIsValid v"
    and bs: "viBlockSize v = push_bit (unat (le32 b 24)) 1024"
    and vol: "viVolumeName v = c_string (take 16 (drop 120 b))"
    using verify_ext4_fields [OF assms(1,2)] by auto
  have b_img: "b = take 136 (drop 1024 img)"
    using file_fd_exact [OF b] by simp
  have "sparse_create (file_fd img) = None"
    using verify_sparse_iff [OF assms(1)] assms(2)
    by (auto simp: sparse_create_def Let_def split: option.splits)
  then have "ext4_open (raw_iface \<lparr>rFd = file_fd img, rBlockSize = viBlockSize v,
      rTotalBlocks = viTotalBlocks v\<rparr>) = Inr (Some r)"
    using assms \<open>viIsValid v\<close> by (simp add: openFilesystem_def)
  note r = ext4_open_raw [OF this]
  show ?thesis
    using r unfolding bs vol b_img
    by (simp add: init_fields_def raw_iface_def Let_def decode_superblock_def le32_take drop_take
        bs b_img)
qed

section \<open>Inode reads stay in their buffers\<close>

definition geometry_ok :: "reader \<Rightarrow> bool" where
  "geometry_ok r \<longleftrightarrow> 0 < mBlockSize r
     \<and> unat (mDescSize r) dvd unat (mBlockSize r) \<and> (if mIs64Bit r then 64 else 32) \<le> unat (mDescSize r)
     \<and> unat (mInodeSize r) dvd unat (mBlockSize r) \<and> 112 \<le> unat (mInodeSize r)"

definition safe_dev :: "iblockdev \<Rightarrow> bool" where
  "safe_dev dev \<longleftrightarrow> (\<forall>n buf. unat (getBlockSize dev) \<le> length buf \<longrightarrow>
     (\<exists>ok buf'. readBlock dev n buf = Inr (ok, buf') \<and> length buf' = length buf))"

context block_device
begin

lemma iface_safe:
  "okd d \<Longrightarrow> readBlock dev = rd d \<Longrightarrow> getBlockSize dev = bs d \<Longrightarrow> safe_dev dev"
  using rd_safe by (fastforce simp: safe_dev_def)

end

lemma dvd_room:
  assumes "(s :: nat) dvd b" "s dvd off" "off < b"
  shows "off + s \<le> b"
proof -
  obtain i j where "b = s * i" "off = s * j"
    using assms(1,2) by (auto elim!: dvdE)
  then have "j < i"
    using assms(3) by simp
  then have "s * Suc j \<le> s * i"
    by (intro mult_le_mono2) simp
  then show ?thesis
    using \<open>b = s * i\<close> \<open>off = s * j\<close> by simp
qed

lemma record_in_block:
  assumes "0 < b" "unat (s :: u16) dvd unat (b :: u32)"
  shows "unat ((ucast (i :: u32) * ucast s :: u64) mod ucast b) + unat s \<le> unat b"
proof -
  have "unat i * unat s < 2 ^ 32 * 2 ^ 16"
    using unat_u32_less [of i] unat_u16_less [of s] by (intro mult_strict_mono) auto
  then have "unat (ucast i * ucast s :: u64) = unat i * unat s"
    by (simp add: unat_word_ariths)
  then have off: "unat ((ucast i * ucast s :: u64) mod ucast b) = (unat i * unat s) mod unat b"
    by (simp add: unat_mod_distrib)
  have "0 < unat b"
    using assms(1) by (simp add: word_gt_0 unat_gt_0)
  then show ?thesis
    unfolding off using assms(2) by (intro dvd_room) (auto simp: dvd_mod)
qed

lemma safe_read:
  assumes "safe_dev (mDev r)" "getBlockSize (mDev r) \<le> mBlockSize r"
  shows "\<exists>ok buf. readBlock (mDev r) n (replicate (unat (mBlockSize r)) 0) = Inr (ok, buf)
    \<and> length buf = unat (mBlockSize r)"
proof -
  have "unat (getBlockSize (mDev r)) \<le> length (replicate (unat (mBlockSize r)) (0 :: u8))"
    using assms(2) by (simp add: word_le_nat_alt)
  then show ?thesis
    using assms(1) unfolding safe_dev_def by (metis length_replicate)
qed

lemma no_fault_record:
  assumes "safe_dev (mDev r)" "getBlockSize (mDev r) \<le> mBlockSize r" "0 < mBlockSize r"
    and "unat (s :: u16) dvd unat (mBlockSize r)" "n \<le> unat s"
  shows "no_fault (bnd (div_mod_block r (ucast (i :: u32) * ucast s)) (\<lambda>(q, off).
    bnd (readBlock (mDev r) (blk + q) (replicate (unat (mBlockSize r)) 0)) (\<lambda>(ok, buf).
      if \<not> ok then Inr x else bnd (memcpy_from buf off n) (\<lambda>b. Inr (g b)))))"
proof -
  let ?q = "(ucast i * ucast s :: u64) div ucast (mBlockSize r)"
  let ?off = "unat ((ucast i * ucast s :: u64) mod ucast (mBlockSize r))"
  have dm: "div_mod_block r (ucast i * ucast s) = Inr (?q, ?off)"
    using assms(3) by (auto simp: div_mod_block_def)
  obtain ok buf where rd: "readBlock (mDev r) (blk + ?q) (replicate (unat (mBlockSize r)) 0) = Inr (ok, buf)"
    "length buf = unat (mBlockSize r)"
    using safe_read [OF assms(1,2)] by blast
  have "?off + n \<le> length buf"
    using record_in_block [OF assms(3,4), of i] assms(5) rd(2) by linarith
  then show ?thesis
    unfolding dm bnd.simps prod.case rd(1) by (simp add: memcpy_from_ok)
qed

lemma getInodeTableBlock_once:
  "getInodeTableBlock r g =
   bnd (div_mod_block r (ucast g * ucast (mDescSize r))) (\<lambda>(q, off).
   bnd (readBlock (mDev r) ((if mBlockSize r = 1024 then 2 else 1) + q)
          (replicate (unat (mBlockSize r)) 0)) (\<lambda>(ok, buf).
     if \<not> ok then Inr 0
     else bnd (memcpy_from buf off (if mIs64Bit r then 64 else 32)) (\<lambda>gd.
       Inr (if mIs64Bit r then hi_lo (le32 gd 40) (le32 gd 8) else ucast (le32 gd 8)))))"
  by (cases "mIs64Bit r") (simp_all add: getInodeTableBlock_def cong: if_cong)



text \<open>An image of two blocks of 1024 bytes that holds a superblock.\<close>

definition demo_sb :: "u8 list" where
  "demo_sb = replicate 4 0 @ [2] @ replicate 35 0 @ [8] @ replicate 15 0
     @ [0x53, 0xEF] @ replicate 62 0 @ [118, 111, 108] @ replicate 133 0"

definition demo_ext4 :: "u8 list" where
  "demo_ext4 = replicate 1024 0 @ demo_sb @ replicate 768 0"

lemma demo_ext4_reads:
  "pread_exact (file_fd demo_ext4) 0 28 = Some (replicate 28 0)"
  "pread_exact (file_fd demo_ext4) 1024 136 = Some (take 136 demo_sb)"
  "file_fd demo_ext4 1024 1024 = Some (demo_sb @ replicate 768 0)"
  by (simp_all add: demo_ext4_def demo_sb_def pread_exact_def file_fd_def)

lemma demo_ext4_fields:
  "sh_magic (decode_sparse_header (replicate 28 0)) = 0"
  "decode_ext4_sb_header (take 136 demo_sb) = \<lparr>vs_blocks_count_lo = 2, vs_log_block_size = 0,
     vs_magic = 0xEF53, vs_volume_name = [118, 111, 108] @ replicate 13 0\<rparr>"
  "decode_superblock demo_sb = \<lparr>s_log_block_size = 0, s_inodes_per_group = 8, s_magic = 0xEF53,
     s_inode_size = 0, s_feature_incompat = 0, s_volume_name = [118, 111, 108] @ replicate 13 0,
     s_desc_size = 0\<rparr>"
  "c_string (118 # 111 # 108 # replicate 13 0) = ''vol''"
  "\<not> (2 :: u64) \<le> 1"
  "length demo_sb = 256"
  by code_simp+

lemma demo_ext4_verified:
  "\<exists>v. verifyFileDescriptor (Some (file_fd demo_ext4)) = Inr v \<and> viFormat v = RAW_EXT4
     \<and> viVolumeName v = ''vol'' \<and> viBlockSize v = 1024 \<and> viTotalBlocks v = 2 \<and> viIsValid v"
  by (simp add: verifyFileDescriptor_def demo_ext4_reads demo_ext4_fields EXT4_SUPERBLOCK_OFFSET_def
      SPARSE_MAGIC_def EXT4_SUPERBLOCK_MAGIC_def verify_ext4_def shl32_def Let_def)

lemma demo_ext4_mounts: "\<exists>r. openFilesystem (file_fd demo_ext4) = Inr (Some r)"
proof -
  obtain v where v: "verifyFileDescriptor (Some (file_fd demo_ext4)) = Inr v" "viFormat v = RAW_EXT4"
    "viBlockSize v = 1024" "viTotalBlocks v = 2" "viIsValid v"
    using demo_ext4_verified by blast
  have "sparse_create (file_fd demo_ext4) = None"
    by (simp add: sparse_create_def demo_ext4_reads demo_ext4_fields SPARSE_MAGIC_def Let_def)
  then show ?thesis
    using v by (simp add: openFilesystem_def ext4_open_def raw_iface_def raw_readBlock_def pread_block_def
        demo_ext4_reads store_prefix_def memcpy_from_def demo_ext4_fields EXT4_MAGIC_def shl32_def Let_def)
qed

theorem mount_agrees_with_verifier_witness:
  "\<exists>v r. openFilesystem (file_fd demo_ext4) = Inr (Some r) \<and> mVolumeName r = ''vol'' \<and> mBlockSize r = 1024
    \<and> verifyFileDescriptor (Some (file_fd demo_ext4)) = Inr v"
proof -
  obtain v where v: "verifyFileDescriptor (Some (file_fd demo_ext4)) = Inr v" "viFormat v = RAW_EXT4"
    "viVolumeName v = ''vol''" "viBlockSize v = 1024" "viTotalBlocks v = 2" "viIsValid v"
    using demo_ext4_verified by blast
  obtain r where r: "openFilesystem (file_fd demo_ext4) = Inr (Some r)"
    using demo_ext4_mounts by blast
  show ?thesis
    using mount_agrees_with_verifier [OF v(1,2) r] v r by auto
qed

end
