(* ===== verification/Init_Parser.thy ===== *)
theory Init_Parser
  imports Ext4_Reader
begin

text \<open>
  The init script parser of \<^verbatim>\<open>init_parser.cpp\<close>: actions and services of
  \<^verbatim>\<open>.rc\<close> scripts, the index from service names to positions, and the loading of
  the scripts of an EXT4 image. The section being parsed carries its unfinished action or service.
\<close>

record InitAction =
  trigger :: string
  commands :: "string list"

record InitService =
  svName :: string
  svBinaryPath :: string
  svArgs :: "string list"
  svClasses :: "string list"
  svUser :: string
  svGroups :: "string list"
  svIsCritical :: bool
  svIsDisabled :: bool
  svEnvVars :: "(string \<times> string) list"
  svStatus :: string
  svPid :: int

definition new_action :: InitAction where
  "new_action = \<lparr>trigger = [], commands = []\<rparr>"

definition new_service :: InitService where
  "new_service = \<lparr>svName = [], svBinaryPath = [], svArgs = [], svClasses = [], svUser = ''root'',
     svGroups = [], svIsCritical = False, svIsDisabled = False, svEnvVars = [], svStatus = ''STOPPED'',
     svPid = -1\<rparr>"

record init_parser =
  ipActions :: "InitAction list"
  ipServices :: "InitService list"
  ipIndex :: "string \<Rightarrow> nat option"

definition parser_clear :: init_parser where
  "parser_clear = \<lparr>ipActions = [], ipServices = [], ipIndex = \<lambda>n. None\<rparr>"

definition findServiceIndex :: "init_parser \<Rightarrow> string \<Rightarrow> nat option" where
  "findServiceIndex p nm =
     (case ipIndex p nm of Some i \<Rightarrow> if i < length (ipServices p) then Some i else None | None \<Rightarrow> None)"

definition findService :: "init_parser \<Rightarrow> string \<Rightarrow> InitService option" where
  "findService p nm = map_option (\<lambda>i. ipServices p ! i) (findServiceIndex p nm)"

definition updateService :: "init_parser \<Rightarrow> string \<Rightarrow> (InitService \<Rightarrow> InitService) \<Rightarrow> init_parser" where
  "updateService p nm f =
     (case findServiceIndex p nm of
        Some i \<Rightarrow> p\<lparr>ipServices := (ipServices p)[i := f (ipServices p ! i)]\<rparr> | None \<Rightarrow> p)"

definition addService :: "init_parser \<Rightarrow> InitService \<Rightarrow> init_parser" where
  "addService p s =
     (if ipIndex p (svName s) = None
      then p\<lparr>ipIndex := (ipIndex p)(svName s \<mapsto> length (ipServices p)), ipServices := ipServices p @ [s]\<rparr>
      else p)"

section \<open>Parsing\<close>

datatype cur_section = SecNone | SecAction InitAction | SecService InitService

fun finishCurrentSection :: "init_parser \<Rightarrow> cur_section \<Rightarrow> init_parser" where
  "finishCurrentSection p SecNone = p"
| "finishCurrentSection p (SecAction a) =
     (if trigger a \<noteq> [] then p\<lparr>ipActions := ipActions p @ [a]\<rparr> else p)"
| "finishCurrentSection p (SecService s) = (if svName s \<noteq> [] then addService p s else p)"

definition service_header :: "string list \<Rightarrow> InitService" where
  "service_header tokens = new_service\<lparr>svName := tokens ! 1, svBinaryPath := tokens ! 2,
     svArgs := drop 3 tokens, svClasses := [''main'']\<rparr>"

definition service_line :: "InitService \<Rightarrow> string list \<Rightarrow> InitService" where
  "service_line s tokens =
     (let first = hd tokens; n = length tokens in
      if first = ''class'' \<and> n \<ge> 2 then s\<lparr>svClasses := tl tokens\<rparr>
      else if first = ''user'' \<and> n \<ge> 2 then s\<lparr>svUser := tokens ! 1\<rparr>
      else if first = ''group'' \<and> n \<ge> 2 then s\<lparr>svGroups := svGroups s @ tl tokens\<rparr>
      else if first = ''critical'' then s\<lparr>svIsCritical := True\<rparr>
      else if first = ''disabled'' then s\<lparr>svIsDisabled := True\<rparr>
      else if first = ''setenv'' \<and> n \<ge> 3 then s\<lparr>svEnvVars := svEnvVars s @ [(tokens ! 1, tokens ! 2)]\<rparr>
      else s)"

fun section_line :: "cur_section \<Rightarrow> string \<Rightarrow> string list \<Rightarrow> cur_section" where
  "section_line SecNone t tokens = SecNone"
| "section_line (SecAction a) t tokens = SecAction (a\<lparr>commands := commands a @ [t]\<rparr>)"
| "section_line (SecService s) t tokens = SecService (service_line s tokens)"

definition parse_line :: "init_parser \<times> cur_section \<Rightarrow> string \<Rightarrow> init_parser \<times> cur_section" where
  "parse_line ps rawLine =
     (let p = fst ps; sec = snd ps; trimmed = trim rawLine in
      if trimmed = [] \<or> hd trimmed = CHR ''#'' then ps
      else let tokens = split_tokens trimmed in
        if tokens = [] then ps
        else if hd tokens = ''on'' \<and> length tokens \<ge> 2
        then (finishCurrentSection p sec, SecAction (new_action\<lparr>trigger := tokens ! 1\<rparr>))
        else if hd tokens = ''service'' \<and> length tokens \<ge> 3
        then (finishCurrentSection p sec, SecService (service_header tokens))
        else (p, section_line sec trimmed tokens))"

definition parseScriptContent :: "init_parser \<Rightarrow> string \<Rightarrow> init_parser" where
  "parseScriptContent p content =
     (case foldl parse_line (p, SecNone) (getlines nl content) of
        (p', sec) \<Rightarrow> finishCurrentSection p' sec)"

section \<open>Loading from an image\<close>

definition is_rc_file :: "FsFileEntry \<Rightarrow> bool" where
  "is_rc_file e \<longleftrightarrow> \<not> feIsDirectory e \<and> length (feName e) > 3
     \<and> drop (length (feName e) - 3) (feName e) = ''.rc''"

fun load_scripts :: "reader \<Rightarrow> nat \<Rightarrow> init_parser \<Rightarrow> FsFileEntry list \<Rightarrow> fault + init_parser" where
  "load_scripts r stk p [] = Inr p"
| "load_scripts r stk p (e # es) =
     (if is_rc_file e
      then bnd (readFileString r stk (fePath e)) (\<lambda>t.
             load_scripts r stk (case t of Some c \<Rightarrow> parseScriptContent p c | None \<Rightarrow> p) es)
      else load_scripts r stk p es)"

definition core_service :: "string \<Rightarrow> string \<Rightarrow> string \<Rightarrow> string \<Rightarrow> InitService" where
  "core_service nm pth cls usr = new_service\<lparr>svName := nm, svBinaryPath := pth, svClasses := [cls],
     svUser := usr, svStatus := ''STOPPED''\<rparr>"

definition core_services :: "InitService list" where
  "core_services =
     [core_service ''servicemanager'' ''/system/bin/servicemanager'' ''core'' ''system'',
      core_service ''surfaceflinger'' ''/system/bin/surfaceflinger'' ''core'' ''system'',
      core_service ''logd'' ''/system/bin/logd'' ''core'' ''logd'',
      core_service ''vold'' ''/system/bin/vold'' ''core'' ''root'',
      core_service ''sh'' ''/system/bin/sh'' ''main'' ''root'']"

definition loadFromVfs :: "reader \<Rightarrow> nat \<Rightarrow> fault + (nat \<times> init_parser)" where
  "loadFromVfs r stk =
     bnd (readFileString r stk ''/init.rc'') (\<lambda>root.
     let p = (case root of Some c \<Rightarrow> parseScriptContent parser_clear c | None \<Rightarrow> parser_clear) in
     bnd (listDirectory r stk ''/system/etc/init'') (\<lambda>entries.
     bnd (case entries of Some es \<Rightarrow> load_scripts r stk p es | None \<Rightarrow> Inr p) (\<lambda>p.
     let p = foldl addService p core_services in Inr (length (ipServices p), p))))"

section \<open>The index and the services\<close>

text \<open>
  The invariant of the parser: the index holds exactly the names of the services, each at its own
  position, and every service is named, has a class, and is stopped.
\<close>

definition index_ok :: "init_parser \<Rightarrow> bool" where
  "index_ok p \<longleftrightarrow> (\<forall>nm i. ipIndex p nm = Some i \<longleftrightarrow> i < length (ipServices p) \<and> svName (ipServices p ! i) = nm)"

definition fresh_service :: "InitService \<Rightarrow> bool" where
  "fresh_service s \<longleftrightarrow> svName s \<noteq> [] \<and> svClasses s \<noteq> [] \<and> svStatus s = ''STOPPED'' \<and> svPid s = -1"

definition parser_ok :: "init_parser \<Rightarrow> bool" where
  "parser_ok p \<longleftrightarrow> index_ok p \<and> (\<forall>s \<in> set (ipServices p). fresh_service s)"

fun section_ok :: "cur_section \<Rightarrow> bool" where
  "section_ok (SecService s) = (svClasses s \<noteq> [] \<and> svStatus s = ''STOPPED'' \<and> svPid s = -1)"
| "section_ok _ = True"

lemma index_ok_distinct:
  assumes "index_ok p"
  shows "distinct (map svName (ipServices p))"
  unfolding distinct_conv_nth using assms
  by (auto simp: index_ok_def) (metis option.inject)

lemma addService_index:
  assumes "index_ok p"
  shows "index_ok (addService p s)"
proof (cases "ipIndex p (svName s)")
  case None
  have old: "ipIndex p nm = Some i \<longleftrightarrow> i < length (ipServices p) \<and> svName (ipServices p ! i) = nm" for nm i
    using assms by (simp add: index_ok_def)
  have fresh: "svName (ipServices p ! i) \<noteq> svName s" if "i < length (ipServices p)" for i
    using old [of "svName s" i] None that by auto
  show ?thesis
    using None fresh by (auto simp: index_ok_def addService_def nth_append old less_Suc_eq)
next
  case (Some j)
  then show ?thesis using assms by (simp add: addService_def)
qed

lemma addService_ok: "parser_ok p \<Longrightarrow> fresh_service s \<Longrightarrow> parser_ok (addService p s)"
  using addService_index [of p s] by (auto simp: parser_ok_def addService_def)

lemma finish_ok:
  assumes "parser_ok p" "section_ok sec"
  shows "parser_ok (finishCurrentSection p sec)"
proof (cases sec)
  case (SecService s)
  then show ?thesis
    using assms addService_ok [OF assms(1), of s] by (simp add: fresh_service_def)
next
  case (SecAction a)
  then show ?thesis
    using assms by (simp add: parser_ok_def index_ok_def)
qed (use assms in simp)

lemma parse_line_ok:
  assumes "parser_ok p" "section_ok sec"
  shows "parser_ok (fst (parse_line (p, sec) l)) \<and> section_ok (snd (parse_line (p, sec) l))"
proof -
  have "section_ok (section_line sec t tokens)" for t tokens
    using assms(2) by (cases sec) (auto simp: service_line_def Let_def neq_Nil_conv length_Suc_conv numeral_2_eq_2
        Suc_le_length_iff)
  moreover have "section_ok (SecService (service_header tokens))" for tokens
    by (simp add: service_header_def new_service_def)
  ultimately show ?thesis
    using assms finish_ok [OF assms] by (auto simp: parse_line_def Let_def)
qed

lemma parse_lines_ok:
  "parser_ok (fst ps) \<Longrightarrow> section_ok (snd ps) \<Longrightarrow>
   parser_ok (fst (foldl parse_line ps ls)) \<and> section_ok (snd (foldl parse_line ps ls))"
proof (induction ls arbitrary: ps)
  case (Cons l ls)
  then show ?case
    using parse_line_ok [of "fst ps" "snd ps" l] by simp
qed simp

lemma parseScriptContent_ok: "parser_ok p \<Longrightarrow> parser_ok (parseScriptContent p content)"
  using parse_lines_ok [of "(p, SecNone)" "getlines nl content"]
  by (auto simp: parseScriptContent_def finish_ok split: prod.splits)

lemma load_scripts_ok: "parser_ok p \<Longrightarrow> load_scripts r stk p es = Inr p' \<Longrightarrow> parser_ok p'"
proof (induction es arbitrary: p)
  case (Cons e es)
  show ?case
  proof (cases "is_rc_file e")
    case True
    then obtain t where "load_scripts r stk (case t of Some c \<Rightarrow> parseScriptContent p c | None \<Rightarrow> p) es = Inr p'"
      using Cons.prems(2) by (auto simp: bnd_Inr_iff)
    moreover have "parser_ok (case t of Some c \<Rightarrow> parseScriptContent p c | None \<Rightarrow> p)"
      using Cons.prems(1) by (simp add: parseScriptContent_ok split: option.splits)
    ultimately show ?thesis
      by (rule Cons.IH [rotated])
  next
    case False
    then show ?thesis using Cons by simp
  qed
qed simp

lemma core_services_ok: "parser_ok p \<Longrightarrow> \<forall>s \<in> set ss. fresh_service s \<Longrightarrow> parser_ok (foldl addService p ss)"
  by (induction ss arbitrary: p) (simp_all add: addService_ok)

lemma addService_found: "index_ok p \<Longrightarrow> ipIndex (addService p s) (svName s) \<noteq> None"
  by (simp add: addService_def)

lemma addService_keeps: "ipIndex p nm \<noteq> None \<Longrightarrow> ipIndex (addService p s) nm \<noteq> None"
  by (auto simp: addService_def)

lemma addServices_found:
  "index_ok p \<Longrightarrow> ipIndex p nm \<noteq> None \<or> nm \<in> svName ` set ss \<Longrightarrow> ipIndex (foldl addService p ss) nm \<noteq> None"
proof (induction ss arbitrary: p)
  case (Cons s ss)
  have "ipIndex (addService p s) nm \<noteq> None \<or> nm \<in> svName ` set ss"
    using Cons.prems addService_found [OF Cons.prems(1), of s] addService_keeps [of p nm s] by auto
  then show ?case
    using Cons.IH [OF addService_index [OF Cons.prems(1)]] by simp
qed simp

lemma parser_clear_ok: "parser_ok parser_clear"
  by (simp add: parser_ok_def index_ok_def parser_clear_def)

lemma parser_loaded:
  assumes "loadFromVfs r stk = Inr (n, p)"
  shows "parser_ok p \<and> n = length (ipServices p) \<and> (\<exists>q. parser_ok q \<and> p = foldl addService q core_services)"
proof -
  obtain root entries q where
    q0: "(case entries of
        Some es \<Rightarrow> load_scripts r stk (case root of Some c \<Rightarrow> parseScriptContent parser_clear c | None \<Rightarrow> parser_clear) es
      | None \<Rightarrow> Inr (case root of Some c \<Rightarrow> parseScriptContent parser_clear c | None \<Rightarrow> parser_clear)) = Inr q"
    and p_def: "p = foldl addService q core_services" and n: "n = length (ipServices p)"
    using assms unfolding loadFromVfs_def Let_def by (auto simp: bnd_Inr_iff)
  have "parser_ok (case root of Some c \<Rightarrow> parseScriptContent parser_clear c | None \<Rightarrow> parser_clear)"
    by (simp add: parser_clear_ok parseScriptContent_ok split: option.splits)
  then have q: "parser_ok q"
    using q0 load_scripts_ok by (auto split: option.splits)
  moreover have "\<forall>s \<in> set core_services. fresh_service s"
    by (simp add: core_services_def core_service_def fresh_service_def new_service_def)
  ultimately show ?thesis
    using n p_def core_services_ok by blast
qed

lemma demo_load:
  "loadFromVfs demo_reader 1 =
     Inr (length (ipServices (foldl addService parser_clear core_services)), foldl addService parser_clear core_services)"
proof -
  have root: "readFileDataByInode demo_reader 1 2 = Inr (Some (concat (map encode_item demo_root_items)))"
    by (rule demo_root_read)
  have miss: "findChildInode demo_reader 1 2 nm = Inr 0" if "nm \<noteq> ''f''" "nm \<noteq> ''d''" "nm \<noteq> ''.''" for nm
  proof -
    have "first_match demo_root_items nm = 0"
      using that by (simp add: demo_root_items_def)
    then have "dir_find (concat (map encode_item demo_root_items)) nm 0 = Inr 0"
      using dir_find_items [of demo_root_items "[]" nm] demo_root_items_ok by simp
    then show ?thesis
      unfolding findChildInode_def root by simp
  qed
  have paths: "getlines (CHR ''/'') ''/init.rc'' = [[], ''init.rc'']"
    "getlines (CHR ''/'') ''/system/etc/init'' = [[], ''system'', ''etc'', ''init'']"
    by code_simp+
  have "readFileString demo_reader 1 ''/init.rc'' = Inr None"
    using miss by (simp add: readFileString_def readFile_def resolvePath_def EXT4_ROOT_INO_def paths)
  moreover have "listDirectory demo_reader 1 ''/system/etc/init'' = Inr None"
    using miss by (simp add: listDirectory_def resolvePath_def EXT4_ROOT_INO_def paths)
  ultimately show ?thesis
    by (simp add: loadFromVfs_def Let_def)
qed

text \<open>C19: Whatever scripts an image holds, loading them gives a parser whose index and services agree:
  names are distinct, every lookup finds the service of that name, every service has a class and is
  stopped without a process, and the five core services are there.\<close>

theorem loadFromVfs_parser_ok:
  assumes "loadFromVfs r stk = Inr (n, p)"
  shows "parser_ok p \<and> n = length (ipServices p) \<and> distinct (map svName (ipServices p))
    \<and> (\<forall>nm \<in> {''servicemanager'', ''surfaceflinger'', ''logd'', ''vold'', ''sh''}.
         \<exists>s. findService p nm = Some s \<and> svName s = nm)"
proof -
  obtain q where p: "parser_ok p" "n = length (ipServices p)" and q: "parser_ok q" "p = foldl addService q core_services"
    using parser_loaded [OF assms] by blast
  from p have ix: "index_ok p"
    by (simp add: parser_ok_def)
  have names: "svName ` set core_services = {''servicemanager'', ''surfaceflinger'', ''logd'', ''vold'', ''sh''}"
    by (simp add: core_services_def core_service_def)
  have "\<exists>s. findService p nm = Some s \<and> svName s = nm" if "nm \<in> svName ` set core_services" for nm
  proof -
    have "ipIndex p nm \<noteq> None"
      using addServices_found [of q nm core_services] q that by (simp add: parser_ok_def)
    then obtain i where i: "ipIndex p nm = Some i" by blast
    then have "i < length (ipServices p)" "svName (ipServices p ! i) = nm"
      using ix by (simp_all add: index_ok_def)
    then show ?thesis
      using i by (simp add: findService_def findServiceIndex_def)
  qed
  then show ?thesis
    using p index_ok_distinct [OF ix] names by auto
qed

theorem loadFromVfs_parser_ok_witness:
  "\<exists>n p s. loadFromVfs demo_reader 1 = Inr (n, p) \<and> findService p ''vold'' = Some s \<and> svName s = ''vold''"
  using demo_load loadFromVfs_parser_ok [OF demo_load] by auto

end
