(* ===== verification/Host_Files.thy ===== *)
theory Host_Files
  imports Prelude
begin

text \<open>
  The part of the host file system the native code touches through \<^verbatim>\<open>stat\<close>,
  \<^verbatim>\<open>mkdir\<close>, \<^verbatim>\<open>open\<close>/\<^verbatim>\<open>write\<close>,
  \<^verbatim>\<open>chmod\<close>, \<^verbatim>\<open>unlink\<close> and \<^verbatim>\<open>bind\<close>: a
  map from path strings to nodes. \<open>hDenied\<close> is a parameter of the host, the paths it refuses to
  create or open for writing; a write to an opened file is complete.
\<close>

datatype node = Dir nat | File nat string | Sock nat

record host =
  hNodes :: "string \<Rightarrow> node option"
  hDenied :: "string \<Rightarrow> bool"

fun is_dir :: "node option \<Rightarrow> bool" where
  "is_dir (Some (Dir m)) = True"
| "is_dir _ = False"

definition host_exists :: "host \<Rightarrow> string \<Rightarrow> bool" where
  "host_exists h p \<longleftrightarrow> hNodes h p \<noteq> None"

definition set_node :: "host \<Rightarrow> string \<Rightarrow> node option \<Rightarrow> host" where
  "set_node h p n = h\<lparr>hNodes := (hNodes h)(p := n)\<rparr>"

definition host_mkdir :: "host \<Rightarrow> string \<Rightarrow> nat \<Rightarrow> host \<times> bool" where
  "host_mkdir h p mode =
     (if hDenied h p \<or> host_exists h p then (h, False) else (set_node h p (Some (Dir mode)), True))"

text \<open>
  \<^verbatim>\<open>open(p, O_WRONLY | O_CREAT | O_TRUNC, mode)\<close> and one \<^verbatim>\<open>write\<close>; the
  flag tells whether the descriptor was valid.
\<close>

definition host_write :: "host \<Rightarrow> string \<Rightarrow> nat \<Rightarrow> string \<Rightarrow> host \<times> bool" where
  "host_write h p mode content =
     (case hNodes h p of
        None \<Rightarrow> if hDenied h p then (h, False) else (set_node h p (Some (File mode content)), True)
      | Some (File m old) \<Rightarrow>
          if hDenied h p then (h, False) else (set_node h p (Some (File m content)), True)
      | Some _ \<Rightarrow> (h, False))"

definition host_chmod :: "host \<Rightarrow> string \<Rightarrow> nat \<Rightarrow> host" where
  "host_chmod h p mode =
     (case hNodes h p of
        None \<Rightarrow> h
      | Some (Dir m) \<Rightarrow> set_node h p (Some (Dir mode))
      | Some (File m c) \<Rightarrow> set_node h p (Some (File mode c))
      | Some (Sock m) \<Rightarrow> set_node h p (Some (Sock mode)))"

definition host_unlink :: "host \<Rightarrow> string \<Rightarrow> host" where
  "host_unlink h p = (if is_dir (hNodes h p) then h else set_node h p None)"

text \<open>A socket bound to a path; \<^verbatim>\<open>strncpy\<close> cut the address at 107 bytes.\<close>

definition bind_node :: "host \<Rightarrow> string \<Rightarrow> host" where
  "bind_node h p = set_node h (take 107 p) (Some (Sock 511))"

definition file_content :: "host \<Rightarrow> string \<Rightarrow> string option" where
  "file_content h p = (case hNodes h p of Some (File m c) \<Rightarrow> Some c | _ \<Rightarrow> None)"

lemma hNodes_set_node [simp]: "hNodes (set_node h p n) q = (if q = p then n else hNodes h q)"
  by (simp add: set_node_def)

lemma hDenied_set_node [simp]: "hDenied (set_node h p n) = hDenied h"
  by (simp add: set_node_def)

lemma file_content_set_node [simp]:
  "file_content (set_node h p n) q =
   (if q = p then (case n of Some (File m c) \<Rightarrow> Some c | _ \<Rightarrow> None) else file_content h q)"
  by (simp add: file_content_def)

text \<open>A path is writable when it is not refused and no directory or socket stands there.\<close>

text \<open>The checks of \<^verbatim>\<open>access\<close> for the owner of a file.\<close>

fun node_mode :: "node \<Rightarrow> nat" where
  "node_mode (Dir m) = m"
| "node_mode (File m c) = m"
| "node_mode (Sock m) = m"

definition may_read :: "host \<Rightarrow> string \<Rightarrow> bool" where
  "may_read h p \<longleftrightarrow> (case hNodes h p of Some n \<Rightarrow> node_mode n div 256 mod 2 = 1 | None \<Rightarrow> False)"

definition may_execute :: "host \<Rightarrow> string \<Rightarrow> bool" where
  "may_execute h p \<longleftrightarrow> (case hNodes h p of Some n \<Rightarrow> node_mode n div 64 mod 2 = 1 | None \<Rightarrow> False)"

definition writable :: "host \<Rightarrow> string \<Rightarrow> bool" where
  "writable h p \<longleftrightarrow> \<not> hDenied h p \<and> (case hNodes h p of None \<Rightarrow> True | Some (File m c) \<Rightarrow> True | _ \<Rightarrow> False)"

lemma host_write_ok:
  "writable h p \<Longrightarrow> snd (host_write h p m c) \<and> file_content (fst (host_write h p m c)) p = Some c"
  by (auto simp: writable_def host_write_def split: option.splits node.splits)

lemma host_write_writable [simp]: "writable (fst (host_write h p m c)) q = writable h q"
  by (auto simp: writable_def host_write_def split: option.splits node.splits)

lemma host_write_other:
  "q \<noteq> p \<Longrightarrow> hNodes (fst (host_write h p m c)) q = hNodes h q"
  by (auto simp: host_write_def split: option.splits node.splits)

end
