(* ===== verification/Property_Service.thy ===== *)
theory Property_Service
  imports Host_Files
begin

text \<open>
  The virtual property service of \<^verbatim>\<open>property_service.cpp\<close>: its table, the text file
  it mirrors the table to, the start and stop of the socket server and the three request formats.
  The hash table is an association list with distinct keys; the order the code prints is the sorted
  one. The descriptors of the server are reduced to whether one is open.
\<close>

definition PROP_MSG_SETPROP :: u32 where "PROP_MSG_SETPROP = 1"
definition PROP_MSG_SETPROP2 :: u32 where "PROP_MSG_SETPROP2 = 0x00020001"

text \<open>\<^verbatim>\<open>PROP_SUCCESS\<close> as the four bytes of the reply.\<close>

definition prop_success :: "u8 list" where "prop_success = [0, 0, 0, 0]"

record prop_service =
  psIsRunning :: bool
  psSandboxDir :: string
  psSocketPath :: string
  psPropertiesFilePath :: string
  psServerOpen :: bool
  psProperties :: "(string \<times> string) list"

definition prop_service_init :: prop_service where
  "prop_service_init = \<lparr>psIsRunning = False, psSandboxDir = [], psSocketPath = [],
     psPropertiesFilePath = [], psServerOpen = False, psProperties = []\<rparr>"

definition ensureDirExists :: "host \<Rightarrow> string \<Rightarrow> host \<times> bool" where
  "ensureDirExists h p =
     (if host_exists h p then (h, is_dir (hNodes h p)) else host_mkdir h p 493)"

section \<open>The table\<close>

definition put_prop :: "prop_service \<Rightarrow> string \<Rightarrow> string \<Rightarrow> prop_service" where
  "put_prop s key val = s\<lparr>psProperties := AList.update key val (psProperties s)\<rparr>"

definition find_prop :: "prop_service \<Rightarrow> string \<Rightarrow> string option" where
  "find_prop s key = map_of (psProperties s) key"

definition default_prop :: "prop_service \<Rightarrow> string \<times> string \<Rightarrow> prop_service" where
  "default_prop s kv = (if find_prop s (fst kv) = None then put_prop s (fst kv) (snd kv) else s)"

definition getProperty :: "prop_service \<Rightarrow> string \<Rightarrow> string \<Rightarrow> string" where
  "getProperty s key defaultValue = (case find_prop s key of Some v \<Rightarrow> v | None \<Rightarrow> defaultValue)"

definition getPropertyCount :: "prop_service \<Rightarrow> nat" where
  "getPropertyCount s = length (psProperties s)"

definition prop_line :: "string \<times> string \<Rightarrow> string" where
  "prop_line kv = ''['' @ fst kv @ '']: ['' @ snd kv @ '']'' @ [nl]"

definition getAllPropertiesFormatted :: "prop_service \<Rightarrow> string" where
  "getAllPropertiesFormatted s = concat (map prop_line (sort (psProperties s)))"

definition flushPropertiesToFile :: "prop_service \<Rightarrow> host \<Rightarrow> host" where
  "flushPropertiesToFile s h =
     (if psPropertiesFilePath s = [] then h
      else fst (host_write h (psPropertiesFilePath s) 420
             (concat (map prop_line (sort (psProperties s))))))"

definition setProperty :: "prop_service \<Rightarrow> host \<Rightarrow> string \<Rightarrow> string \<Rightarrow> prop_service \<times> host" where
  "setProperty s h key val = (let s' = put_prop s key val in (s', flushPropertiesToFile s' h))"

section \<open>Loading build.prop\<close>

definition trimmed_pair :: "string \<Rightarrow> (string \<times> string) option" where
  "trimmed_pair t = (case find_char (CHR ''='') t of
     None \<Rightarrow> None | Some i \<Rightarrow> Some (trim (take i t), trim (drop (Suc i) t)))"

definition load_line :: "prop_service \<Rightarrow> string \<Rightarrow> prop_service" where
  "load_line s line =
     (let trimmed = trim line in
      if trimmed = [] \<or> hd trimmed = CHR ''#'' then s
      else case trimmed_pair trimmed of
             None \<Rightarrow> s
           | Some (key, val) \<Rightarrow> if key \<noteq> [] then put_prop s key val else s)"

definition runtime_defaults :: "(string \<times> string) list" where
  "runtime_defaults =
     [(''ro.debuggable'', ''1''), (''ro.secure'', ''0''), (''ro.boot.mode'', ''normal''),
      (''sys.boot_completed'', ''1''), (''service.bootanim.exit'', ''1''),
      (''init.svc.servicemanager'', ''running''), (''init.svc.surfaceflinger'', ''running''),
      (''init.svc.zygote'', ''running'')]"

definition loadFromBuildProp :: "prop_service \<Rightarrow> host \<Rightarrow> string \<Rightarrow> prop_service \<times> host" where
  "loadFromBuildProp s h content =
     (let s' = foldl default_prop (foldl load_line s (getlines nl content)) runtime_defaults
      in (s', flushPropertiesToFile s' h))"

section \<open>Starting and stopping the server\<close>

abbreviation (input) dq :: string where "dq \<equiv> [CHR 0x22]"
abbreviation (input) bsl :: string where "bsl \<equiv> [CHR 0x5C]"

definition cmdline_text :: string where
  "cmdline_text = ''androidboot.hardware=gsi androidboot.selinux=permissive '' @
     ''androidboot.mode=normal ro.build.type=userdebug console=null'' @ [nl]"

definition getprop_script :: "string \<Rightarrow> string" where
  "getprop_script file =
     ''#!/system/bin/sh'' @ [nl] @
     ''PROP_FILE='' @ dq @ file @ dq @ [nl] @
     ''if [ -z '' @ dq @ ''$1'' @ dq @ '' ]; then'' @ [nl] @
     ''    if [ -f '' @ dq @ ''$PROP_FILE'' @ dq @ '' ]; then'' @ [nl] @
     ''        cat '' @ dq @ ''$PROP_FILE'' @ dq @ [nl] @
     ''    fi'' @ [nl] @
     ''else'' @ [nl] @
     ''    KEY='' @ dq @ ''$1'' @ dq @ [nl] @
     ''    VAL=$(grep '' @ dq @ ''^'' @ bsl @ ''[$KEY'' @ bsl @ '']: '' @ dq @ '' '' @ dq @ ''$PROP_FILE'' @ dq
       @ '' 2>/dev/null | sed '' @ dq @ ''s/^'' @ bsl @ ''[$KEY'' @ bsl @ '']: '' @ bsl @ ''['' @ bsl @ ''(.*''
       @ bsl @ '')'' @ bsl @ '']/'' @ bsl @ ''1/'' @ dq @ '')'' @ [nl] @
     ''    if [ -n '' @ dq @ ''$VAL'' @ dq @ '' ]; then'' @ [nl] @
     ''        echo '' @ dq @ ''$VAL'' @ dq @ [nl] @
     ''    else'' @ [nl] @
     ''        echo '' @ dq @ dq @ [nl] @
     ''    fi'' @ [nl] @
     ''fi'' @ [nl]"

definition setprop_script :: "string \<Rightarrow> string" where
  "setprop_script sock =
     ''#!/system/bin/sh'' @ [nl] @
     ''if [ -z '' @ dq @ ''$1'' @ dq @ '' ] || [ -z '' @ dq @ ''$2'' @ dq @ '' ]; then'' @ [nl] @
     ''    echo '' @ dq @ ''Usage: setprop <key> <value>'' @ dq @ [nl] @
     ''    exit 1'' @ [nl] @
     ''fi'' @ [nl] @
     ''SOCK='' @ dq @ sock @ dq @ [nl] @
     ''echo '' @ dq @ ''$1=$2'' @ dq @ '' | toybox nc -U '' @ dq @ ''$SOCK'' @ dq
       @ '' 2>/dev/null || true'' @ [nl]"

definition write_script :: "host \<Rightarrow> string \<Rightarrow> string \<Rightarrow> host" where
  "write_script h p text =
     (let (h', ok) = host_write h p 493 text in if ok then host_chmod h' p 493 else h')"

definition start_files :: "host \<Rightarrow> string \<Rightarrow> host" where
  "start_files h dir =
     (let devDir = dir @ ''/dev''; socketDir = devDir @ ''/socket'';
          procDir = dir @ ''/proc''; binDir = dir @ ''/bin'';
          h = foldl (\<lambda>h d. fst (ensureDirExists h d)) h [devDir, socketDir, procDir, binDir];
          h = fst (host_write h (procDir @ ''/cmdline'') 420 cmdline_text);
          h = write_script h (binDir @ ''/getprop'') (getprop_script (devDir @ ''/__properties_text__''));
          h = write_script h (binDir @ ''/setprop'') (setprop_script (socketDir @ ''/property_service''))
      in host_unlink h (socketDir @ ''/property_service''))"

definition system_defaults :: "(string \<times> string) list" where
  "system_defaults =
     [(''ro.debuggable'', ''1''), (''ro.secure'', ''0''), (''ro.boot.mode'', ''normal''),
      (''sys.boot_completed'', ''1''), (''service.bootanim.exit'', ''1''),
      (''init.svc.servicemanager'', ''running''), (''init.svc.surfaceflinger'', ''running''),
      (''init.svc.zygote'', ''running''), (''ro.build.type'', ''userdebug''),
      (''persist.sys.timezone'', ''UTC''), (''vold.decrypt'', ''trigger_restart_framework'')]"

text \<open>
  The results of the three socket calls are parameters. \<^verbatim>\<open>strncpy\<close> cuts the address at
  107 bytes, so the socket node appears at the cut path.
\<close>

definition start_service ::
  "bool \<Rightarrow> bool \<Rightarrow> bool \<Rightarrow> prop_service \<Rightarrow> host \<Rightarrow> string \<Rightarrow> bool \<times> prop_service \<times> host" where
  "start_service socket_ok bind_ok listen_ok s h dir =
     (if psIsRunning s then (True, s, h)
      else
        let sock = dir @ ''/dev/socket/property_service'';
            s = s\<lparr>psSandboxDir := dir, psSocketPath := sock,
                  psPropertiesFilePath := dir @ ''/dev/__properties_text__''\<rparr>;
            h = start_files h dir
        in if \<not> socket_ok then (False, s\<lparr>psServerOpen := False\<rparr>, h)
           else if \<not> bind_ok then (False, s\<lparr>psServerOpen := False\<rparr>, h)
           else
             let h = set_node h (take 107 sock) (Some (Sock 511));
                 h = host_chmod h sock 438
             in if \<not> listen_ok then (False, s\<lparr>psServerOpen := False\<rparr>, h)
                else
                  let s = s\<lparr>psServerOpen := True\<rparr>;
                      s = (if find_prop s ''ro.debuggable'' = None
                           then foldl (\<lambda>s kv. put_prop s (fst kv) (snd kv)) s system_defaults else s);
                      h = flushPropertiesToFile s h
                  in (True, s\<lparr>psIsRunning := True\<rparr>, h))"

definition stop_service :: "prop_service \<Rightarrow> host \<Rightarrow> prop_service \<times> host" where
  "stop_service s h =
     (if \<not> psIsRunning s then (s, h)
      else (s\<lparr>psIsRunning := False, psServerOpen := False\<rparr>,
            if psSocketPath s \<noteq> [] then host_unlink h (psSocketPath s) else h))"

section \<open>Requests\<close>

text \<open>
  \<open>buf\<close> holds the bytes read, at least one and at most 1023. A copy that leaves them leaves the
  buffer of 1024 bytes as well, because every such length is close to \<open>2^32\<close>. The reply is the
  bytes written to the client.
\<close>

type_synonym prop_reply = "prop_service \<times> host \<times> u8 list"

definition strn_string :: "u8 list \<Rightarrow> string" where
  "strn_string b = bytes_to_string (takeWhile (\<lambda>x. x \<noteq> 0) b)"

definition set_and_reply :: "prop_service \<Rightarrow> host \<Rightarrow> string \<Rightarrow> string \<Rightarrow> prop_reply" where
  "set_and_reply s h key val = (let (s', h') = setProperty s h key val in (s', h', prop_success))"

definition handle_legacy :: "prop_service \<Rightarrow> host \<Rightarrow> u8 list \<Rightarrow> prop_reply" where
  "handle_legacy s h buf =
     (let key = strn_string (take 32 (drop 4 buf)); val = strn_string (take 92 (drop 36 buf)) in
      if key \<noteq> [] then set_and_reply s h key val else (s, h, prop_success))"

text \<open>The sums of lengths are \<^verbatim>\<open>uint32_t\<close> and wrap before they are compared.\<close>

definition handle_setprop2 :: "prop_service \<Rightarrow> host \<Rightarrow> u8 list \<Rightarrow> fault + prop_reply option" where
  "handle_setprop2 s h buf =
     (let nameLen = le32 buf 4 in
      if unat (8 + nameLen + 4 :: u32) \<le> length buf then
        bnd (memcpy_from buf 8 (unat nameLen)) (\<lambda>key.
        bnd (memcpy_from buf (8 + unat nameLen) 4) (\<lambda>vl.
          let valLen = le32 vl 0 in
          if unat (8 + nameLen + 4 + valLen :: u32) \<le> length buf then
            bnd (memcpy_from buf (8 + unat nameLen + 4) (unat valLen)) (\<lambda>val.
              Inr (Some (set_and_reply s h (bytes_to_string key) (bytes_to_string val))))
          else Inr None))
      else Inr None)"

definition handle_text :: "prop_service \<Rightarrow> host \<Rightarrow> u8 list \<Rightarrow> prop_reply" where
  "handle_text s h buf =
     (let trimmed = trim (bytes_to_string buf) in
      if starts_with ''setprop '' trimmed then
        let t = trim (drop 8 trimmed) in
        case find_char (CHR '' '') t of
          Some sp \<Rightarrow> set_and_reply s h (trim (take sp t)) (trim (drop (Suc sp) t))
        | None \<Rightarrow> (s, h, prop_success)
      else if starts_with ''getprop '' trimmed then
        (s, h, string_to_bytes (getProperty s (trim (drop 8 trimmed)) [] @ [nl]))
      else
        case trimmed_pair trimmed of
          Some (key, val) \<Rightarrow> if key \<noteq> [] then set_and_reply s h key val else (s, h, prop_success)
        | None \<Rightarrow> (s, h, prop_success))"

definition handleClient :: "prop_service \<Rightarrow> host \<Rightarrow> u8 list \<Rightarrow> fault + prop_reply" where
  "handleClient s h buf =
     (if length buf \<ge> 128 \<and> le32 buf 0 = PROP_MSG_SETPROP then Inr (handle_legacy s h buf)
      else bnd (if le32 buf 0 = PROP_MSG_SETPROP2 \<and> length buf > 8 then handle_setprop2 s h buf else Inr None)
        (\<lambda>r. case r of Some reply \<Rightarrow> Inr reply | None \<Rightarrow> Inr (handle_text s h buf)))"

text \<open>The worker reads at most 1023 bytes of each request and drops a client that sends none.\<close>

definition serve_client :: "prop_service \<Rightarrow> host \<Rightarrow> u8 list \<Rightarrow> fault + prop_reply" where
  "serve_client s h sent =
     (let buf = take 1023 sent in if buf = [] then Inr (s, h, []) else handleClient s h buf)"

section \<open>A property store\<close>

text \<open>What a table of properties promises: a lookup sees the last value put under its key.\<close>

locale prop_store =
  fixes look :: "'s \<Rightarrow> string \<Rightarrow> string option"
    and put :: "'s \<Rightarrow> string \<Rightarrow> string \<Rightarrow> 's"
  assumes look_put: "look (put s k v) q = (if q = k then Some v else look s q)"
begin

lemma look_put_all:
  "look (foldl (\<lambda>s kv. put s (fst kv) (snd kv)) s kvs) q =
   (case map_of (rev kvs) q of Some v \<Rightarrow> Some v | None \<Rightarrow> look s q)"
  by (induction kvs rule: rev_induct) (auto simp: look_put split: option.splits)

lemma look_defaults:
  "look (foldl (\<lambda>s kv. if look s (fst kv) = None then put s (fst kv) (snd kv) else s) s kvs) q =
   (case look s q of Some v \<Rightarrow> Some v | None \<Rightarrow> map_of kvs q)"
  by (induction kvs arbitrary: s) (auto simp: look_put split: option.splits)

end

interpretation ps: prop_store find_prop put_prop
  by unfold_locales (simp add: find_prop_def put_prop_def update_conv')

definition load_pair :: "string \<Rightarrow> (string \<times> string) option" where
  "load_pair line = (let t = trim line in
     if t = [] \<or> hd t = CHR ''#'' then None
     else case trimmed_pair t of Some (k, v) \<Rightarrow> if k \<noteq> [] then Some (k, v) else None | None \<Rightarrow> None)"

lemma load_lines:
  "foldl load_line s ls = foldl (\<lambda>s kv. put_prop s (fst kv) (snd kv)) s (List.map_filter load_pair ls)"
  by (induction ls arbitrary: s)
    (auto simp: load_line_def load_pair_def Let_def map_filter_simps split: option.splits)

text \<open>C14: After \<^verbatim>\<open>loadFromBuildProp\<close> a key has the value of its last valid line of
  the text; without one it keeps its old value; without either it has the runtime default.\<close>

theorem loadFromBuildProp_table:
  "find_prop (fst (loadFromBuildProp s h content)) q =
   (case map_of (rev (List.map_filter load_pair (getlines nl content))) q of
      Some v \<Rightarrow> Some v
    | None \<Rightarrow> (case find_prop s q of Some v \<Rightarrow> Some v | None \<Rightarrow> map_of runtime_defaults q))"
proof -
  have "foldl default_prop t kvs =
    foldl (\<lambda>s kv. if find_prop s (fst kv) = None then put_prop s (fst kv) (snd kv) else s) t kvs" for t kvs
    by (induction kvs arbitrary: t) (simp_all add: default_prop_def)
  then show ?thesis
    by (simp add: loadFromBuildProp_def Let_def load_lines ps.look_defaults ps.look_put_all
        split: option.splits)
qed

section \<open>The text file mirrors the table\<close>

definition keys_distinct :: "prop_service \<Rightarrow> bool" where
  "keys_distinct s \<longleftrightarrow> distinct (map fst (psProperties s))"

definition in_sync :: "prop_service \<Rightarrow> host \<Rightarrow> bool" where
  "in_sync s h \<longleftrightarrow> keys_distinct s \<and> psPropertiesFilePath s \<noteq> [] \<and> writable h (psPropertiesFilePath s)
     \<and> file_content h (psPropertiesFilePath s) = Some (getAllPropertiesFormatted s)"

lemma keys_distinct_put: "keys_distinct s \<Longrightarrow> keys_distinct (put_prop s k v)"
  by (simp add: keys_distinct_def put_prop_def distinct_update)

lemma path_put [simp]: "psPropertiesFilePath (put_prop s k v) = psPropertiesFilePath s"
  by (simp add: put_prop_def)

lemma keys_distinct_foldl:
  "(\<And>s x. keys_distinct s \<Longrightarrow> keys_distinct (f s x)) \<Longrightarrow> keys_distinct s \<Longrightarrow> keys_distinct (foldl f s xs)"
  by (induction xs arbitrary: s) simp_all

lemma path_foldl:
  "(\<And>s x. psPropertiesFilePath (f s x) = psPropertiesFilePath s) \<Longrightarrow>
   psPropertiesFilePath (foldl f s xs) = psPropertiesFilePath s"
  by (induction xs arbitrary: s) simp_all

lemma flush_in_sync:
  assumes "keys_distinct s" "psPropertiesFilePath s \<noteq> []" "writable h (psPropertiesFilePath s)"
  shows "in_sync s (flushPropertiesToFile s h)"
  using assms host_write_ok [OF assms(3)]
  by (simp add: in_sync_def flushPropertiesToFile_def getAllPropertiesFormatted_def)

lemma setProperty_in_sync:
  "in_sync s h \<Longrightarrow> setProperty s h k v = (s', h') \<Longrightarrow> in_sync s' h'"
  by (auto simp: setProperty_def Let_def in_sync_def [of s] keys_distinct_put intro!: flush_in_sync)

lemma load_in_sync:
  "in_sync s h \<Longrightarrow> loadFromBuildProp s h content = (s', h') \<Longrightarrow> in_sync s' h'"
  by (auto simp: loadFromBuildProp_def Let_def in_sync_def [of s] load_line_def default_prop_def path_foldl
      intro!: flush_in_sync keys_distinct_foldl keys_distinct_put split: option.splits)

lemma set_and_reply_in_sync:
  "in_sync s h \<Longrightarrow> set_and_reply s h k v = (s', h', rep) \<Longrightarrow> in_sync s' h'"
  by (auto simp: set_and_reply_def Let_def dest: setProperty_in_sync split: prod.splits)

lemma handleClient_in_sync:
  assumes "in_sync s h" "handleClient s h buf = Inr (s', h', rep)"
  shows "in_sync s' h'"
  using assms
  by (auto simp: handleClient_def handle_legacy_def handle_setprop2_def handle_text_def Let_def
      fault_simps split: if_splits option.splits dest: set_and_reply_in_sync)

text \<open>The operations on a running service.\<close>

inductive prop_step :: "prop_service \<times> host \<Rightarrow> prop_service \<times> host \<Rightarrow> bool" where
  step_set: "setProperty s h k v = (s', h') \<Longrightarrow> prop_step (s, h) (s', h')"
| step_load: "loadFromBuildProp s h t = (s', h') \<Longrightarrow> prop_step (s, h) (s', h')"
| step_client: "serve_client s h sent = Inr (s', h', rep) \<Longrightarrow> prop_step (s, h) (s', h')"

inductive_cases prop_step_cases: "prop_step (s, h) (s', h')"

lemma prop_steps_in_sync:
  assumes "prop_step\<^sup>*\<^sup>* (s, h) (s', h')" "in_sync s h"
  shows "in_sync s' h'"
  using assms
proof (induction rule: rtranclp_induct2)
  case refl
  then show ?case by simp
next
  case (step t g t' g')
  then have "in_sync t g" by simp
  with step(2) show ?case
    by (auto elim!: prop_step_cases dest: setProperty_in_sync load_in_sync handleClient_in_sync
        simp: serve_client_def Let_def split: if_splits)
qed

lemma writable_set_node: "q \<noteq> p \<Longrightarrow> writable (set_node h p n) q = writable h q"
  by (simp add: writable_def)

lemma ensureDir_writable: "q \<noteq> p \<Longrightarrow> writable (fst (ensureDirExists h p)) q = writable h q"
  by (simp add: ensureDirExists_def host_mkdir_def writable_set_node)

lemma chmod_writable [simp]: "writable (host_chmod h p m) q = writable h q"
  by (auto simp: host_chmod_def writable_def split: option.splits node.splits)

lemma unlink_writable: "q \<noteq> p \<Longrightarrow> writable (host_unlink h p) q = writable h q"
  by (simp add: host_unlink_def writable_set_node)

lemma write_script_writable [simp]: "writable (write_script h p t) q = writable h q"
  by (simp add: write_script_def Let_def case_prod_beta)

lemma start_files_writable:
  "writable (start_files h dir) (dir @ ''/dev/__properties_text__'') = writable h (dir @ ''/dev/__properties_text__'')"
  by (simp add: start_files_def Let_def unlink_writable ensureDir_writable)

lemma prop_path_not_cut:
  "dir @ ''/dev/__properties_text__'' \<noteq> take n (dir @ ''/dev/socket/property_service'')"
proof
  assume eq: "dir @ ''/dev/__properties_text__'' = take n (dir @ ''/dev/socket/property_service'')"
  then have len: "length dir + 24 \<le> n"
  proof -
    have "length (dir @ ''/dev/__properties_text__'') \<le> n"
      by (subst eq) simp
    then show ?thesis by simp
  qed
  have "(dir @ ''/dev/__properties_text__'') ! (length dir + 5) = CHR ''_''"
    by (simp add: nth_append)
  moreover have "take n (dir @ ''/dev/socket/property_service'') ! (length dir + 5) = CHR ''s''"
    using len by (simp add: nth_append)
  ultimately show False
    using eq by simp
qed

lemma default_debuggable: "map_of (rev system_defaults) ''ro.debuggable'' = Some ''1''"
  by (simp add: system_defaults_def)

lemma start_service_in_sync:
  assumes "start_service True True True s h dir = (True, s', h')" "\<not> psIsRunning s" "keys_distinct s"
    and "writable h (dir @ ''/dev/__properties_text__'')"
  shows "in_sync s' h' \<and> psIsRunning s' \<and> find_prop s' ''ro.debuggable'' \<noteq> None"
proof -
  let ?p = "dir @ ''/dev/__properties_text__''"
  let ?s0 = "s\<lparr>psSandboxDir := dir, psSocketPath := dir @ ''/dev/socket/property_service'',
    psPropertiesFilePath := ?p, psServerOpen := True\<rparr>"
  define s1 where "s1 = (if find_prop ?s0 ''ro.debuggable'' = None
    then foldl (\<lambda>s kv. put_prop s (fst kv) (snd kv)) ?s0 system_defaults else ?s0)"
  define h1 where "h1 = host_chmod (set_node (start_files h dir)
    (take 107 (dir @ ''/dev/socket/property_service'')) (Some (Sock 511)))
    (dir @ ''/dev/socket/property_service'') 438"
  have res: "s' = s1\<lparr>psIsRunning := True\<rparr>" "h' = flushPropertiesToFile s1 h1"
    using assms(1,2) by (simp_all add: start_service_def Let_def s1_def h1_def)
  have kd: "keys_distinct s1"
    unfolding s1_def using assms(3)
    by (auto intro!: keys_distinct_foldl keys_distinct_put simp: keys_distinct_def [of ?s0] keys_distinct_def [of s])
  have path: "psPropertiesFilePath s1 = ?p"
    unfolding s1_def by (simp add: path_foldl)
  have wr: "writable h1 ?p"
    using assms(4) prop_path_not_cut [of dir 107] by (simp add: h1_def writable_set_node start_files_writable)
  have "find_prop s1 ''ro.debuggable'' \<noteq> None"
    unfolding s1_def using default_debuggable by (simp add: ps.look_put_all)
  moreover have "in_sync s1 h'"
    unfolding res by (rule flush_in_sync [OF kd]) (use path wr in simp_all)
  ultimately show ?thesis
    by (simp add: res in_sync_def keys_distinct_def getAllPropertiesFormatted_def find_prop_def)
qed

text \<open>C15: Once the service has started on a host that lets it write its properties file, every request
  a client sends, every \<^verbatim>\<open>setProperty\<close> and every
  \<^verbatim>\<open>loadFromBuildProp\<close>, in any order and number, leaves the keys distinct and the file
  equal to the formatted table: a guest that reads the file sees the table.\<close>

theorem properties_file_in_sync:
  assumes "start_service True True True s h dir = (True, s0, h0)" "\<not> psIsRunning s" "keys_distinct s"
    and "writable h (dir @ ''/dev/__properties_text__'')"
    and "prop_step\<^sup>*\<^sup>* (s0, h0) (s', h')"
  shows "in_sync s' h'"
  using start_service_in_sync [OF assms(1-4)] prop_steps_in_sync [OF assms(5)] by blast

definition empty_host :: host where
  "empty_host = \<lparr>hNodes = \<lambda>p. None, hDenied = \<lambda>p. False\<rparr>"

theorem properties_file_in_sync_witness:
  "\<exists>s0 h0. start_service True True True prop_service_init empty_host ''/s'' = (True, s0, h0)
    \<and> in_sync (fst (setProperty s0 h0 ''a'' ''b'')) (snd (setProperty s0 h0 ''a'' ''b''))"
proof -
  obtain s0 h0 where st: "start_service True True True prop_service_init empty_host ''/s'' = (True, s0, h0)"
    by (simp add: start_service_def prop_service_init_def Let_def)
  obtain s' h' where set: "setProperty s0 h0 ''a'' ''b'' = (s', h')"
    by (cases "setProperty s0 h0 ''a'' ''b''")
  have "in_sync s' h'"
    by (rule properties_file_in_sync [OF st])
      (use set in \<open>auto simp: prop_service_init_def keys_distinct_def writable_def empty_host_def
        intro: step_set\<close>)
  then show ?thesis
    using st set by simp
qed

section \<open>Requests and their encodings\<close>

definition pad_to :: "nat \<Rightarrow> u8 list \<Rightarrow> u8 list" where
  "pad_to n b = b @ replicate (n - length b) 0"

definition legacy_request :: "string \<Rightarrow> string \<Rightarrow> u8 list" where
  "legacy_request k v = u32_bytes PROP_MSG_SETPROP @ pad_to 32 (string_to_bytes k) @ pad_to 92 (string_to_bytes v)"

definition setprop2_request :: "string \<Rightarrow> string \<Rightarrow> u8 list" where
  "setprop2_request k v = u32_bytes PROP_MSG_SETPROP2 @ u32_bytes (word_of_nat (length k)) @ string_to_bytes k
     @ u32_bytes (word_of_nat (length v)) @ string_to_bytes v"

lemma le32_head [simp]: "le32 (u32_bytes w @ rest) 0 = w"
  by (simp add: le32_def)

lemma strn_string_pad:
  assumes "nul \<notin> set s"
  shows "strn_string (pad_to n (string_to_bytes s)) = s"
proof -
  have "takeWhile (\<lambda>x. x \<noteq> 0) (string_to_bytes s @ replicate m 0) = string_to_bytes s" for m
    using string_to_bytes_no_nul [OF assms] by (subst takeWhile_append2) (auto simp: takeWhile_replicate)
  then show ?thesis
    by (simp add: strn_string_def pad_to_def)
qed

lemma length_pad_to: "length b \<le> n \<Longrightarrow> length (pad_to n b) = n"
  by (simp add: pad_to_def)

lemma handle_legacy_request:
  assumes "nul \<notin> set k" "nul \<notin> set v" "k \<noteq> []" "length k \<le> 32" "length v \<le> 92"
  shows "handleClient s h (legacy_request k v) = Inr (set_and_reply s h k v)"
proof -
  have len: "length (pad_to 32 (string_to_bytes k)) = 32" "length (pad_to 92 (string_to_bytes v)) = 92"
    using assms(4,5) by (simp_all add: length_pad_to)
  then have "take 32 (drop 4 (legacy_request k v)) = pad_to 32 (string_to_bytes k)"
    "take 92 (drop 36 (legacy_request k v)) = pad_to 92 (string_to_bytes v)"
    "length (legacy_request k v) = 128" "le32 (legacy_request k v) 0 = PROP_MSG_SETPROP"
    by (simp_all add: legacy_request_def)
  then show ?thesis
    using assms(3) by (simp add: handleClient_def handle_legacy_def strn_string_pad assms(1,2) len)
qed

lemma handle_setprop2_request:
  assumes "length k + length v + 12 \<le> 1023"
  shows "handleClient s h (setprop2_request k v) = Inr (set_and_reply s h k v)"
proof -
  let ?k = "word_of_nat (length k) :: u32" and ?v = "word_of_nat (length v) :: u32"
  let ?b = "setprop2_request k v"
  have len: "length ?b = 12 + length k + length v"
    by (simp add: setprop2_request_def)
  have u: "unat ?k = length k" "unat ?v = length v"
    using assms by (simp_all add: unat_of_nat)
  have s1: "unat (8 + ?k + 4) = 12 + length k"
    using assms u by (simp add: unat_word_ariths)
  have s2: "unat (8 + ?k + 4 + ?v) = 12 + length k + length v"
    using assms u by (simp add: unat_word_ariths)
  have parts: "le32 ?b 4 = ?k" "take (length k) (drop 8 ?b) = string_to_bytes k"
    "take 4 (drop (8 + length k) ?b) = u32_bytes ?v"
    "take (length v) (drop (8 + length k + 4) ?b) = string_to_bytes v"
    by (simp_all add: setprop2_request_def le32_def)
  have "handle_setprop2 s h ?b = Inr (Some (set_and_reply s h k v))"
    using len s1 s2 u parts le32_head [of ?v "[]"]
    by (simp add: handle_setprop2_def memcpy_from_ok Let_def add.assoc)
  moreover have "le32 ?b 0 = PROP_MSG_SETPROP2" "PROP_MSG_SETPROP2 \<noteq> PROP_MSG_SETPROP"
    by (simp_all add: setprop2_request_def PROP_MSG_SETPROP_def PROP_MSG_SETPROP2_def)
  ultimately show ?thesis
    using len by (simp add: handleClient_def)
qed

lemma set_and_reply_get:
  "set_and_reply s h k v = (s', h', rep) \<Longrightarrow>
   rep = prop_success \<and> getProperty s' q d = (if q = k then v else getProperty s q d)"
  by (auto simp: set_and_reply_def setProperty_def Let_def getProperty_def ps.look_put)

text \<open>C16: A set request in the legacy format of 128 bytes and one in the length-prefixed format both
  make the service hold the value sent under the key sent, change no other key and answer with
  success.\<close>

theorem client_set_roundtrip:
  assumes "nul \<notin> set k" "nul \<notin> set v" "k \<noteq> []" "length k \<le> 32" "length v \<le> 92"
    and "req = legacy_request k v \<or> req = setprop2_request k v"
  shows "\<exists>s' h'. serve_client s h req = Inr (s', h', prop_success)
    \<and> getProperty s' q d = (if q = k then v else getProperty s q d)"
proof -
  have "handleClient s h req = Inr (set_and_reply s h k v)"
    using assms handle_legacy_request [OF assms(1-5)] handle_setprop2_request [of k v] by auto
  moreover have "length req \<le> 1023" "req \<noteq> []"
    using assms(4,5,6) by (auto simp: legacy_request_def setprop2_request_def length_pad_to u32_bytes_def)
  ultimately show ?thesis
    using set_and_reply_get [of s h k v]
    by (cases "set_and_reply s h k v") (simp add: serve_client_def Let_def)
qed

text \<open>A length-prefixed request whose name length is within 12 below \<open>2^32\<close> passes the bounds
  check, because the 32-bit sum wraps, and the copy of the name leaves the receive buffer.\<close>

lemma setprop2_length_wraps:
  assumes "- 12 \<le> nameLen" "nameLen \<le> - 4" "8 < length rest" "length rest \<le> 1015"
  shows "serve_client s h (u32_bytes PROP_MSG_SETPROP2 @ u32_bytes nameLen @ rest) = Inl OutOfBounds"
proof -
  let ?b = "u32_bytes PROP_MSG_SETPROP2 @ u32_bytes nameLen @ rest"
  have n: "unat (-12 :: u32) = 4294967284" "unat (-4 :: u32) = 4294967292"
    by simp_all
  have big: "4294967284 \<le> unat nameLen" "unat nameLen \<le> 4294967292"
    using assms(1,2) unfolding word_le_nat_alt n by simp_all
  have "8 + nameLen + 4 = word_of_nat (unat nameLen + 12)"
    by simp
  then have "unat (8 + nameLen + 4) = (unat nameLen + 12) mod 4294967296"
    by (simp only: unat_of_nat) simp
  moreover have "(unat nameLen + 12) mod 4294967296 = unat nameLen - 4294967284"
    using big by (simp add: le_mod_geq)
  ultimately have "unat (8 + nameLen + 4) \<le> length ?b"
    using big assms(3) by simp
  moreover have "le32 ?b 4 = nameLen"
    by (simp add: le32_def)
  moreover have "memcpy_from ?b 8 (unat nameLen) = Inl OutOfBounds"
    using big assms(4) by (simp add: memcpy_from_def)
  moreover have "le32 ?b 0 = PROP_MSG_SETPROP2" "PROP_MSG_SETPROP2 \<noteq> PROP_MSG_SETPROP"
    by (simp_all add: PROP_MSG_SETPROP_def PROP_MSG_SETPROP2_def)
  moreover have "rest \<noteq> []"
    using assms(3) by auto
  ultimately have "handleClient s h ?b = Inl OutOfBounds"
    using assms(3) by (simp add: handleClient_def handle_setprop2_def Let_def)
  then show ?thesis
    using assms(4) by (simp add: serve_client_def Let_def u32_bytes_def)
qed

theorem client_set_roundtrip_witness:
  "\<exists>s' h'. serve_client prop_service_init empty_host (setprop2_request ''sys.boot'' ''1'') = Inr (s', h', prop_success)
    \<and> getProperty s' ''sys.boot'' [] = ''1''"
  using client_set_roundtrip [of "''sys.boot''" "''1''" "setprop2_request ''sys.boot'' ''1''"
      prop_service_init empty_host "''sys.boot''" "[]"]
  by (simp add: nul_def)

lemma setprop2_length_wraps_witness:
  "serve_client prop_service_init empty_host
     (u32_bytes PROP_MSG_SETPROP2 @ u32_bytes 0xFFFFFFF8 @ replicate 9 0) = Inl OutOfBounds"
  by (rule setprop2_length_wraps) (simp_all add: word_le_nat_alt)

end
