(* ===== verification/Boot_Manager.thy ===== *)
theory Boot_Manager
  imports Init_Parser Property_Service
begin

text \<open>
  The init sequence of \<^verbatim>\<open>boot_manager.cpp\<close>: starting and stopping services, the
  commands of an action, and the worker that runs the boot phases. Every change of the services
  happens under the manager's mutex, so an operation here is one atomic step; the values that the
  worker reads from \<^verbatim>\<open>mIsBooting\<close> between its phases are parameters, because
  another thread may have cleared it. The log callback is the list of messages.
\<close>

datatype BootPhase = IDLE | EARLY_INIT | INIT | EARLY_BOOT | BOOT | COMPLETED

fun getPhaseString :: "BootPhase \<Rightarrow> string" where
  "getPhaseString IDLE = ''IDLE''"
| "getPhaseString EARLY_INIT = ''EARLY_INIT''"
| "getPhaseString INIT = ''INIT''"
| "getPhaseString EARLY_BOOT = ''EARLY_BOOT''"
| "getPhaseString BOOT = ''BOOT''"
| "getPhaseString COMPLETED = ''COMPLETED''"

record boot =
  bmParser :: init_parser
  bmPhase :: BootPhase
  bmIsBooting :: bool
  bmNextPid :: int
  bmLog :: "string list"
  bmProps :: prop_service
  bmHost :: host

definition createDir :: "boot \<Rightarrow> string \<Rightarrow> boot" where
  "createDir b p = b\<lparr>bmHost := fst (ensureDirExists (bmHost b) p)\<rparr>"

definition logBoot :: "string \<Rightarrow> boot \<Rightarrow> boot" where
  "logBoot msg b = b\<lparr>bmLog := bmLog b @ [msg]\<rparr>"

definition boot_setprop :: "boot \<Rightarrow> string \<Rightarrow> string \<Rightarrow> boot" where
  "boot_setprop b k v =
     (case setProperty (bmProps b) (bmHost b) k v of (s, h) \<Rightarrow> b\<lparr>bmProps := s, bmHost := h\<rparr>)"

definition set_services :: "boot \<Rightarrow> InitService list \<Rightarrow> boot" where
  "set_services b ss = b\<lparr>bmParser := (bmParser b)\<lparr>ipServices := ss\<rparr>\<rparr>"

abbreviation services :: "boot \<Rightarrow> InitService list" where
  "services b \<equiv> ipServices (bmParser b)"

definition getServicesCount :: "boot \<Rightarrow> nat" where
  "getServicesCount b = length (services b)"

definition loadInitFromVfs :: "reader \<Rightarrow> nat \<Rightarrow> boot \<Rightarrow> fault + (nat \<times> boot)" where
  "loadInitFromVfs r stk b =
     bnd (loadFromVfs r stk) (\<lambda>(n, p). Inr (n, b\<lparr>bmParser := p\<rparr>))"

definition svc_prop :: "InitService \<Rightarrow> string" where
  "svc_prop s = ''init.svc.'' @ svName s"

section \<open>Services\<close>

definition startService :: "string \<Rightarrow> boot \<Rightarrow> bool \<times> boot" where
  "startService nm b =
     (case findService (bmParser b) nm of
        None \<Rightarrow> (False, b)
      | Some s \<Rightarrow>
          if svStatus s = ''RUNNING'' then (True, b)
          else
            let pid = bmNextPid b;
                b = b\<lparr>bmParser := updateService (bmParser b) nm (\<lambda>s. s\<lparr>svStatus := ''RUNNING'', svPid := pid\<rparr>),
                      bmNextPid := pid + 1\<rparr>;
                b = boot_setprop b (svc_prop s) ''running''
            in (True, logBoot (''[init] Service started: '' @ svName s @ '' (PID: '' @ dec_int pid
                  @ '', User: '' @ svUser s @ '')'') b))"

definition stopService :: "string \<Rightarrow> boot \<Rightarrow> bool \<times> boot" where
  "stopService nm b =
     (case findService (bmParser b) nm of
        None \<Rightarrow> (False, b)
      | Some s \<Rightarrow>
          let b = b\<lparr>bmParser := updateService (bmParser b) nm (\<lambda>s. s\<lparr>svStatus := ''STOPPED'', svPid := -1\<rparr>)\<rparr>;
              b = boot_setprop b (svc_prop s) ''stopped''
          in (True, logBoot (''[init] Service stopped: '' @ svName s) b))"

definition restartService :: "string \<Rightarrow> boot \<Rightarrow> bool \<times> boot" where
  "restartService nm b = startService nm (snd (stopService nm b))"

text \<open>
  The loop over the services that the phases and \<^verbatim>\<open>class_start\<close> share: the ones with
  a class that \<open>wanted\<close> holds for are started, unless running or disabled. Position \<open>i\<close> is the loop
  variable, \<open>k\<close> the services left.
\<close>

definition start_at :: "(string \<Rightarrow> bool) \<Rightarrow> (InitService \<Rightarrow> string) \<Rightarrow> boot \<Rightarrow> nat \<Rightarrow> boot" where
  "start_at wanted msg b i =
     (let s = services b ! i in
      if list_ex wanted (svClasses s) \<and> svStatus s \<noteq> ''RUNNING'' \<and> \<not> svIsDisabled s then
        let s' = s\<lparr>svStatus := ''RUNNING'', svPid := bmNextPid b\<rparr>;
            b = (set_services b ((services b)[i := s']))\<lparr>bmNextPid := bmNextPid b + 1\<rparr>
        in logBoot (msg s') (boot_setprop b (svc_prop s) ''running'')
      else b)"

definition start_classes :: "(string \<Rightarrow> bool) \<Rightarrow> (InitService \<Rightarrow> string) \<Rightarrow> boot \<Rightarrow> boot" where
  "start_classes wanted msg b = foldl (start_at wanted msg) b [0..<length (services b)]"

section \<open>Actions\<close>

definition run_mkdir :: "string \<Rightarrow> string \<Rightarrow> boot \<Rightarrow> boot" where
  "run_mkdir dir sub b =
     (let pth = (case find_char (CHR '' '') sub of Some sp \<Rightarrow> take sp sub | None \<Rightarrow> sub) in
      if pth \<noteq> [] \<and> hd pth = CHR ''/'' then createDir b (dir @ pth) else b)"

definition run_setprop :: "string \<Rightarrow> boot \<Rightarrow> boot" where
  "run_setprop sub b =
     (case find_char (CHR '' '') sub of
        Some sp \<Rightarrow> boot_setprop b (take sp sub) (drop (Suc sp) sub) | None \<Rightarrow> b)"

definition run_command :: "string \<Rightarrow> boot \<Rightarrow> string \<Rightarrow> boot" where
  "run_command dir b cmd =
     (if starts_with ''mkdir '' cmd then run_mkdir dir (drop 6 cmd) b
      else if starts_with ''setprop '' cmd then run_setprop (drop 8 cmd) b
      else if starts_with ''start '' cmd then snd (startService (drop 6 cmd) b)
      else if starts_with ''class_start '' cmd then
        start_classes (\<lambda>c. c = drop 12 cmd)
          (\<lambda>s. ''[init] class_start '' @ drop 12 cmd @ '' -> Started: '' @ svName s) b
      else b)"

definition executeTriggerActions :: "string \<Rightarrow> string \<Rightarrow> boot \<Rightarrow> boot" where
  "executeTriggerActions trig dir b =
     foldl (run_command dir) b
       (concat (map commands (filter (\<lambda>a. trigger a = trig) (ipActions (bmParser b)))))"

section \<open>The boot sequence\<close>

definition set_phase :: "BootPhase \<Rightarrow> boot \<Rightarrow> boot" where
  "set_phase ph b = b\<lparr>bmPhase := ph\<rparr>"

definition pid_msg :: "string \<Rightarrow> InitService \<Rightarrow> string" where
  "pid_msg what s = ''[init] '' @ what @ '' Daemon started: '' @ svName s @ '' (PID: '' @ dec_int (svPid s) @ '')''"

definition boot_phase1 :: "string \<Rightarrow> boot \<Rightarrow> boot" where
  "boot_phase1 dir b =
     (let b = logBoot ''=== STARTING ANDROID GSI INIT BOOT SEQUENCE ==='' b;
          b = logBoot ''[init] [Phase 1/4] Trigger: on early-init'' (set_phase EARLY_INIT b);
          b = foldl (\<lambda>b d. createDir b (dir @ d)) b
                [''/dev'', ''/dev/socket'', ''/proc'', ''/sys'', ''/system'', ''/data'']
      in executeTriggerActions ''early-init'' dir b)"

text \<open>\<open>net\<close> are the results of the three socket calls of the property service's start.\<close>

definition boot_phase2 :: "bool \<times> bool \<times> bool \<Rightarrow> string \<Rightarrow> boot \<Rightarrow> boot" where
  "boot_phase2 net dir b =
     (let b = logBoot ''[init] [Phase 2/4] Trigger: on init (Starting Property Service & Core Daemons)''
                (set_phase INIT b);
          b = (case start_service (fst net) (fst (snd net)) (snd (snd net)) (bmProps b) (bmHost b) dir of
                 (ok, s, h) \<Rightarrow> b\<lparr>bmProps := s, bmHost := h\<rparr>);
          b = start_classes (\<lambda>c. c = ''core'') (pid_msg ''Core'') b
      in executeTriggerActions ''init'' dir b)"

definition boot_phase3 :: "string \<Rightarrow> boot \<Rightarrow> boot" where
  "boot_phase3 dir b =
     (let b = logBoot ''[init] [Phase 3/4] Trigger: on early-boot'' (set_phase EARLY_BOOT b);
          b = executeTriggerActions ''early-boot'' dir b;
          b = logBoot ''[init] [Phase 3/4] Trigger: on boot (Starting Main Framework Daemons)'' (set_phase BOOT b);
          b = start_classes (\<lambda>c. c = ''main'' \<or> c = ''animation'') (pid_msg ''Framework'') b
      in executeTriggerActions ''boot'' dir b)"

definition boot_phase4 :: "boot \<Rightarrow> boot" where
  "boot_phase4 b =
     (let b = set_phase COMPLETED b;
          b = boot_setprop b ''sys.boot_completed'' ''1'';
          b = boot_setprop b ''service.bootanim.exit'' ''1'';
          b = boot_setprop b ''dev.bootcomplete'' ''1'';
          b = logBoot ''[init] [Phase 4/4] Trigger: sys.boot_completed=1 (Android Framework Ready!)'' b;
          b = logBoot ''=== ANDROID GSI BOOT SEQUENCE COMPLETED SUCCESSFULLY ==='' b
      in b\<lparr>bmIsBooting := False\<rparr>)"

definition bootWorker ::
  "bool \<times> bool \<times> bool \<Rightarrow> bool \<Rightarrow> bool \<Rightarrow> bool \<Rightarrow> string \<Rightarrow> boot \<Rightarrow> boot" where
  "bootWorker net go1 go2 go3 dir b =
     (let b = boot_phase1 dir b in
      if \<not> go1 then b
      else let b = boot_phase2 net dir b in
        if \<not> go2 then b
        else let b = boot_phase3 dir b in
          if \<not> go3 then b else boot_phase4 b)"

text \<open>The state a new boot starts from; the worker thread then runs.\<close>

definition startBootSequence :: "boot \<Rightarrow> boot" where
  "startBootSequence b = (if bmIsBooting b then b else b\<lparr>bmIsBooting := True, bmPhase := IDLE\<rparr>)"

definition stop_at :: "boot \<Rightarrow> nat \<Rightarrow> boot" where
  "stop_at b i =
     (let s = services b ! i in
      if svStatus s = ''RUNNING''
      then boot_setprop (set_services b ((services b)[i := s\<lparr>svStatus := ''STOPPED'', svPid := -1\<rparr>]))
             (svc_prop s) ''stopped''
      else b)"

definition stopBootSequence :: "boot \<Rightarrow> boot" where
  "stopBootSequence b =
     (let b = b\<lparr>bmIsBooting := False\<rparr>;
          b = foldl stop_at b [0..<length (services b)]
      in logBoot ''[init] Boot sequence stopped. All services reset to STOPPED.'' (set_phase IDLE b))"

section \<open>The service table under every interleaving\<close>

fun phase_no :: "BootPhase \<Rightarrow> nat" where
  "phase_no IDLE = 0"
| "phase_no EARLY_INIT = 1"
| "phase_no INIT = 2"
| "phase_no EARLY_BOOT = 3"
| "phase_no BOOT = 4"
| "phase_no COMPLETED = 5"

instantiation BootPhase :: linorder
begin

definition less_eq_BootPhase :: "BootPhase \<Rightarrow> BootPhase \<Rightarrow> bool" where
  "less_eq_BootPhase x y \<longleftrightarrow> phase_no x \<le> phase_no y"

definition less_BootPhase :: "BootPhase \<Rightarrow> BootPhase \<Rightarrow> bool" where
  "less_BootPhase x y \<longleftrightarrow> phase_no x < phase_no y"

instance
proof
  fix x y :: BootPhase
  show "x \<le> y \<Longrightarrow> y \<le> x \<Longrightarrow> x = y"
    by (cases x; cases y) (simp_all add: less_eq_BootPhase_def)
qed (auto simp: less_eq_BootPhase_def less_BootPhase_def)

end

named_theorems boot_frame \<open>what an operation leaves alone\<close>

definition running :: "InitService \<Rightarrow> bool" where
  "running s \<longleftrightarrow> svStatus s = ''RUNNING''"

definition pids_ok :: "InitService list \<Rightarrow> int \<Rightarrow> bool" where
  "pids_ok ss n \<longleftrightarrow>
     (\<forall>i < length ss. if running (ss ! i) then 2000 \<le> svPid (ss ! i) \<and> svPid (ss ! i) < n
                      else svPid (ss ! i) = -1)
     \<and> (\<forall>i < length ss. \<forall>j < length ss. running (ss ! i) \<and> running (ss ! j)
          \<and> svPid (ss ! i) = svPid (ss ! j) \<longrightarrow> i = j)"

definition boot_ok :: "boot \<Rightarrow> bool" where
  "boot_ok b \<longleftrightarrow> index_ok (bmParser b) \<and> 2000 \<le> bmNextPid b \<and> pids_ok (services b) (bmNextPid b)"

lemma boot_setprop_frame [boot_frame]:
  "bmParser (boot_setprop b k v) = bmParser b" "bmNextPid (boot_setprop b k v) = bmNextPid b"
  "bmPhase (boot_setprop b k v) = bmPhase b" "bmIsBooting (boot_setprop b k v) = bmIsBooting b"
  by (simp_all add: boot_setprop_def case_prod_beta)

lemma logBoot_frame [boot_frame]:
  "bmParser (logBoot m b) = bmParser b" "bmNextPid (logBoot m b) = bmNextPid b"
  "bmPhase (logBoot m b) = bmPhase b" "bmIsBooting (logBoot m b) = bmIsBooting b"
  "bmProps (logBoot m b) = bmProps b"
  by (simp_all add: logBoot_def)

lemma createDir_frame [boot_frame]:
  "bmParser (createDir b p) = bmParser b" "bmNextPid (createDir b p) = bmNextPid b"
  "bmPhase (createDir b p) = bmPhase b" "bmIsBooting (createDir b p) = bmIsBooting b"
  "bmProps (createDir b p) = bmProps b"
  by (simp_all add: createDir_def)

lemma set_phase_frame [boot_frame]:
  "bmParser (set_phase ph b) = bmParser b" "bmNextPid (set_phase ph b) = bmNextPid b"
  "bmPhase (set_phase ph b) = ph" "bmIsBooting (set_phase ph b) = bmIsBooting b"
  "bmProps (set_phase ph b) = bmProps b"
  by (simp_all add: set_phase_def)

lemma set_services_frame [boot_frame]:
  "services (set_services b ss) = ss" "bmNextPid (set_services b ss) = bmNextPid b"
  "bmPhase (set_services b ss) = bmPhase b" "bmIsBooting (set_services b ss) = bmIsBooting b"
  "bmProps (set_services b ss) = bmProps b" "ipIndex (bmParser (set_services b ss)) = ipIndex (bmParser b)"
  "ipActions (bmParser (set_services b ss)) = ipActions (bmParser b)"
  by (simp_all add: set_services_def)

lemma pids_start:
  assumes "pids_ok ss n" "i < length ss" "\<not> running (ss ! i)" "2000 \<le> n" "running s" "svPid s = n"
  shows "pids_ok (ss[i := s]) (n + 1)"
proof -
  have old: "running (ss ! j) \<Longrightarrow> 2000 \<le> svPid (ss ! j) \<and> svPid (ss ! j) < n"
    "\<not> running (ss ! j) \<Longrightarrow> svPid (ss ! j) = -1" if "j < length ss" for j
    using assms(1) that unfolding pids_ok_def by presburger+
  show ?thesis
    unfolding pids_ok_def
  proof (intro conjI allI impI)
    fix j assume j: "j < length (ss[i := s])"
    show "if running (ss[i := s] ! j) then 2000 \<le> svPid (ss[i := s] ! j) \<and> svPid (ss[i := s] ! j) < n + 1
      else svPid (ss[i := s] ! j) = -1"
      using j old [of j] assms(4-6) by (cases "j = i") auto
  next
    fix j k assume j: "j < length (ss[i := s])" and k: "k < length (ss[i := s])"
      and e: "running (ss[i := s] ! j) \<and> running (ss[i := s] ! k) \<and> svPid (ss[i := s] ! j) = svPid (ss[i := s] ! k)"
    have new: "svPid (ss ! m) \<noteq> n" if "m < length ss" "running (ss ! m)" for m
      using old [of m] that by fastforce
    have uniq: "running (ss ! j) \<Longrightarrow> running (ss ! k) \<Longrightarrow> svPid (ss ! j) = svPid (ss ! k) \<Longrightarrow> j = k"
      using assms(1) j k unfolding pids_ok_def by (simp del: if_split_asm)
    show "j = k"
      using j k e new [of j] new [of k] uniq assms(2,6) by (auto simp: nth_list_update split: if_splits)
  qed
qed

lemma pids_stop:
  assumes "pids_ok ss n" "\<not> running s" "svPid s = -1"
  shows "pids_ok (ss[i := s]) n"
proof (cases "i < length ss")
  case True
  then show ?thesis
    using assms unfolding pids_ok_def by (auto simp: nth_list_update)
next
  case False
  then have "ss[i := s] = ss" by (simp add: not_less list_update_beyond)
  then show ?thesis using assms(1) by simp
qed

lemma index_ok_update:
  assumes "index_ok p" "ipServices p' = (ipServices p)[i := s]" "ipIndex p' = ipIndex p"
    and "i < length (ipServices p)" "svName s = svName (ipServices p ! i)"
  shows "index_ok p'"
  using assms by (auto simp: index_ok_def nth_list_update)

lemma boot_ok_same:
  "boot_ok b \<Longrightarrow> bmParser b' = bmParser b \<Longrightarrow> bmNextPid b' = bmNextPid b \<Longrightarrow> boot_ok b'"
  by (simp add: boot_ok_def)

lemma boot_ok_start:
  assumes "boot_ok b" "i < length (services b)" "\<not> running (services b ! i)"
    and "services b' = (services b)[i := s]" "ipIndex (bmParser b') = ipIndex (bmParser b)"
    and "bmNextPid b' = bmNextPid b + 1" "running s" "svPid s = bmNextPid b" "svName s = svName (services b ! i)"
  shows "boot_ok b'"
proof -
  have "index_ok (bmParser b')"
    using assms index_ok_update [of "bmParser b" "bmParser b'" i s] by (simp add: boot_ok_def)
  moreover have "pids_ok ((services b)[i := s]) (bmNextPid b + 1)"
    by (rule pids_start) (use assms in \<open>simp_all add: boot_ok_def\<close>)
  ultimately show ?thesis
    using assms by (simp add: boot_ok_def)
qed

lemma boot_ok_stop:
  assumes "boot_ok b" "i < length (services b)" "services b' = (services b)[i := s]"
    and "ipIndex (bmParser b') = ipIndex (bmParser b)" "bmNextPid b' = bmNextPid b"
    and "\<not> running s" "svPid s = -1" "svName s = svName (services b ! i)"
  shows "boot_ok b'"
proof -
  have "index_ok (bmParser b')"
    using assms index_ok_update [of "bmParser b" "bmParser b'" i s] by (simp add: boot_ok_def)
  moreover have "pids_ok ((services b)[i := s]) (bmNextPid b)"
    by (rule pids_stop) (use assms in \<open>simp_all add: boot_ok_def\<close>)
  ultimately show ?thesis
    using assms by (simp add: boot_ok_def)
qed

lemma findService_at:
  assumes "index_ok p" "findService p nm = Some s"
  obtains i where "i < length (ipServices p)" "ipServices p ! i = s" "svName s = nm"
    and "\<And>f. updateService p nm f = p\<lparr>ipServices := (ipServices p)[i := f s]\<rparr>"
proof -
  obtain i where i: "findServiceIndex p nm = Some i" "ipServices p ! i = s"
    using assms(2) by (auto simp: findService_def)
  then have "i < length (ipServices p)" "ipIndex p nm = Some i"
    by (auto simp: findServiceIndex_def split: option.splits if_splits)
  then show ?thesis
    using that [of i] i assms(1) by (auto simp: index_ok_def updateService_def)
qed

lemma findService_iff:
  assumes "index_ok p"
  shows "findService p nm = Some s \<longleftrightarrow> (\<exists>i < length (ipServices p). ipServices p ! i = s \<and> svName s = nm)"
proof
  assume "findService p nm = Some s"
  then show "\<exists>i < length (ipServices p). ipServices p ! i = s \<and> svName s = nm"
    using findService_at [OF assms] by metis
next
  assume "\<exists>i < length (ipServices p). ipServices p ! i = s \<and> svName s = nm"
  then obtain i where i: "i < length (ipServices p)" "ipServices p ! i = s" "svName s = nm" by blast
  then have "ipIndex p nm = Some i"
    using assms by (simp add: index_ok_def)
  then show "findService p nm = Some s"
    using i by (simp add: findService_def findServiceIndex_def)
qed

lemma startService_ok: "boot_ok b \<Longrightarrow> boot_ok (snd (startService nm b))"
proof -
  assume ok: "boot_ok b"
  show ?thesis
  proof (cases "\<exists>s. findService (bmParser b) nm = Some s \<and> \<not> running s")
    case True
    then obtain s where s: "findService (bmParser b) nm = Some s" "\<not> running s" by blast
    from ok have ix: "index_ok (bmParser b)" by (simp add: boot_ok_def)
    from findService_at [OF ix s(1)] obtain i where i: "i < length (services b)" "services b ! i = s"
      and u: "\<And>f. updateService (bmParser b) nm f = (bmParser b)\<lparr>ipServices := (services b)[i := f s]\<rparr>"
      by metis
    show ?thesis
      by (rule boot_ok_start [OF ok i(1), where s = "s\<lparr>svStatus := ''RUNNING'', svPid := bmNextPid b\<rparr>"])
        (use s i in \<open>simp_all add: startService_def Let_def u running_def boot_frame\<close>)
  next
    case False
    then show ?thesis
      using ok by (auto simp: startService_def running_def split: option.splits)
  qed
qed

lemma stopService_ok: "boot_ok b \<Longrightarrow> boot_ok (snd (stopService nm b))"
proof -
  assume ok: "boot_ok b"
  show ?thesis
  proof (cases "findService (bmParser b) nm")
    case (Some s)
    from ok have ix: "index_ok (bmParser b)" by (simp add: boot_ok_def)
    from findService_at [OF ix Some] obtain i where i: "i < length (services b)" "services b ! i = s"
      and u: "\<And>f. updateService (bmParser b) nm f = (bmParser b)\<lparr>ipServices := (services b)[i := f s]\<rparr>"
      by metis
    show ?thesis
      by (rule boot_ok_stop [OF ok i(1), where s = "s\<lparr>svStatus := ''STOPPED'', svPid := -1\<rparr>"])
        (use Some i in \<open>simp_all add: stopService_def Let_def u running_def boot_frame\<close>)
  next
    case None
    then show ?thesis
      using ok by (simp add: stopService_def)
  qed
qed

lemma start_at_length [simp]: "length (services (start_at w m b i)) = length (services b)"
  by (simp add: start_at_def Let_def boot_frame)

lemma start_at_ok: "boot_ok b \<Longrightarrow> i < length (services b) \<Longrightarrow> boot_ok (start_at w m b i)"
proof -
  assume ok: "boot_ok b" and i: "i < length (services b)"
  let ?s = "services b ! i"
  show ?thesis
  proof (cases "list_ex w (svClasses ?s) \<and> svStatus ?s \<noteq> ''RUNNING'' \<and> \<not> svIsDisabled ?s")
    case True
    show ?thesis
      by (rule boot_ok_start [OF ok i, where s = "?s\<lparr>svStatus := ''RUNNING'', svPid := bmNextPid b\<rparr>"])
        (use True in \<open>simp_all add: start_at_def Let_def running_def boot_frame\<close>)
  next
    case False
    then show ?thesis using ok by (auto simp: start_at_def)
  qed
qed

lemma stop_at_length [simp]: "length (services (stop_at b i)) = length (services b)"
  by (simp add: stop_at_def Let_def boot_frame)

lemma stop_at_ok: "boot_ok b \<Longrightarrow> i < length (services b) \<Longrightarrow> boot_ok (stop_at b i)"
proof -
  assume ok: "boot_ok b" and i: "i < length (services b)"
  let ?s = "services b ! i"
  show ?thesis
  proof (cases "svStatus ?s = ''RUNNING''")
    case True
    show ?thesis
      by (rule boot_ok_stop [OF ok i, where s = "?s\<lparr>svStatus := ''STOPPED'', svPid := -1\<rparr>"])
        (use True in \<open>simp_all add: stop_at_def Let_def running_def boot_frame\<close>)
  next
    case False
    then show ?thesis using ok by (simp add: stop_at_def)
  qed
qed

lemma foldl_inv:
  assumes "P b" "\<And>b x. P b \<Longrightarrow> x \<in> set xs \<Longrightarrow> P (f b x)"
  shows "P (foldl f b xs)"
  using assms by (induction xs arbitrary: b) simp_all

lemma start_classes_ok: "boot_ok b \<Longrightarrow> boot_ok (start_classes w m b)"
  unfolding start_classes_def
  using foldl_inv [of "\<lambda>c. boot_ok c \<and> length (services c) = length (services b)" b
      "[0..<length (services b)]" "start_at w m"]
  by (simp add: start_at_ok)

lemma stop_all_ok: "boot_ok b \<Longrightarrow> boot_ok (stopBootSequence b)"
proof -
  assume "boot_ok b"
  then have "boot_ok (b\<lparr>bmIsBooting := False\<rparr>)"
    using boot_ok_same by simp
  then have "boot_ok (foldl stop_at (b\<lparr>bmIsBooting := False\<rparr>) [0..<length (services b)])"
    using foldl_inv [of "\<lambda>c. boot_ok c \<and> length (services c) = length (services b)" "b\<lparr>bmIsBooting := False\<rparr>"
        "[0..<length (services b)]" stop_at]
    by (simp add: stop_at_ok)
  then show ?thesis
    using boot_ok_same by (fastforce simp: stopBootSequence_def Let_def boot_frame)
qed

lemma run_command_ok: "boot_ok b \<Longrightarrow> boot_ok (run_command dir b cmd)"
proof -
  assume ok: "boot_ok b"
  have "boot_ok (run_mkdir dir c b)" "boot_ok (run_setprop c b)" for c
    using ok boot_ok_same [OF ok]
    by (auto simp: run_mkdir_def run_setprop_def Let_def boot_frame split: option.splits)
  then show ?thesis
    using ok startService_ok start_classes_ok by (simp add: run_command_def)
qed

text \<open>
  The steps that the threads of the process take on the manager: requests of the user interface
  (load, start, stop, restart is a stop and then a start, stop all) interleaved with the parts of the
  worker between two releases of the mutex.
\<close>

definition boot_init :: "prop_service \<Rightarrow> host \<Rightarrow> boot" where
  "boot_init ps h = \<lparr>bmParser = parser_clear, bmPhase = IDLE, bmIsBooting = False, bmNextPid = 2000,
     bmLog = [], bmProps = ps, bmHost = h\<rparr>"

inductive boot_step :: "boot \<Rightarrow> boot \<Rightarrow> bool" where
  load: "loadInitFromVfs r stk b = Inr (n, b') \<Longrightarrow> boot_step b b'"
| start: "boot_step b (snd (startService nm b))"
| stop: "boot_step b (snd (stopService nm b))"
| start_cls: "boot_step b (start_classes w m b)"
| command: "boot_step b (run_command dir b cmd)"
| dir: "boot_step b (createDir b p)"
| begin_boot: "boot_step b (startBootSequence b)"
| phase: "boot_step b (logBoot m (set_phase ph b))"
| props: "boot_step b (b\<lparr>bmProps := s, bmHost := h\<rparr>)"
| finish: "boot_step b (b\<lparr>bmIsBooting := False\<rparr>)"
| stop_all: "boot_step b (stopBootSequence b)"

inductive_cases boot_step_cases: "boot_step b b'"

lemma fresh_services_ok:
  assumes "parser_ok p" "2000 \<le> n"
  shows "pids_ok (ipServices p) n"
  using assms by (auto simp: pids_ok_def parser_ok_def fresh_service_def running_def)

lemma load_ok: "boot_ok b \<Longrightarrow> loadInitFromVfs r stk b = Inr (n, b') \<Longrightarrow> boot_ok b'"
  using parser_loaded fresh_services_ok
  by (fastforce simp: loadInitFromVfs_def bnd_Inr_iff boot_ok_def parser_ok_def)

lemma boot_step_ok: "boot_step b b' \<Longrightarrow> boot_ok b \<Longrightarrow> boot_ok b'"
proof (induction rule: boot_step.induct)
  case (load r stk b n b')
  then show ?case by (rule load_ok [rotated])
next
  case (begin_boot b)
  then show ?case by (simp add: startBootSequence_def boot_ok_def)
qed (simp_all add: startService_ok stopService_ok start_classes_ok run_command_ok stop_all_ok,
     simp_all add: boot_ok_def boot_frame)

lemma boot_steps_ok: "boot_step\<^sup>*\<^sup>* b b' \<Longrightarrow> boot_ok b \<Longrightarrow> boot_ok b'"
  by (induction rule: rtranclp_induct) (blast intro: boot_step_ok)+

lemma boot_init_ok: "boot_ok (boot_init ps h)"
  by (simp add: boot_init_def boot_ok_def pids_ok_def parser_clear_def index_ok_def)

lemma running_pids_distinct:
  assumes "\<forall>i < length ss. \<forall>j < length ss. running (ss ! i) \<and> running (ss ! j) \<and> svPid (ss ! i) = svPid (ss ! j) \<longrightarrow> i = j"
  shows "distinct (map svPid (filter running ss))"
  using assms
proof (induction ss)
  case (Cons s ss)
  have "\<forall>i < length ss. \<forall>j < length ss. running (ss ! i) \<and> running (ss ! j)
        \<and> svPid (ss ! i) = svPid (ss ! j) \<longrightarrow> i = j"
    using Cons.prems by (metis Suc_inject Suc_less_eq length_Cons nth_Cons_Suc)
  moreover have "svPid s \<notin> svPid ` {t \<in> set ss. running t}" if "running s"
    using Cons.prems that
    by (auto simp: in_set_conv_nth) (metis Suc_less_eq Zero_not_Suc length_Cons nth_Cons_0 nth_Cons_Suc zero_less_Suc)
  ultimately show ?case using Cons.IH by simp
qed simp

lemma boot_ok_pids: "boot_ok b \<Longrightarrow> distinct (map svPid (filter running (services b)))"
  by (rule running_pids_distinct) (simp add: boot_ok_def pids_ok_def)


lemma demo_boot_step:
  "\<exists>b. boot_step\<^sup>*\<^sup>* (boot_init ps h) b \<and> filter running (services b) \<noteq> []"
proof -
  let ?p = "foldl addService parser_clear core_services"
  let ?b = "(boot_init ps h)\<lparr>bmParser := ?p\<rparr>"
  have "boot_step (boot_init ps h) ?b"
    by (rule boot_step.load [where r = demo_reader and stk = 1], unfold loadInitFromVfs_def demo_load) simp
  moreover have "boot_step ?b (snd (startService ''vold'' ?b))"
    by (rule boot_step.start)
  ultimately have "boot_step\<^sup>*\<^sup>* (boot_init ps h) (snd (startService ''vold'' ?b))"
    by simp
  moreover have "filter running (services (snd (startService ''vold'' ?b))) \<noteq> []"
    by (simp add: startService_def findService_def findServiceIndex_def updateService_def addService_def
        core_services_def core_service_def new_service_def parser_clear_def running_def Let_def boot_frame)
  ultimately show ?thesis by blast
qed


section \<open>A boot and a stop\<close>

definition grows :: "boot \<Rightarrow> boot \<Rightarrow> bool" where
  "grows b b' \<longleftrightarrow> length (services b') = length (services b)
     \<and> (\<forall>i < length (services b). svName (services b' ! i) = svName (services b ! i)
          \<and> svClasses (services b' ! i) = svClasses (services b ! i)
          \<and> svIsDisabled (services b' ! i) = svIsDisabled (services b ! i)
          \<and> (running (services b ! i) \<longrightarrow> running (services b' ! i)))"

lemma grows_refl [simp]: "grows b b"
  by (simp add: grows_def)

lemma grows_trans: "grows a b \<Longrightarrow> grows b c \<Longrightarrow> grows a c"
  by (simp add: grows_def)

lemma grows_same: "bmParser b' = bmParser b \<Longrightarrow> grows b b'"
  by (simp add: grows_def)

lemma grows_foldl: "(\<And>b x. grows b (f b x)) \<Longrightarrow> grows b (foldl f b xs)"
  using foldl_inv [of "grows b" b xs f] by (blast intro: grows_refl grows_trans)

lemma grows_update:
  assumes "services b' = (services b)[i := s]" "svName s = svName (services b ! i)"
    and "svClasses s = svClasses (services b ! i)" "svIsDisabled s = svIsDisabled (services b ! i)" "running s"
  shows "grows b b'"
  unfolding grows_def
proof (intro conjI allI impI)
  fix j assume j: "j < length (services b)"
  show "svName (services b' ! j) = svName (services b ! j)"
    "svClasses (services b' ! j) = svClasses (services b ! j)"
    "svIsDisabled (services b' ! j) = svIsDisabled (services b ! j)"
    using assms j by (cases "j = i"; simp)+
  show "running (services b' ! j)" if "running (services b ! j)"
    using assms j that by (cases "j = i"; simp)
qed (use assms(1) in simp)

lemma startService_grows: "grows b (snd (startService nm b))"
proof (cases "\<exists>i. findServiceIndex (bmParser b) nm = Some i \<and> svStatus (services b ! i) \<noteq> ''RUNNING''")
  case True
  then obtain i where i: "findServiceIndex (bmParser b) nm = Some i" "svStatus (services b ! i) \<noteq> ''RUNNING''"
    by blast
  show ?thesis
    by (rule grows_update [where i = i and s = "(services b ! i)\<lparr>svStatus := ''RUNNING'', svPid := bmNextPid b\<rparr>"])
      (use i in \<open>simp_all add: startService_def findService_def updateService_def Let_def boot_frame running_def\<close>)
next
  case False
  then show ?thesis
    by (cases "findServiceIndex (bmParser b) nm") (auto simp: startService_def findService_def)
qed

lemma start_at_grows: "grows b (start_at w m b i)"
proof (cases "list_ex w (svClasses (services b ! i)) \<and> svStatus (services b ! i) \<noteq> ''RUNNING''
    \<and> \<not> svIsDisabled (services b ! i)")
  case True
  show ?thesis
    by (rule grows_update [where i = i and s = "(services b ! i)\<lparr>svStatus := ''RUNNING'', svPid := bmNextPid b\<rparr>"])
      (use True in \<open>simp_all add: start_at_def Let_def boot_frame running_def\<close>)
qed (auto simp: start_at_def)

lemma start_classes_grows: "grows b (start_classes w m b)"
  unfolding start_classes_def by (rule grows_foldl) (rule start_at_grows)

lemma run_command_grows: "grows b (run_command dir b cmd)"
proof -
  have "grows b (run_mkdir dir c b)" "grows b (run_setprop c b)" for c
    by (auto intro: grows_same simp: run_mkdir_def run_setprop_def Let_def boot_frame split: option.splits)
  then show ?thesis
    using startService_grows start_classes_grows by (simp add: run_command_def)
qed

lemma triggers_grow: "grows b (executeTriggerActions trig dir b)"
  unfolding executeTriggerActions_def by (rule grows_foldl) (rule run_command_grows)

lemma start_at_starts:
  "i < length (services b) \<Longrightarrow> list_ex w (svClasses (services b ! i)) \<Longrightarrow> \<not> svIsDisabled (services b ! i)
   \<Longrightarrow> running (services (start_at w m b i) ! i)"
  by (simp add: start_at_def Let_def boot_frame running_def)

lemma start_classes_starts:
  "n \<le> length (services b) \<Longrightarrow> i < n \<Longrightarrow> list_ex w (svClasses (services b ! i)) \<Longrightarrow> \<not> svIsDisabled (services b ! i)
   \<Longrightarrow> running (services (foldl (start_at w m) b [0..<n]) ! i)"
proof (induction n)
  case (Suc n)
  let ?c = "foldl (start_at w m) b [0..<n]"
  have c: "grows b ?c"
    by (rule grows_foldl) (rule start_at_grows)
  show ?case
  proof (cases "i = n")
    case True
    then show ?thesis
      using c Suc.prems start_at_starts [of n ?c w m] by (simp add: grows_def)
  next
    case False
    then have "running (services ?c ! i)"
      using Suc by simp
    then show ?thesis
      using start_at_grows [of ?c w m n] c Suc.prems by (simp add: grows_def)
  qed
qed simp

definition wants :: "(string \<Rightarrow> bool) \<Rightarrow> boot \<Rightarrow> bool" where
  "wants w b \<longleftrightarrow> (\<forall>i < length (services b). list_ex w (svClasses (services b ! i))
     \<and> \<not> svIsDisabled (services b ! i) \<longrightarrow> running (services b ! i))"

lemma start_classes_wants: "wants w (start_classes w m b)"
proof -
  have "grows b (start_classes w m b)" by (rule start_classes_grows)
  then show ?thesis
    using start_classes_starts [of "length (services b)" b _ w m]
    by (simp add: wants_def grows_def start_classes_def)
qed

lemma wants_grows: "wants w b \<Longrightarrow> grows b b' \<Longrightarrow> wants w b'"
  by (simp add: wants_def grows_def)

lemma triggers_frame [boot_frame]:
  "bmPhase (executeTriggerActions trig dir b) = bmPhase b"
  "bmIsBooting (executeTriggerActions trig dir b) = bmIsBooting b"
proof -
  have cls: "bmPhase (start_classes w m c) = bmPhase c \<and> bmIsBooting (start_classes w m c) = bmIsBooting c" for w m c
    unfolding start_classes_def
    using foldl_inv [of "\<lambda>d. bmPhase d = bmPhase c \<and> bmIsBooting d = bmIsBooting c" c _ "start_at w m"]
    by (simp add: start_at_def Let_def boot_frame)
  have "bmPhase (run_command dir c x) = bmPhase c \<and> bmIsBooting (run_command dir c x) = bmIsBooting c" for c x
    using cls by (simp add: run_command_def run_mkdir_def run_setprop_def startService_def Let_def boot_frame
        split: option.splits)
  then show "bmPhase (executeTriggerActions trig dir b) = bmPhase b"
    "bmIsBooting (executeTriggerActions trig dir b) = bmIsBooting b"
    unfolding executeTriggerActions_def
    using foldl_inv [of "\<lambda>d. bmPhase d = bmPhase b \<and> bmIsBooting d = bmIsBooting b" b _ "run_command dir"]
    by simp_all
qed

lemma start_classes_frame [boot_frame]: "bmPhase (start_classes w m b) = bmPhase b"
  unfolding start_classes_def
  using foldl_inv [of "\<lambda>d. bmPhase d = bmPhase b" b _ "start_at w m"]
  by (simp add: start_at_def Let_def boot_frame)

lemma boot_setprop_look:
  "find_prop (bmProps (boot_setprop b k v)) q = (if q = k then Some v else find_prop (bmProps b) q)"
  by (simp add: boot_setprop_def setProperty_def Let_def ps.look_put)

lemma phase1_grows: "grows b (boot_phase1 dir b)"
proof -
  have "grows b (foldl (\<lambda>b d. createDir b (dir @ d)) (logBoot m (set_phase ph (logBoot m' b))) ds)" for m m' ph ds
    by (rule grows_trans [OF grows_same grows_foldl]) (auto simp: boot_frame intro: grows_same)
  then show ?thesis
    unfolding boot_phase1_def Let_def by (rule grows_trans) (rule triggers_grow)
qed

lemma phase2_grows: "grows b (boot_phase2 net dir b) \<and> wants (\<lambda>c. c = ''core'') (boot_phase2 net dir b)"
proof -
  define c where "c = (case start_service (fst net) (fst (snd net)) (snd (snd net)) (bmProps b) (bmHost b) dir of
    (ok, s, h) \<Rightarrow> (logBoot ''[init] [Phase 2/4] Trigger: on init (Starting Property Service & Core Daemons)''
      (set_phase INIT b))\<lparr>bmProps := s, bmHost := h\<rparr>)"
  have c: "bmParser c = bmParser b"
    by (simp add: c_def boot_frame split: prod.splits)
  have e: "boot_phase2 net dir b =
      executeTriggerActions ''init'' dir (start_classes (\<lambda>c. c = ''core'') (pid_msg ''Core'') c)"
    by (simp add: boot_phase2_def Let_def c_def logBoot_def set_phase_def)
  show ?thesis
    unfolding e using grows_same [OF c] start_classes_grows triggers_grow start_classes_wants
    by (blast intro: grows_trans wants_grows)
qed

lemma phase3_grows:
  "grows b (boot_phase3 dir b) \<and> wants (\<lambda>c. c = ''main'' \<or> c = ''animation'') (boot_phase3 dir b)"
proof -
  define c where "c = logBoot ''[init] [Phase 3/4] Trigger: on boot (Starting Main Framework Daemons)''
    (set_phase BOOT (executeTriggerActions ''early-boot'' dir
      (logBoot ''[init] [Phase 3/4] Trigger: on early-boot'' (set_phase EARLY_BOOT b))))"
  let ?d = "start_classes (\<lambda>c. c = ''main'' \<or> c = ''animation'') (pid_msg ''Framework'') c"
  have lp: "grows d (logBoot m (set_phase ph d))" for m ph d
    by (rule grows_same) (simp add: boot_frame)
  have "grows b c"
    unfolding c_def by (rule grows_trans [OF grows_trans [OF lp triggers_grow] lp])
  moreover have "boot_phase3 dir b = executeTriggerActions ''boot'' dir ?d"
    by (simp add: boot_phase3_def Let_def c_def)
  ultimately show ?thesis
    using grows_trans [OF grows_trans [OF _ start_classes_grows] triggers_grow]
      wants_grows [OF start_classes_wants triggers_grow] by simp
qed

lemma phase_results:
  "bmPhase (boot_phase1 dir b) = EARLY_INIT" "bmPhase (boot_phase2 net dir b) = INIT"
  "bmPhase (boot_phase3 dir b) = BOOT" "bmPhase (boot_phase4 b) = COMPLETED" "\<not> bmIsBooting (boot_phase4 b)"
proof -
  have "bmPhase (foldl (\<lambda>b d. createDir b (dir @ d)) c ds) = bmPhase c" for c ds
    using foldl_inv [of "\<lambda>d. bmPhase d = bmPhase c" c ds "\<lambda>b d. createDir b (dir @ d)"] by (simp add: boot_frame)
  then show "bmPhase (boot_phase1 dir b) = EARLY_INIT"
    by (simp add: boot_phase1_def Let_def boot_frame del: foldl_Cons)
qed (simp_all add: boot_phase2_def boot_phase3_def boot_phase4_def Let_def boot_frame split: prod.splits)

lemma phase4_same: "bmParser (boot_phase4 b) = bmParser b"
  by (simp add: boot_phase4_def Let_def boot_frame)

lemma phase4_props: "find_prop (bmProps (boot_phase4 b)) ''sys.boot_completed'' = Some ''1''"
  by (simp add: boot_phase4_def Let_def boot_frame boot_setprop_look)

lemma worker_phases:
  "bmPhase (bootWorker net False g2 g3 dir b) = EARLY_INIT"
  "bmPhase (bootWorker net True False g3 dir b) = INIT"
  "bmPhase (bootWorker net True True False dir b) = BOOT"
  unfolding bootWorker_def Let_def by (simp_all only: phase_results if_True if_False not_True_eq_False not_False_eq_True)

lemma worker_completed:
  "bmPhase (bootWorker net True True True dir b) = COMPLETED" "\<not> bmIsBooting (bootWorker net True True True dir b)"
  "find_prop (bmProps (bootWorker net True True True dir b)) ''sys.boot_completed'' = Some ''1''"
  unfolding bootWorker_def Let_def
  by (simp_all only: phase_results phase4_props if_False not_True_eq_False not_False_eq_True)

lemma worker_services:
  "map svName (services (bootWorker net True True True dir b)) = map svName (services b)"
  "wants (\<lambda>c. c = ''core'') (bootWorker net True True True dir b)"
  "wants (\<lambda>c. c = ''main'' \<or> c = ''animation'') (bootWorker net True True True dir b)"
proof -
  define b2 where "b2 = boot_phase2 net dir (boot_phase1 dir b)"
  define b3 where "b3 = boot_phase3 dir b2"
  have w: "bootWorker net True True True dir b = boot_phase4 b3"
    unfolding bootWorker_def Let_def b2_def b3_def by (simp only: if_False not_True_eq_False)
  have g: "grows b b2" "wants (\<lambda>c. c = ''core'') b2" "grows b2 b3" "wants (\<lambda>c. c = ''main'' \<or> c = ''animation'') b3"
    unfolding b3_def b2_def
    using grows_trans [OF phase1_grows phase2_grows [THEN conjunct1]] phase2_grows phase3_grows by blast+
  have p4: "grows b3 (boot_phase4 b3)"
    by (rule grows_same) (rule phase4_same)
  have "grows b (boot_phase4 b3)"
    using g(1,3) p4 by (blast intro: grows_trans)
  then show "map svName (services (bootWorker net True True True dir b)) = map svName (services b)"
    unfolding w by (simp add: grows_def list_eq_iff_nth_eq)
  show "wants (\<lambda>c. c = ''core'') (bootWorker net True True True dir b)"
    unfolding w using wants_grows [OF wants_grows [OF g(2,3)] p4] .
  show "wants (\<lambda>c. c = ''main'' \<or> c = ''animation'') (bootWorker net True True True dir b)"
    unfolding w using wants_grows [OF g(4) p4] .
qed

text \<open>C21: A boot that nobody stops goes through its phases in their order and completes: it ends with the
  boot flag cleared and sys.boot_completed set, with the services it began with under their names, and
  every service of class core, main or animation that is not disabled running; a boot that is stopped
  early is left in the phase it had reached.\<close>

theorem boot_completes:
  assumes "b' = bootWorker net True True True dir b"
  shows "(\<forall>s \<in> set (services b'). {''core'', ''main'', ''animation''} \<inter> set (svClasses s) \<noteq> {} \<and> \<not> svIsDisabled s
        \<longrightarrow> running s)
    \<and> map svName (services b') = map svName (services b)
    \<and> bmPhase b' = COMPLETED \<and> \<not> bmIsBooting b' \<and> find_prop (bmProps b') ''sys.boot_completed'' = Some ''1''
    \<and> bmPhase (bootWorker net False g2 g3 dir b) < bmPhase (bootWorker net True False g3 dir b)
    \<and> bmPhase (bootWorker net True False g3 dir b) < bmPhase (bootWorker net True True False dir b)
    \<and> bmPhase (bootWorker net True True False dir b) < bmPhase b'"
proof -
  have "running s" if s: "s \<in> set (services b')" "{''core'', ''main'', ''animation''} \<inter> set (svClasses s) \<noteq> {}"
    "\<not> svIsDisabled s" for s
  proof -
    obtain i where i: "i < length (services b')" "services b' ! i = s"
      using s(1) by (metis in_set_conv_nth)
    have "list_ex (\<lambda>c. c = ''core'') (svClasses s) \<or> list_ex (\<lambda>c. c = ''main'' \<or> c = ''animation'') (svClasses s)"
      using s(2) by (auto simp: list_ex_iff)
    then show ?thesis
      using worker_services(2,3) [of net dir b, folded assms] i s(3) unfolding wants_def by blast
  qed
  then show ?thesis
    unfolding assms worker_phases worker_completed worker_services less_BootPhase_def phase_no.simps
    using worker_completed(2) by simp
qed

theorem boot_completes_witness:
  "\<exists>s. services (bootWorker (True, True, True) True True True ''/s''
        ((boot_init prop_service_init empty_host)\<lparr>bmParser := addService parser_clear (hd core_services)\<rparr>)) = [s]
     \<and> svName s = ''servicemanager''"
proof -
  let ?b = "(boot_init prop_service_init empty_host)\<lparr>bmParser := addService parser_clear (hd core_services)\<rparr>"
  have "map svName (services (bootWorker (True, True, True) True True True ''/s'' ?b)) = map svName (services ?b)"
    using boot_completes [OF refl, of "(True, True, True)" "''/s''" ?b] by blast
  then have "map svName (services (bootWorker (True, True, True) True True True ''/s'' ?b)) = [''servicemanager'']"
    by (simp add: addService_def parser_clear_def core_services_def core_service_def)
  then show ?thesis by auto
qed

lemma stop_at_simps [boot_frame]:
  "bmPhase (stop_at b i) = bmPhase b" "bmIsBooting (stop_at b i) = bmIsBooting b" "bmNextPid (stop_at b i) = bmNextPid b"
  by (simp_all add: stop_at_def Let_def boot_frame)

definition stopped :: "InitService \<Rightarrow> InitService" where
  "stopped s = (if running s then s\<lparr>svStatus := ''STOPPED'', svPid := -1\<rparr> else s)"

lemma stop_at_services: "i < length (services b) \<Longrightarrow> services (stop_at b i) = (services b)[i := stopped (services b ! i)]"
  by (auto simp: stop_at_def Let_def boot_frame stopped_def running_def)

lemma set_services_props [boot_frame]: "bmProps (set_services b ss) = bmProps b"
  by (simp add: set_services_def)

lemma stop_at_props:
  "find_prop (bmProps (stop_at b i)) q =
     (if running (services b ! i) \<and> q = svc_prop (services b ! i) then Some ''stopped'' else find_prop (bmProps b) q)"
  by (simp add: stop_at_def Let_def boot_setprop_look boot_frame running_def)

lemma stop_loop_frame:
  "bmPhase (foldl stop_at b is) = bmPhase b \<and> bmIsBooting (foldl stop_at b is) = bmIsBooting b"
  by (rule foldl_inv) (simp_all add: boot_frame)

lemma stop_loop_services:
  "n \<le> length (services b) \<Longrightarrow>
   services (foldl stop_at b [0..<n]) = map stopped (take n (services b)) @ drop n (services b)"
proof (induction n)
  case (Suc n)
  let ?c = "foldl stop_at b [0..<n]"
  let ?s = "services b ! n"
  have IH: "services ?c = map stopped (take n (services b)) @ drop n (services b)"
    using Suc by simp
  have n: "services ?c ! n = ?s"
    using Suc.prems by (simp add: IH nth_append)
  have "services (stop_at ?c n) = (services ?c)[n := stopped (services ?c ! n)]"
    by (rule stop_at_services) (use Suc.prems in \<open>simp add: IH\<close>)
  then have "services (stop_at ?c n) = (services ?c)[n := stopped ?s]"
    unfolding n .
  also have "\<dots> = map stopped (take (Suc n) (services b)) @ drop (Suc n) (services b)"
    using Suc.prems by (simp add: IH list_update_append take_Suc_conv_app_nth Cons_nth_drop_Suc [symmetric])
  finally show ?case by simp
qed simp

lemma stop_loop_props:
  assumes "n \<le> length (services b)"
  shows "find_prop (bmProps (foldl stop_at b [0..<n])) q =
    (if \<exists>s \<in> set (take n (services b)). running s \<and> q = svc_prop s then Some ''stopped'' else find_prop (bmProps b) q)"
  using assms
proof (induction n)
  case (Suc n)
  have "services (foldl stop_at b [0..<n]) ! n = services b ! n"
    using stop_loop_services [of n b] Suc.prems by (simp add: nth_append)
  then show ?case
    using Suc.IH Suc.prems by (auto simp: stop_at_props take_Suc_conv_app_nth)
qed simp

text \<open>Stopping the boot sequence stops every running service and only those, keeps all else of each
  service, publishes init.svc.<name> = stopped for exactly the stopped ones, and goes back to IDLE.\<close>

lemma stop_resets_services:
  "services (stopBootSequence b) = map stopped (services b)
   \<and> filter running (services (stopBootSequence b)) = []
   \<and> find_prop (bmProps (stopBootSequence b)) q =
       (if q \<in> svc_prop ` set (filter running (services b)) then Some ''stopped'' else find_prop (bmProps b) q)
   \<and> bmPhase (stopBootSequence b) = IDLE \<and> \<not> bmIsBooting (stopBootSequence b)"
proof -
  let ?c = "b\<lparr>bmIsBooting := False\<rparr>"
  have s: "services (stopBootSequence b) = map stopped (services b)"
    using stop_loop_services [of "length (services b)" ?c] by (simp add: stopBootSequence_def Let_def boot_frame)
  moreover have "filter running (map stopped (services b)) = []"
    by (auto simp: filter_empty_conv stopped_def running_def)
  moreover have "q \<in> svc_prop ` set (filter running (services b)) \<longleftrightarrow> (\<exists>s \<in> set (services b). running s \<and> q = svc_prop s)"
    by auto
  ultimately show ?thesis
    using stop_loop_props [of "length (services b)" ?c q] stop_loop_frame [of ?c "[0..<length (services b)]"]
    by (auto simp: stopBootSequence_def Let_def boot_frame)
qed

end
