(* ===== verification/Hook_Engine.thy ===== *)
theory Hook_Engine
  imports Property_Service Virtual_Binder
begin

text \<open>
  The interposed libc of \<^verbatim>\<open>hook_engine.cpp\<close>: path redirection into the sandbox, the
  diverted system calls, the virtual identity, properties and the hardware module table. The real
  functions behind \<^verbatim>\<open>dlsym(RTLD_NEXT, ...)\<close> are the parameter \<open>libc\<close>: what a
  call returns, \<open>None\<close> when the symbol is missing. A hook returns its result with the real calls it
  made, so their arguments can be seen. \<open>env\<close> is \<^verbatim>\<open>getenv\<close>.
\<close>

section \<open>The sandbox directory\<close>

type_synonym env = "string \<Rightarrow> string option"

definition default_sandbox :: string where
  "default_sandbox = ''/data/data/com.gsi.runtime/files/sandbox''"

definition sandbox_dir :: "env \<Rightarrow> string" where
  "sandbox_dir env = (case env ''GSI_SANDBOX_DIR'' of
     Some s \<Rightarrow> if s \<noteq> [] then s else default_sandbox | None \<Rightarrow> default_sandbox)"

section \<open>Path redirection\<close>

text \<open>
  The tests of \<^verbatim>\<open>redirectSandboxPath\<close> in their order: equality with a path, a prefix
  that maps to one file, and a prefix whose path is kept from an offset on.
\<close>

datatype redirect_rule =
    Exact string string
  | Under string string
  | Tail string string nat

fun rule_matches :: "redirect_rule \<Rightarrow> string \<Rightarrow> bool" where
  "rule_matches (Exact q t) p = (p = q)"
| "rule_matches (Under q t) p = starts_with q p"
| "rule_matches (Tail q t n) p = starts_with q p"

fun rule_target :: "redirect_rule \<Rightarrow> string \<Rightarrow> string" where
  "rule_target (Exact q t) p = t"
| "rule_target (Under q t) p = t"
| "rule_target (Tail q t n) p = t @ drop n p"

definition redirect_rules :: "redirect_rule list" where
  "redirect_rules =
    [Exact ''/proc/cmdline'' ''/proc/cmdline'',
     Exact ''/dev/graphics/fb0'' ''/tmp/vfb0'',
     Exact ''/dev/fb0'' ''/tmp/vfb0'',
     Under ''/dev/ashmem'' ''/tmp/ashmem_default.raw'',
     Under ''/dev/socket/property_service'' ''/dev/socket/property_service'',
     Under ''/dev/socket/netd'' ''/dev/socket/netd'',
     Under ''/dev/socket/dnsproxyd'' ''/dev/socket/netd'',
     Under ''/dev/socket/logdw'' ''/dev/socket/logdw'',
     Under ''/dev/socket/logd'' ''/dev/socket/logdw'',
     Under ''/dev/log/'' ''/dev/socket/logdw'',
     Under ''/dev/socket/logdr'' ''/dev/socket/logdr'',
     Exact ''/etc/resolv.conf'' ''/etc/resolv.conf'',
     Exact ''/etc/hosts'' ''/etc/hosts'',
     Under ''/dev/__properties__'' ''/dev/__properties_text__'',
     Under ''/dev/snd/'' ''/tmp/audio_pcm.raw'',
     Under ''/dev/input/'' ''/tmp/touch_event'',
     Tail ''/sys/class/power_supply/'' ''/sys/class/power_supply/'' 24,
     Tail ''/sys/devices/virtual/power_supply/'' ''/sys/class/power_supply/'' 34,
     Tail ''/sys/bus/iio/devices/'' ''/sys/bus/iio/devices/'' 21,
     Exact ''/dev/video0'' ''/tmp/v4l2_video0.raw'',
     Exact ''/dev/video1'' ''/tmp/v4l2_video1.raw'',
     Under ''/dev/video'' ''/tmp/v4l2_video0.raw'',
     Exact ''/sdcard'' ''/data/media/0'',
     Tail ''/sdcard/'' ''/data/media/0'' 7,
     Exact ''/storage/emulated/0'' ''/data/media/0'',
     Tail ''/storage/emulated/0/'' ''/data/media/0'' 19,
     Exact ''/storage/self/primary'' ''/data/media/0'',
     Tail ''/storage/self/primary/'' ''/data/media/0'' 21,
     Exact ''/data/media/0'' ''/data/media/0'',
     Tail ''/data/media/0/'' ''/data/media/0'' 13,
     Exact ''/data/media'' ''/data/media'',
     Tail ''/data/media/'' ''/data/media'' 11,
     Exact ''/storage/emulated'' ''/data/media'',
     Tail ''/storage/emulated/'' ''/data/media'' 17,
     Exact ''/proc/mounts'' ''/proc/mounts'',
     Exact ''/dev/fuse'' ''/tmp/dev_fuse.raw'',
     Exact ''/dev/socket/rild'' ''/dev/socket/rild'',
     Exact ''/dev/socket/rild-debug'' ''/dev/socket/rild-debug'',
     Exact ''/dev/socket/wpa_wlan0'' ''/dev/socket/wpa_wlan0'',
     Exact ''/dev/vhci'' ''/tmp/dev_vhci.raw'',
     Exact ''/dev/rfkill'' ''/tmp/dev_rfkill.raw'',
     Exact ''/dev/tee0'' ''/tmp/dev_tee0.raw'',
     Exact ''/dev/ion'' ''/tmp/dev_ion.raw'',
     Exact ''/dev/qseecom'' ''/tmp/dev_qseecom.raw'',
     Exact ''/dev/fingerprint'' ''/tmp/dev_fingerprint.raw'',
     Exact ''/dev/qfp-nodisplay'' ''/tmp/dev_fingerprint.raw'',
     Exact ''/dev/esfp0'' ''/tmp/dev_fingerprint.raw'',
     Exact ''/dev/kgsl-3d0'' ''/tmp/dev_kgsl_3d0.raw'',
     Exact ''/dev/mali0'' ''/tmp/dev_mali0.raw'',
     Exact ''/dev/dri/card0'' ''/tmp/dev_dri_card0.raw'',
     Exact ''/dev/dri/renderD128'' ''/tmp/dev_dri_renderD128.raw'',
     Exact ''/dev/usb_accessory'' ''/tmp/dev_usb_accessory.raw'',
     Exact ''/dev/mtp_usb'' ''/tmp/dev_mtp_usb.raw'',
     Exact ''/dev/android_adb'' ''/tmp/dev_android_adb.raw'']"

definition redirect_with :: "redirect_rule list \<Rightarrow> string \<Rightarrow> string \<Rightarrow> string" where
  "redirect_with rules sandbox p =
     (case find (\<lambda>r. rule_matches r p) rules of
        Some r \<Rightarrow> sandbox @ rule_target r p | None \<Rightarrow> p)"

text \<open>A null pointer is \<open>None\<close>.\<close>

definition redirectSandboxPath :: "env \<Rightarrow> string option \<Rightarrow> string" where
  "redirectSandboxPath env path =
     (case path of None \<Rightarrow> [] | Some p \<Rightarrow> redirect_with redirect_rules (sandbox_dir env) p)"

section \<open>System calls\<close>

datatype sockaddr = NullAddr | UnixAddr string | OtherAddr nat

datatype real_call =
    ROpen "string option" u32 nat
  | ROpenat int "string option" u32 nat
  | RIoctl int u32
  | RClose int
  | RConnect int sockaddr
  | RSocket int u32 int
  | RPrctl int
  | RStat string | RFstatat string | RLstat string | RLfstatat string
  | RAccess string nat | RFaccessat string nat
  | RFtruncate int nat

type_synonym libc = "real_call \<Rightarrow> int option"

text \<open>\<^verbatim>\<open>real ? real(...) : missing\<close>\<close>

definition delegate :: "libc \<Rightarrow> real_call \<Rightarrow> int \<Rightarrow> int \<times> real_call list" where
  "delegate libc c missing = (case libc c of Some r \<Rightarrow> (r, [c]) | None \<Rightarrow> (missing, []))"

definition O_CREAT :: u32 where "O_CREAT = 0x40"
definition AT_FDCWD :: int where "AT_FDCWD = - 100"

definition binder_device :: "string \<Rightarrow> BinderType option" where
  "binder_device path =
     (if has_substr ''/dev/binder'' path then Some BINDER
      else if has_substr ''/dev/hwbinder'' path then Some HWBINDER
      else if has_substr ''/dev/vndbinder'' path then Some VNDBINDER
      else None)"

text \<open>
  \<^verbatim>\<open>close\<close> as the library links it: a virtual descriptor goes to the broker, whose own
  \<^verbatim>\<open>::close\<close> is this function again; \<open>stk\<close> bounds the frames.
\<close>

fun hook_close :: "libc \<Rightarrow> nat \<Rightarrow> close_fn" where
  "hook_close libc 0 br fd = Inl StackExhausted"
| "hook_close libc (Suc stk) br fd =
     bnd (isVirtualBinderFd br fd) (\<lambda>virt.
       if virt then bnd (closeVirtualBinderFd (hook_close libc stk) br fd) (\<lambda>br. Inr (0, br))
       else Inr (fst (delegate libc (RClose fd) (-1)), br))"

type_synonym hook_ret = "fault + (int \<times> real_call list \<times> broker)"

definition hook_open ::
  "env \<Rightarrow> libc \<Rightarrow> close_fn \<Rightarrow> (int \<times> int) option \<Rightarrow> string option \<Rightarrow> u32 \<Rightarrow> nat \<Rightarrow> broker \<Rightarrow> hook_ret" where
  "hook_open env libc closef pair path flags m br =
     (let mode = if flags AND O_CREAT \<noteq> 0 then m else 0 in
      case path of
        None \<Rightarrow> (case delegate libc (ROpen path flags mode) (-1) of (r, cs) \<Rightarrow> Inr (r, cs, br))
      | Some p \<Rightarrow>
          (case binder_device p of
             Some type \<Rightarrow> bnd (createVirtualBinderFd closef pair type br) (\<lambda>(fd, br). Inr (fd, [], br))
           | None \<Rightarrow>
               let redirected = redirectSandboxPath env path in
               case delegate libc (ROpen (Some redirected) flags mode) (-1) of (r, cs) \<Rightarrow> Inr (r, cs, br)))"

definition hook_openat ::
  "env \<Rightarrow> libc \<Rightarrow> close_fn \<Rightarrow> (int \<times> int) option \<Rightarrow> int \<Rightarrow> string option \<Rightarrow> u32 \<Rightarrow> nat \<Rightarrow> broker \<Rightarrow> hook_ret" where
  "hook_openat env libc closef pair dirfd path flags m br =
     (let mode = if flags AND O_CREAT \<noteq> 0 then m else 0 in
      case path of
        None \<Rightarrow> (case delegate libc (ROpenat dirfd path flags mode) (-1) of (r, cs) \<Rightarrow> Inr (r, cs, br))
      | Some p \<Rightarrow>
          (case binder_device p of
             Some type \<Rightarrow> bnd (createVirtualBinderFd closef pair type br) (\<lambda>(fd, br). Inr (fd, [], br))
           | None \<Rightarrow>
               let redirected = redirectSandboxPath env path in
               if redirected \<noteq> p
               then (case delegate libc (ROpenat AT_FDCWD (Some redirected) flags mode) (-1) of
                       (r, cs) \<Rightarrow> Inr (r, cs, br))
               else (case delegate libc (ROpenat dirfd path flags mode) (-1) of
                       (r, cs) \<Rightarrow> Inr (r, cs, br))))"

definition hook_ioctl :: "libc \<Rightarrow> int \<Rightarrow> u32 \<Rightarrow> ioctl_arg \<Rightarrow> broker
    \<Rightarrow> fault + (int \<times> ioctl_arg \<times> real_call list \<times> broker)" where
  "hook_ioctl libc fd request arg br =
     bnd (isVirtualBinderFd br fd) (\<lambda>virt.
       if virt then bnd (handleIoctl br fd request arg) (\<lambda>(r, arg, br). Inr (r, arg, [], br))
       else case delegate libc (RIoctl fd request) (-1) of (r, cs) \<Rightarrow> Inr (r, arg, cs, br))"

definition hook_mount :: "string option \<Rightarrow> string option \<Rightarrow> string option \<Rightarrow> int" where
  "hook_mount source target fstype = 0"
definition hook_umount :: "string option \<Rightarrow> int" where "hook_umount target = 0"
definition hook_umount2 :: "string option \<Rightarrow> int \<Rightarrow> int" where "hook_umount2 target flags = 0"
definition hook_chroot :: "string option \<Rightarrow> int" where "hook_chroot path = 0"

record statfs_buf =
  f_type :: u32
  f_bsize :: u64
  f_blocks :: u64
  f_bfree :: u64
  f_bavail :: u64
  f_files :: u64
  f_ffree :: u64
  f_namelen :: u64
  f_frsize :: u64
  f_flags :: u64

datatype errno = EFAULT

definition hook_statfs :: "statfs_buf option \<Rightarrow> errno + (int \<times> statfs_buf)" where
  "hook_statfs buf = (case buf of
     None \<Rightarrow> Inl EFAULT
   | Some b \<Rightarrow> Inr (0, \<lparr>f_type = 0x65735546, f_bsize = 4096, f_blocks = 16777216, f_bfree = 14680064,
       f_bavail = 14680064, f_files = 1000000, f_ffree = 950000, f_namelen = 255, f_frsize = 4096,
       f_flags = 0\<rparr>))"

record statvfs_buf =
  v_bsize :: u64
  v_frsize :: u64
  v_blocks :: u64
  v_bfree :: u64
  v_bavail :: u64
  v_files :: u64
  v_ffree :: u64
  v_favail :: u64
  v_namemax :: u64

definition hook_statvfs :: "statvfs_buf option \<Rightarrow> errno + (int \<times> statvfs_buf)" where
  "hook_statvfs buf = (case buf of
     None \<Rightarrow> Inl EFAULT
   | Some b \<Rightarrow> Inr (0, \<lparr>v_bsize = 4096, v_frsize = 4096, v_blocks = 16777216, v_bfree = 14680064,
       v_bavail = 14680064, v_files = 1000000, v_ffree = 950000, v_favail = 950000, v_namemax = 255\<rparr>))"

definition path_call ::
  "env \<Rightarrow> libc \<Rightarrow> (string \<Rightarrow> real_call) \<Rightarrow> (string \<Rightarrow> real_call) \<Rightarrow> string option \<Rightarrow> errno + (int \<times> real_call list)"
where
  "path_call env libc c fallback path = (case path of
     None \<Rightarrow> Inl EFAULT
   | Some p \<Rightarrow>
       let redirected = redirectSandboxPath env path in
       case libc (c redirected) of
         Some r \<Rightarrow> Inr (r, [c redirected])
       | None \<Rightarrow> Inr (delegate libc (fallback redirected) (-1)))"

definition hook_stat :: "env \<Rightarrow> libc \<Rightarrow> string option \<Rightarrow> errno + (int \<times> real_call list)" where
  "hook_stat env libc path = path_call env libc RStat RFstatat path"

definition hook_lstat :: "env \<Rightarrow> libc \<Rightarrow> string option \<Rightarrow> errno + (int \<times> real_call list)" where
  "hook_lstat env libc path = path_call env libc RLstat RLfstatat path"

definition hook_access :: "env \<Rightarrow> libc \<Rightarrow> string option \<Rightarrow> nat \<Rightarrow> errno + (int \<times> real_call list)" where
  "hook_access env libc path mode = path_call env libc (\<lambda>p. RAccess p mode) (\<lambda>p. RFaccessat p mode) path"

section \<open>Sockets\<close>

definition SOCK_FLAGS :: u32 where "SOCK_FLAGS = 0x800 OR 0x80000"

definition hook_socket :: "libc \<Rightarrow> int \<Rightarrow> u32 \<Rightarrow> int \<Rightarrow> int \<times> real_call list" where
  "hook_socket libc domain type protocol =
     (if libc (RSocket domain type protocol) = None then (-1, [])
      else
        let baseType = type AND NOT SOCK_FLAGS; flags = type AND SOCK_FLAGS;
            orig = delegate libc (RSocket domain type protocol) (-1)
        in if (domain = 2 \<or> domain = 10) \<and> baseType = 3 \<and> (protocol = 1 \<or> protocol = 58)
           then case delegate libc (RSocket domain (2 OR flags) protocol) (-1) of
                  (fd, cs) \<Rightarrow> if fd \<ge> 0 then (fd, cs) else (fst orig, cs @ snd orig)
           else orig)"

text \<open>\<^verbatim>\<open>strncpy\<close> cuts the redirected address at 107 bytes.\<close>

definition connect_target :: "string \<Rightarrow> string option" where
  "connect_target sun_path =
     (if has_substr ''/dev/socket/property_service'' sun_path then Some ''/dev/socket/property_service''
      else if has_substr ''/dev/socket/netd'' sun_path \<or> has_substr ''/dev/socket/dnsproxyd'' sun_path
      then Some ''/dev/socket/netd''
      else if has_substr ''/dev/socket/logdw'' sun_path \<or> has_substr ''/dev/socket/logd'' sun_path
        \<or> has_substr ''/dev/log/'' sun_path
      then Some ''/dev/socket/logdw''
      else if has_substr ''/dev/socket/logdr'' sun_path then Some ''/dev/socket/logdr''
      else None)"

definition hook_connect :: "env \<Rightarrow> libc \<Rightarrow> int \<Rightarrow> sockaddr \<Rightarrow> int \<times> real_call list" where
  "hook_connect env libc sockfd addr =
     (case addr of
        UnixAddr sun_path \<Rightarrow>
          (case connect_target sun_path of
             Some t \<Rightarrow> delegate libc (RConnect sockfd (UnixAddr (take 107 (sandbox_dir env @ t)))) (-1)
           | None \<Rightarrow> delegate libc (RConnect sockfd addr) (-1))
      | _ \<Rightarrow> delegate libc (RConnect sockfd addr) (-1))"

section \<open>Virtual identity\<close>

record identity =
  idRuid :: u32
  idEuid :: u32
  idSuid :: u32
  idRgid :: u32
  idEgid :: u32
  idSgid :: u32
  idInitialized :: bool
  idGroups :: "u32 list"

definition identity_start :: identity where
  "identity_start = \<lparr>idRuid = 0, idEuid = 0, idSuid = 0, idRgid = 0, idEgid = 0, idSgid = 0,
     idInitialized = False, idGroups = [0]\<rparr>"

definition env_id :: "env \<Rightarrow> string \<Rightarrow> u32" where
  "env_id env key = (case env key of Some s \<Rightarrow> word_of_int (atoi s) | None \<Rightarrow> 0)"

definition initIdentityIfNeeded :: "env \<Rightarrow> identity \<Rightarrow> identity" where
  "initIdentityIfNeeded env i =
     (if idInitialized i then i
      else let u = env_id env ''GSI_VIRTUAL_UID''; g = env_id env ''GSI_VIRTUAL_GID'' in
        \<lparr>idRuid = u, idEuid = u, idSuid = u, idRgid = g, idEgid = g, idSgid = g,
         idInitialized = True, idGroups = [g]\<rparr>)"

definition hook_getuid :: "env \<Rightarrow> identity \<Rightarrow> u32 \<times> identity" where
  "hook_getuid env i = (let i = initIdentityIfNeeded env i in (idRuid i, i))"
definition hook_geteuid :: "env \<Rightarrow> identity \<Rightarrow> u32 \<times> identity" where
  "hook_geteuid env i = (let i = initIdentityIfNeeded env i in (idEuid i, i))"
definition hook_getgid :: "env \<Rightarrow> identity \<Rightarrow> u32 \<times> identity" where
  "hook_getgid env i = (let i = initIdentityIfNeeded env i in (idRgid i, i))"
definition hook_getegid :: "env \<Rightarrow> identity \<Rightarrow> u32 \<times> identity" where
  "hook_getegid env i = (let i = initIdentityIfNeeded env i in (idEgid i, i))"

definition hook_getresuid :: "env \<Rightarrow> identity \<Rightarrow> (u32 \<times> u32 \<times> u32) \<times> identity" where
  "hook_getresuid env i = (let i = initIdentityIfNeeded env i in ((idRuid i, idEuid i, idSuid i), i))"
definition hook_getresgid :: "env \<Rightarrow> identity \<Rightarrow> (u32 \<times> u32 \<times> u32) \<times> identity" where
  "hook_getresgid env i = (let i = initIdentityIfNeeded env i in ((idRgid i, idEgid i, idSgid i), i))"

text \<open>The result and the ids written to the caller's array.\<close>

definition hook_getgroups :: "env \<Rightarrow> int \<Rightarrow> identity \<Rightarrow> (int \<times> u32 list) \<times> identity" where
  "hook_getgroups env sz i =
     (let i = initIdentityIfNeeded env i; n = int (length (idGroups i)) in
      if sz = 0 then ((n, []), i)
      else let k = min sz n in ((k, take (nat k) (idGroups i)), i))"

definition hook_setuid :: "env \<Rightarrow> u32 \<Rightarrow> identity \<Rightarrow> int \<times> identity" where
  "hook_setuid env u i = (0, (initIdentityIfNeeded env i)\<lparr>idRuid := u, idEuid := u, idSuid := u\<rparr>)"
definition hook_seteuid :: "env \<Rightarrow> u32 \<Rightarrow> identity \<Rightarrow> int \<times> identity" where
  "hook_seteuid env u i = (0, (initIdentityIfNeeded env i)\<lparr>idEuid := u\<rparr>)"
definition hook_setgid :: "env \<Rightarrow> u32 \<Rightarrow> identity \<Rightarrow> int \<times> identity" where
  "hook_setgid env g i = (0, (initIdentityIfNeeded env i)\<lparr>idRgid := g, idEgid := g, idSgid := g\<rparr>)"
definition hook_setegid :: "env \<Rightarrow> u32 \<Rightarrow> identity \<Rightarrow> int \<times> identity" where
  "hook_setegid env g i = (0, (initIdentityIfNeeded env i)\<lparr>idEgid := g\<rparr>)"

definition keep_or :: "u32 \<Rightarrow> u32 \<Rightarrow> u32" where
  "keep_or new old = (if new \<noteq> - 1 then new else old)"

definition hook_setresuid :: "env \<Rightarrow> u32 \<Rightarrow> u32 \<Rightarrow> u32 \<Rightarrow> identity \<Rightarrow> int \<times> identity" where
  "hook_setresuid env ru eu su i =
     (let i = initIdentityIfNeeded env i in
      (0, i\<lparr>idRuid := keep_or ru (idRuid i), idEuid := keep_or eu (idEuid i), idSuid := keep_or su (idSuid i)\<rparr>))"
definition hook_setresgid :: "env \<Rightarrow> u32 \<Rightarrow> u32 \<Rightarrow> u32 \<Rightarrow> identity \<Rightarrow> int \<times> identity" where
  "hook_setresgid env rg eg sg i =
     (let i = initIdentityIfNeeded env i in
      (0, i\<lparr>idRgid := keep_or rg (idRgid i), idEgid := keep_or eg (idEgid i), idSgid := keep_or sg (idSgid i)\<rparr>))"
definition hook_setgroups :: "env \<Rightarrow> u32 list \<Rightarrow> identity \<Rightarrow> int \<times> identity" where
  "hook_setgroups env gs i = (0, (initIdentityIfNeeded env i)\<lparr>idGroups := gs\<rparr>)"

section \<open>Capabilities, prctl and SELinux\<close>

record cap_data =
  cap_effective :: u32
  cap_permitted :: u32
  cap_inheritable :: u32

text \<open>Only the first element of the caller's array is filled.\<close>

definition hook_capget :: "cap_data list option \<Rightarrow> fault + (int \<times> cap_data list option)" where
  "hook_capget datap = (case datap of
     None \<Rightarrow> Inr (0, None)
   | Some [] \<Rightarrow> Inl OutOfBounds
   | Some (d # ds) \<Rightarrow> Inr (0, Some (\<lparr>cap_effective = 0xFFFFFFFF, cap_permitted = 0xFFFFFFFF,
                                 cap_inheritable = 0xFFFFFFFF\<rparr> # ds)))"

definition hook_capset :: "cap_data list option \<Rightarrow> int" where "hook_capset datap = 0"

definition hook_prctl :: "libc \<Rightarrow> int \<Rightarrow> int \<times> real_call list" where
  "hook_prctl libc option =
     (if option = 8 \<or> option = 0x2f \<or> option = 0x18 then (0, []) else delegate libc (RPrctl option) 0)"

definition is_selinux_enabled :: int where "is_selinux_enabled = 1"
definition is_selinux_enforcing :: int where "is_selinux_enforcing = 0"
definition security_getenforce :: int where "security_getenforce = 0"
definition security_setenforce :: "int \<Rightarrow> int" where "security_setenforce v = 0"
definition setcon :: "string option \<Rightarrow> int" where "setcon ctx = 0"
definition getcon :: "int \<times> string" where "getcon = (0, ''u:r:su:s0'')"
definition getfilecon :: "string \<Rightarrow> int \<times> string" where
  "getfilecon p = (0, ''u:object_r:system_file:s0'')"

section \<open>Properties\<close>

text \<open>\<^verbatim>\<open>fgets\<close> with a buffer of 1024: up to and with a newline, at most 1023 bytes.\<close>

function fgets_lines :: "string \<Rightarrow> string list" where
  "fgets_lines s =
     (if s = [] then []
      else let l = takeWhile (\<lambda>c. c \<noteq> nl) s; k = min (Suc (length l)) 1023
           in take k s # fgets_lines (drop k s))"
  by pat_completeness auto
termination
  by (relation "measure length") auto

declare fgets_lines.simps [simp del]

definition rfind_char :: "char \<Rightarrow> string \<Rightarrow> nat option" where
  "rfind_char c s = map_option (\<lambda>i. length s - Suc i) (find_char c (rev s))"

definition cache_line :: "string \<Rightarrow> (string \<times> string) option" where
  "cache_line buf =
     (case takeWhile (\<lambda>c. c \<noteq> nul) buf of
        [] \<Rightarrow> None
      | c # r \<Rightarrow>
          if c \<noteq> CHR ''['' then None
          else case find_char (CHR '']'') r of
            None \<Rightarrow> None
          | Some i \<Rightarrow>
              let rest = drop (Suc i) r in
              case find_char (CHR ''['') rest of
                None \<Rightarrow> None
              | Some j \<Rightarrow>
                  let v = drop (Suc j) rest in
                  case rfind_char (CHR '']'') v of
                    None \<Rightarrow> None
                  | Some m \<Rightarrow> Some (take i r, take m v))"

definition put_cache :: "(string \<times> string) list \<Rightarrow> string \<times> string \<Rightarrow> (string \<times> string) list" where
  "put_cache props kv = AList.update (fst kv) (snd kv) props"

definition parse_property_cache :: "string \<Rightarrow> (string \<times> string) list" where
  "parse_property_cache text = foldl put_cache [] (List.map_filter cache_line (fgets_lines text))"

definition loadPropertyCacheFromDisk :: "env \<Rightarrow> host \<Rightarrow> (string \<times> string) list" where
  "loadPropertyCacheFromDisk env h =
     (case file_content h (sandbox_dir env @ ''/dev/__properties_text__'') of
        None \<Rightarrow> [] | Some text \<Rightarrow> parse_property_cache text)"

text \<open>
  The returned length and the string left in the caller's buffer. \<open>real_get\<close> is the function behind
  the hook.
\<close>

definition hook_property_get ::
  "env \<Rightarrow> host \<Rightarrow> (string \<Rightarrow> nat \<times> string) option \<Rightarrow> string \<Rightarrow> nat \<times> string" where
  "hook_property_get env h real_get nm =
     (case map_of (loadPropertyCacheFromDisk env h) nm of
        Some v \<Rightarrow> (min (length v) 91, take 91 v)
      | None \<Rightarrow> (case real_get of Some g \<Rightarrow> g nm | None \<Rightarrow> (0, [])))"

text \<open>The result and, when the connection succeeds, the message sent and where.\<close>

definition hook_property_set ::
  "env \<Rightarrow> libc \<Rightarrow> string option \<Rightarrow> string option \<Rightarrow> int \<times> (string \<times> string) option" where
  "hook_property_set env libc key val =
     (case (key, val) of
        (Some k, Some v) \<Rightarrow>
          let socketPath = take 107 (sandbox_dir env @ ''/dev/socket/property_service'');
              sock = fst (hook_socket libc 1 1 0)
          in if sock \<ge> 0 then
               let connRes = (case libc (RConnect sock (UnixAddr socketPath)) of
                     Some r \<Rightarrow> r | None \<Rightarrow> fst (hook_connect env libc sock (UnixAddr socketPath)))
               in if connRes = 0 then (0, Some (socketPath, k @ ''='' @ v)) else (0, None)
             else (0, None)
      | _ \<Rightarrow> (-1, None))"

section \<open>Diagnostic\<close>

definition hex_digit :: "nat \<Rightarrow> char" where
  "hex_digit n = (if n < 10 then char_of (48 + n) else char_of (87 + n))"

function hex :: "nat \<Rightarrow> string" where
  "hex n = (if n < 16 then [hex_digit n] else hex (n div 16) @ [hex_digit (n mod 16)])"
  by pat_completeness auto
termination
  by (relation "measure id") auto

declare hex.simps [simp del]

definition privilege_diagnostic :: "env \<Rightarrow> identity \<Rightarrow> fault + (string \<times> identity)" where
  "privilege_diagnostic env i =
     (let (uid, i) = hook_getuid env i; (euid, i) = hook_geteuid env i; (gid, i) = hook_getgid env i;
          (s1, i) = hook_setuid env 1000 i; (u1000, i) = hook_getuid env i;
          (s0, i) = hook_setuid env 0 i; (u0, i) = hook_getuid env i;
          zero = \<lparr>cap_effective = 0, cap_permitted = 0, cap_inheritable = 0\<rparr>
      in bnd (hook_capget (Some [zero, zero])) (\<lambda>(capGetRes, caps).
        let eff = (case caps of Some (d # _) \<Rightarrow> cap_effective d | _ \<Rightarrow> 0);
            capSetRes = hook_capset caps
        in Inr (oline ''=== GSI PRIVILEGE & IDENTITY SPOOFING DIAGNOSTIC ===''
          @ oline (''[1] Current Virtual Identity: UID='' @ dec (unat uid) @ '' (EUID='' @ dec (unat euid)
              @ '') GID='' @ dec (unat gid))
          @ oline (''[2] Transition to UID 1000: setuid(1000) -> return='' @ dec_int s1
              @ '' (Current UID='' @ dec (unat u1000) @ '')'')
          @ oline (''[3] Escalation back to Root: setuid(0) -> return='' @ dec_int s0
              @ '' (Current UID='' @ dec (unat u0) @ '')'')
          @ oline (''[4] Capability Query: capget() -> return='' @ dec_int capGetRes
              @ '' (Effective=0x'' @ hex (unat eff) @ '')'')
          @ oline (''[5] Capability Setting: capset() -> return='' @ dec_int capSetRes @ '' (Spoofed SUCCESS)'')
          @ oline (''[6] SELinux State: Enabled='' @ dec_int is_selinux_enabled @ '' | Enforcing=''
              @ dec_int is_selinux_enforcing @ '' | security_getenforce='' @ dec_int security_getenforce
              @ '' (0 = Permissive)'')
          @ oline (''[7] Security Context: '' @ snd getcon)
          @ oline ''====================================================''
          @ ''Status: ALL PRIVILEGE & SECURITY HOOKS OPERATIONAL!'', i)))"

section \<open>Shared memory, hardware modules and EGL\<close>

text \<open>
  \<open>cnt\<close> is the static counter, returned advanced; the path is opened through the hook above.
\<close>

definition ashmem_path :: "env \<Rightarrow> int \<Rightarrow> u32 \<Rightarrow> string" where
  "ashmem_path env pid cnt = sandbox_dir env @ ''/tmp/ashmem_'' @ dec_int pid @ ''_'' @ dec (unat cnt) @ ''.raw''"

definition ashmem_create_region ::
  "env \<Rightarrow> libc \<Rightarrow> close_fn \<Rightarrow> (int \<times> int) option \<Rightarrow> int \<Rightarrow> u32 \<Rightarrow> nat \<Rightarrow> broker
   \<Rightarrow> fault + (int \<times> real_call list \<times> u32 \<times> broker)" where
  "ashmem_create_region env libc closef pair pid cnt sz br =
     bnd (hook_open env libc closef pair (Some (ashmem_path env pid cnt)) 0x242 438 br) (\<lambda>(fd, cs, br).
       if fd \<ge> 0 then Inr (fd, cs @ [RFtruncate fd sz], cnt + 1, br) else Inr (-1, cs, cnt + 1, br))"

record hw_module =
  hm_tag :: u32
  hm_module_api_version :: u16
  hm_hal_api_version :: u16
  hm_id :: string
  hm_name :: string
  hm_author :: string

definition hwmt :: "u16 \<Rightarrow> u16 \<Rightarrow> string \<Rightarrow> string \<Rightarrow> hw_module" where
  "hwmt api hal i nm = \<lparr>hm_tag = 0x48574D54, hm_module_api_version = api, hm_hal_api_version = hal,
     hm_id = i, hm_name = nm, hm_author = ''Google DeepMind GSI Engine''\<rparr>"

definition grallocModule :: hw_module where
  "grallocModule = hwmt 1 0 ''gralloc'' ''Virtual GSI Gralloc Module''"
definition hwcModule :: hw_module where
  "hwcModule = hwmt 1 0 ''hwcomposer'' ''Virtual GSI Hardware Composer''"
definition audioModule :: hw_module where
  "audioModule = hwmt 1 0 ''audio'' ''Virtual GSI Audio HAL Module''"
definition sensorsModule :: hw_module where
  "sensorsModule = hwmt 1 0 ''sensors'' ''Virtual GSI Sensors HAL Module''"
definition cameraModule :: hw_module where
  "cameraModule = hwmt 1 0 ''camera'' ''Virtual GSI Camera HAL Module''"
definition radioModule :: hw_module where
  "radioModule = hwmt 1 0 ''radio'' ''Virtual GSI Radio / RIL Module''"
definition wifiModule :: hw_module where
  "wifiModule = hwmt 1 0 ''wifi'' ''Virtual GSI Wi-Fi HAL Module''"
definition bluetoothModule :: hw_module where
  "bluetoothModule = hwmt 1 0 ''bluetooth'' ''Virtual GSI Bluetooth HAL Module''"
definition drmModule :: hw_module where
  "drmModule = hwmt 1 0 ''drm'' ''Virtual GSI DRM / ClearKey / Widevine HAL Module''"
definition cryptoModule :: hw_module where
  "cryptoModule = hwmt 1 0 ''crypto'' ''Virtual GSI MediaCrypto HAL Module''"
definition fingerprintModule :: hw_module where
  "fingerprintModule = hwmt 2 3 ''fingerprint'' ''Virtual GSI Biometrics Fingerprint HAL Module''"
definition keymasterModule :: hw_module where
  "keymasterModule = hwmt 4 0 ''keymaster'' ''Virtual GSI Keymaster / KeyMint HAL Module''"
definition gatekeeperModule :: hw_module where
  "gatekeeperModule = hwmt 1 0 ''gatekeeper'' ''Virtual GSI Gatekeeper HAL Module''"
definition usbModule :: hw_module where
  "usbModule = hwmt 1 2 ''usb'' ''Virtual GSI USB Gadget HAL Module''"

definition hw_table :: "(string \<times> hw_module) list" where
  "hw_table =
     [(''gralloc'', grallocModule), (''hwcomposer'', hwcModule), (''audio'', audioModule),
      (''sensors'', sensorsModule), (''camera'', cameraModule), (''radio'', radioModule),
      (''wifi'', wifiModule), (''bluetooth'', bluetoothModule), (''drm'', drmModule),
      (''crypto'', cryptoModule), (''fingerprint'', fingerprintModule), (''keymaster'', keymasterModule),
      (''keystore'', keymasterModule), (''gatekeeper'', gatekeeperModule), (''egl'', grallocModule),
      (''gpu'', grallocModule), (''usb'', usbModule)]"

text \<open>\<open>have_module\<close> tells that the caller's pointer is not null; the real function's result is a parameter.\<close>

definition hw_get_module ::
  "(string \<Rightarrow> int \<times> hw_module option) option \<Rightarrow> string option \<Rightarrow> bool \<Rightarrow> int \<times> hw_module option" where
  "hw_get_module real_get mid have_module =
     (case mid of
        None \<Rightarrow> (-1, None)
      | Some i \<Rightarrow>
          if \<not> have_module then (-1, None)
          else case map_of hw_table i of
            Some m \<Rightarrow> (0, Some m)
          | None \<Rightarrow> (case real_get of Some g \<Rightarrow> g i | None \<Rightarrow> (-1, None)))"

definition eglGetDisplay :: u64 where "eglGetDisplay = 0x1000"
definition eglInitialize :: "int \<times> int \<times> int" where "eglInitialize = (1, 1, 4)"
definition eglQueryString :: "int \<Rightarrow> string" where
  "eglQueryString nm =
     (if nm = 0x3053 then ''Google DeepMind GSI Engine''
      else if nm = 0x3054 then ''1.4 CyberGSI-EGL''
      else if nm = 0x3055 then ''EGL_KHR_image_base EGL_KHR_gl_texture_2D_image EGL_ANDROID_image_native_buffer''
      else if nm = 0x308D then ''OpenGL_ES''
      else [])"

section \<open>Redirection stays in the sandbox\<close>

lemma starts_with_append: "starts_with p (p @ s)"
  by (simp add: starts_with_def)

lemma rule_targets_rooted: "\<forall>r \<in> set redirect_rules. starts_with ''/'' (rule_target r p)"
  by (simp add: redirect_rules_def starts_with_def)

lemma redirect_cases:
  "redirect_with redirect_rules sb p = p \<and> (\<forall>r \<in> set redirect_rules. \<not> rule_matches r p)
   \<or> (\<exists>t. redirect_with redirect_rules sb p = sb @ ''/'' @ t)"
proof (cases "find (\<lambda>r. rule_matches r p) redirect_rules")
  case None
  then have "\<forall>r \<in> set redirect_rules. \<not> rule_matches r p"
    by (simp add: find_None_iff)
  then show ?thesis using None by (simp add: redirect_with_def)
next
  case (Some r)
  then have "r \<in> set redirect_rules"
    by (metis (mono_tags, lifting) find_Some_iff nth_mem)
  then have "starts_with ''/'' (rule_target r p)"
    using rule_targets_rooted by blast
  then obtain t where "rule_target r p = ''/'' @ t"
    by (cases "rule_target r p") (auto simp: starts_with_def)
  then show ?thesis
    using Some by (simp add: redirect_with_def)
qed

lemma no_rule_private: "\<forall>r \<in> set redirect_rules. \<not> rule_matches r (''/data/data/'' @ x)"
  by (simp add: redirect_rules_def starts_with_def)

lemma redirect_private: "redirect_with redirect_rules sb (''/data/data/'' @ x) = ''/data/data/'' @ x"
  using no_rule_private [of x] by (auto simp: redirect_with_def find_None_iff2 split: option.splits
      dest: find_Some_iff [THEN iffD1] nth_mem)


text \<open>The four names of the shared storage are one place: a path under
  \<^verbatim>\<open>/sdcard\<close>, \<^verbatim>\<open>/storage/emulated/0\<close>,
  \<^verbatim>\<open>/storage/self/primary\<close> or \<^verbatim>\<open>/data/media/0\<close> opens
  the same file of the sandbox's media directory.\<close>

lemma storage_aliases_agree:
  "redirectSandboxPath env (Some (''/sdcard/'' @ x)) = sandbox_dir env @ ''/data/media/0/'' @ x
   \<and> redirectSandboxPath env (Some (''/storage/emulated/0/'' @ x)) = sandbox_dir env @ ''/data/media/0/'' @ x
   \<and> redirectSandboxPath env (Some (''/storage/self/primary/'' @ x)) = sandbox_dir env @ ''/data/media/0/'' @ x
   \<and> redirectSandboxPath env (Some (''/data/media/0/'' @ x)) = sandbox_dir env @ ''/data/media/0/'' @ x"
  by (intro conjI)
    (simp_all add: redirectSandboxPath_def redirect_with_def redirect_rules_def starts_with_def)

lemma starts_with_trans: "starts_with (p @ q) s \<Longrightarrow> starts_with p s"
  by (metis append_eq_conv_conj append_take_drop_id starts_with_def take_append take_take min.absorb2 le_add1 length_append)

lemma has_substr_prefix: "has_substr (p @ q) s \<Longrightarrow> has_substr p s"
proof (induction s)
  case (Cons c s)
  then show ?case using starts_with_trans [of p q "c # s"] by auto
qed simp

text \<open>The reader socket of the log daemon is unreachable: a guest that opens or connects to
  \<^verbatim>\<open>/dev/socket/logdr\<close> gets the writer socket, because the shorter name
  \<^verbatim>\<open>/dev/socket/logd\<close> is tested first, and no address at all leads to the reader.\<close>

lemma logdr_unreachable:
  "redirectSandboxPath env (Some (''/dev/socket/logdr'' @ x)) = sandbox_dir env @ ''/dev/socket/logdw''
   \<and> connect_target sun_path \<noteq> Some ''/dev/socket/logdr''"
proof
  show "redirectSandboxPath env (Some (''/dev/socket/logdr'' @ x)) = sandbox_dir env @ ''/dev/socket/logdw''"
    by (simp add: redirectSandboxPath_def redirect_with_def redirect_rules_def starts_with_def)
  have "has_substr ''/dev/socket/logdr'' sun_path \<Longrightarrow> has_substr ''/dev/socket/logd'' sun_path"
    using has_substr_prefix [of "''/dev/socket/logd''" "''r''"] by simp
  then show "connect_target sun_path \<noteq> Some ''/dev/socket/logdr''"
    by (auto simp: connect_target_def)
qed

section \<open>The hooked close and the broker\<close>

text \<open>C18: With \<^verbatim>\<open>close\<close> interposed in the library that holds the broker, opening a
  binder device locks the broker's mutex and then closes the peer through the hook, which locks it
  again: the open never returns. The same holds for closing a virtual descriptor.\<close>

theorem binder_open_deadlocks:
  assumes "\<not> vbLocked br"
  shows "(binder_device p = Some ty \<longrightarrow>
      hook_open env libc (hook_close libc (Suc n)) (Some (a, b)) (Some p) flags m br = Inl SelfDeadlock)
    \<and> (vbDescriptors br fd \<noteq> None \<longrightarrow> hook_close libc (Suc (Suc n)) br fd = Inl SelfDeadlock)"
  using assms
  by (auto simp: hook_open_def createVirtualBinderFd_def closeVirtualBinderFd_def isVirtualBinderFd_def
      vb_lock_def Let_def)

theorem binder_open_deadlocks_witness:
  "hook_open (\<lambda>k. None) (\<lambda>c. Some 0) (hook_close (\<lambda>c. Some 0) 9) (Some (7, 8))
     (Some ''/dev/binder'') 2 0 broker_init = Inl SelfDeadlock"
proof -
  have "binder_device ''/dev/binder'' = Some BINDER" "\<not> vbLocked broker_init"
    by (simp_all add: binder_device_def starts_with_def broker_init_def)
  then show ?thesis
    using binder_open_deadlocks [of broker_init "''/dev/binder''" BINDER "\<lambda>k. None" "\<lambda>c. Some 0" 8 7 8 2 0]
    by (simp add: numeral_eq_Suc del: hook_close.simps)
qed


section \<open>The property cache reads the service's table\<close>

lemma put_cache_look: "map_of (put_cache props kv) q = (if q = fst kv then Some (snd kv) else map_of props q)"
  by (simp add: put_cache_def update_conv')

interpretation cache: prop_store map_of "\<lambda>props k v. put_cache props (k, v)"
  by unfold_locales (simp add: put_cache_look)

definition printable :: "string \<times> string \<Rightarrow> bool" where
  "printable kv \<longleftrightarrow> CHR '']'' \<notin> set (fst kv) \<and> nl \<notin> set (fst kv) \<and> nul \<notin> set (fst kv)
     \<and> nl \<notin> set (snd kv) \<and> nul \<notin> set (snd kv) \<and> length (fst kv) + length (snd kv) \<le> 1016"

lemma takeWhile_upto: "d \<notin> set p \<Longrightarrow> takeWhile (\<lambda>c. c \<noteq> d) (p @ d # s) = p"
  by (induction p) auto

lemma split_line: "take (Suc (length l)) (l @ x # r) = l @ [x]" "drop (Suc (length l)) (l @ x # r) = r"
  by simp_all

lemma fgets_prop_lines:
  "\<forall>kv \<in> set kvs. printable kv \<Longrightarrow> fgets_lines (concat (map prop_line kvs)) = map prop_line kvs"
proof (induction kvs)
  case Nil
  then show ?case by (simp add: fgets_lines.simps)
next
  case (Cons kv kvs)
  let ?l = "''['' @ fst kv @ '']: ['' @ snd kv @ '']''"
  let ?rest = "concat (map prop_line kvs)"
  have p: "printable kv" using Cons.prems by simp
  have eq: "concat (map prop_line (kv # kvs)) = ?l @ nl # ?rest"
    by (simp add: prop_line_def)
  have "nl \<notin> set ?l"
    using p by (auto simp: printable_def nl_def)
  then have tw: "takeWhile (\<lambda>c. c \<noteq> nl) (?l @ nl # ?rest) = ?l"
    by (rule takeWhile_upto)
  have len: "length ?l + 1 \<le> 1023"
    using p by (simp add: printable_def)
  have "fgets_lines (?l @ nl # ?rest) = take (Suc (length ?l)) (?l @ nl # ?rest)
    # fgets_lines (drop (Suc (length ?l)) (?l @ nl # ?rest))"
    using len by (subst fgets_lines.simps) (simp only: tw Let_def, simp)
  also have "\<dots> = (?l @ [nl]) # fgets_lines ?rest"
    using split_line [of ?l nl ?rest] by (simp only:)
  also have "\<dots> = prop_line kv # map prop_line kvs"
  proof -
    have "fgets_lines ?rest = map prop_line kvs"
      using Cons by simp
    moreover have "?l @ [nl] = prop_line kv"
      by (simp add: prop_line_def)
    ultimately show ?thesis
      by (simp only: list.map)
  qed
  finally show ?case
    unfolding eq by simp
qed

lemma find_char_append: "c \<notin> set p \<Longrightarrow> find_char c (p @ c # s) = Some (length p)"
  by (induction p) auto

lemma rfind_char_last: "c \<notin> set s \<Longrightarrow> rfind_char c (p @ c # s) = Some (length p)"
proof -
  assume "c \<notin> set s"
  then have "find_char c (rev s @ c # rev p) = Some (length (rev s))"
    by (intro find_char_append) simp
  then show ?thesis by (simp add: rfind_char_def)
qed

lemma cache_line_prop_line:
  assumes "printable kv"
  shows "cache_line (prop_line kv) = Some kv"
proof -
  obtain k v where kv: "kv = (k, v)" by (cases kv)
  have "nul \<notin> set (prop_line kv)"
    using assms by (auto simp: prop_line_def printable_def nul_def nl_def)
  then have tw: "takeWhile (\<lambda>c. c \<noteq> nul) (prop_line kv) = prop_line kv"
    by (induction "prop_line kv") (auto simp: takeWhile_eq_all_conv)
  have k: "find_char (CHR '']'') (k @ CHR '']'' # '': ['' @ v @ '']'' @ [nl]) = Some (length k)"
    using assms by (intro find_char_append) (simp add: printable_def kv)
  have v: "rfind_char (CHR '']'') (v @ CHR '']'' # [nl]) = Some (length v)"
    by (rule rfind_char_last) (simp add: nl_def)
  have "prop_line kv = CHR ''['' # k @ CHR '']'' # '': ['' @ v @ '']'' @ [nl]"
    by (simp add: prop_line_def kv)
  then show ?thesis
    unfolding cache_line_def tw using k v by (simp add: kv Let_def)
qed

lemma parse_cache_lookup:
  assumes "\<forall>kv \<in> set kvs. printable kv" "distinct (map fst kvs)"
  shows "map_of (parse_property_cache (concat (map prop_line kvs))) q = map_of kvs q"
proof -
  have "List.map_filter cache_line (map prop_line kvs) = kvs"
    using assms(1) by (induction kvs) (simp_all add: map_filter_simps cache_line_prop_line)
  then have "parse_property_cache (concat (map prop_line kvs)) =
    foldl (\<lambda>props kv. put_cache props (fst kv, snd kv)) [] kvs"
    by (simp add: parse_property_cache_def fgets_prop_lines [OF assms(1)])
  moreover have "map_of (rev kvs) q = map_of kvs q"
    using assms(2) map_of_inject_set [of "rev kvs" kvs] by (simp add: rev_map [symmetric])
  ultimately show ?thesis
    by (simp only: cache.look_put_all) (simp split: option.splits)
qed

text \<open>What the guest reads with \<^verbatim>\<open>__system_property_get\<close> is what the
  service holds: for every key of the table the hook returns its value cut at 91 bytes with the cut
  length, provided keys hold no closing bracket, keys and values no newline or NUL, and a line fits
  the hook's buffer of 1024 bytes.\<close>

lemma property_get_sees_service:
  assumes "in_sync s h" "psPropertiesFilePath s = sandbox_dir env @ ''/dev/__properties_text__''"
    and "\<forall>kv \<in> set (psProperties s). printable kv" "find_prop s q = Some v"
  shows "hook_property_get env h real_get q = (min (length v) 91, take 91 v)"
proof -
  have dist: "distinct (map fst (psProperties s))"
    using assms(1) by (simp add: in_sync_def keys_distinct_def)
  have mset: "mset (map fst (sort (psProperties s))) = mset (map fst (psProperties s))"
    by simp
  have dist': "distinct (map fst (sort (psProperties s)))"
    using dist mset_eq_imp_distinct_iff [OF mset] by blast
  have "map_of (sort (psProperties s)) q = map_of (psProperties s) q"
    using map_of_inject_set [OF dist' dist] by simp
  moreover have "file_content h (sandbox_dir env @ ''/dev/__properties_text__'') =
    Some (concat (map prop_line (sort (psProperties s))))"
    using assms(1,2) by (simp add: in_sync_def getAllPropertiesFormatted_def)
  moreover have "map_of (parse_property_cache (concat (map prop_line (sort (psProperties s))))) q =
    map_of (sort (psProperties s)) q"
    by (rule parse_cache_lookup) (use assms(3) dist' in simp_all)
  ultimately show ?thesis
    using assms(4) by (simp add: hook_property_get_def loadPropertyCacheFromDisk_def find_prop_def)
qed

lemma property_get_sees_service_witness:
  "\<exists>h. hook_property_get (\<lambda>k. None) h None ''ro.secure'' = (1, ''0'')"
proof -
  let ?p = "sandbox_dir (\<lambda>k. None) @ ''/dev/__properties_text__''"
  let ?s = "prop_service_init\<lparr>psPropertiesFilePath := ?p, psProperties := [(''ro.secure'', ''0'')]\<rparr>"
  have "in_sync ?s (flushPropertiesToFile ?s empty_host)"
    by (rule flush_in_sync) (simp_all add: keys_distinct_def writable_def empty_host_def)
  moreover have "psPropertiesFilePath ?s = ?p"
    by simp
  moreover have "\<forall>kv \<in> set (psProperties ?s). printable kv"
    by (simp add: printable_def nl_def nul_def)
  moreover have "find_prop ?s ''ro.secure'' = Some ''0''"
    by (simp add: find_prop_def)
  ultimately have "hook_property_get (\<lambda>k. None) (flushPropertiesToFile ?s empty_host) None ''ro.secure'' =
    (min (length ''0'') 91, take 91 ''0'')"
    by (rule property_get_sees_service)
  then show ?thesis by auto
qed

section \<open>Identity calls\<close>

datatype id_call =
    GetResUid | GetResGid | SetUid u32 | SetEuid u32 | SetGid u32 | SetEgid u32
  | SetResUid u32 u32 u32 | SetResGid u32 u32 u32 | SetGroups "u32 list"

fun id_step :: "env \<Rightarrow> id_call \<Rightarrow> identity \<Rightarrow> identity" where
  "id_step env GetResUid i = snd (hook_getresuid env i)"
| "id_step env GetResGid i = snd (hook_getresgid env i)"
| "id_step env (SetUid u) i = snd (hook_setuid env u i)"
| "id_step env (SetEuid u) i = snd (hook_seteuid env u i)"
| "id_step env (SetGid u) i = snd (hook_setgid env u i)"
| "id_step env (SetEgid u) i = snd (hook_setegid env u i)"
| "id_step env (SetResUid a b c) i = snd (hook_setresuid env a b c i)"
| "id_step env (SetResGid a b c) i = snd (hook_setresgid env a b c i)"
| "id_step env (SetGroups gs) i = snd (hook_setgroups env gs i)"

lemmas identity_defs = hook_getresuid_def hook_getresgid_def hook_setuid_def hook_seteuid_def
  hook_setgid_def hook_setegid_def hook_setresuid_def hook_setresgid_def hook_setgroups_def Let_def

lemma initIdentity_initialized [simp]: "idInitialized (initIdentityIfNeeded env i)"
  by (simp add: initIdentityIfNeeded_def Let_def)

lemma id_step_initialized: "idInitialized (id_step env c i)"
  by (cases c) (simp_all add: identity_defs)

lemma id_step_env: "idInitialized i \<Longrightarrow> id_step env c i = id_step env' c i"
  by (cases c) (simp_all add: identity_defs initIdentityIfNeeded_def)

lemma id_steps_env:
  "idInitialized i \<Longrightarrow> foldl (\<lambda>i ec. id_step (fst ec) (snd ec) i) i ecs =
   foldl (\<lambda>i ec. id_step env (snd ec) i) i ecs"
proof (induction ecs arbitrary: i)
  case (Cons ec ecs)
  then show ?case
    using id_step_env [OF Cons.prems, of "fst ec" "snd ec" env] id_step_initialized by simp
qed simp

text \<open>The virtual identity is fixed by the environment of the first identity call: whatever the
  environment holds at the later calls of a sequence, the sequence ends in the identity it reaches
  under the first environment.\<close>

lemma identity_env_read_once:
  "foldl (\<lambda>i ec. id_step (fst ec) (snd ec) i) identity_start ((env, c) # ecs) =
   foldl (\<lambda>i ec. id_step env (snd ec) i) identity_start ((env, c) # ecs)"
  by (simp add: id_steps_env [OF id_step_initialized, of _ _ _ _ env])

text \<open>The calls that change user ids relate as POSIX has them, and never fail: after
  \<^verbatim>\<open>setresuid\<close> the triple is the new one with the old value wherever -1 was
  passed; \<^verbatim>\<open>setuid\<close> equals it on three equal ids and
  \<^verbatim>\<open>seteuid\<close> on the middle one alone; the group ids do not change.\<close>

lemma setresuid_getresuid:
  assumes "fst (hook_getresuid env i) = (r, e, s)" "u \<noteq> - 1"
  shows "fst (hook_setresuid env a b c i) = 0
    \<and> fst (hook_getresuid env' (snd (hook_setresuid env a b c i))) =
        (if a = - 1 then r else a, if b = - 1 then e else b, if c = - 1 then s else c)
    \<and> hook_setuid env u i = hook_setresuid env u u u i
    \<and> hook_seteuid env u i = hook_setresuid env (- 1) u (- 1) i
    \<and> fst (hook_getresgid env' (snd (hook_setresuid env a b c i))) = fst (hook_getresgid env i)"
proof -
  have "idInitialized i' \<Longrightarrow> initIdentityIfNeeded env' i' = i'" for i'
    by (simp add: initIdentityIfNeeded_def)
  then show ?thesis
    using assms by (auto simp: identity_defs keep_or_def)
qed

lemma setresuid_getresuid_example:
  "fst (hook_getresuid (\<lambda>k. None) (snd (hook_setresuid (\<lambda>k. None) 1000 (- 1) 7 identity_start))) = (1000, 0, 7)"
proof -
  have "fst (hook_getresuid (\<lambda>k. None) identity_start) = (0, 0, 0)"
    by (simp add: hook_getresuid_def initIdentityIfNeeded_def identity_start_def env_id_def)
  from setresuid_getresuid [OF this, of 5 1000 "- 1" 7 "\<lambda>k. None"] show ?thesis
    by simp
qed

end
