(* ===== verification/Logcat_Broker.thy ===== *)
theory Logcat_Broker
  imports Host_Files
begin

text \<open>
  The log broker of \<^verbatim>\<open>logcat_broker.cpp\<close>: the ring buffer of log entries, the packets of
  the writer socket, the reader socket, and the tombstones. The clock, the broken-down time, the
  results of the socket calls and the listing of the tombstone directory are parameters. Every
  access to the buffer happens under the mutex, so an operation is one atomic step.
\<close>

section \<open>Entries\<close>

datatype LogBufferId = MAIN | RADIO | EVENTS | SYSTEM | CRASH | STATS | SECURITY | KERNEL | BUF_UNKNOWN

fun buffer_code :: "LogBufferId \<Rightarrow> int" where
  "buffer_code MAIN = 0"
| "buffer_code RADIO = 1"
| "buffer_code EVENTS = 2"
| "buffer_code SYSTEM = 3"
| "buffer_code CRASH = 4"
| "buffer_code STATS = 5"
| "buffer_code SECURITY = 6"
| "buffer_code KERNEL = 7"
| "buffer_code BUF_UNKNOWN = 255"

datatype LogPriority =
  PRIO_UNKNOWN | DEFAULT | VERBOSE | DEBUG | INFO | WARN | ERROR | FATAL | SILENT

fun priority_code :: "LogPriority \<Rightarrow> int" where
  "priority_code PRIO_UNKNOWN = 0"
| "priority_code DEFAULT = 1"
| "priority_code VERBOSE = 2"
| "priority_code DEBUG = 3"
| "priority_code INFO = 4"
| "priority_code WARN = 5"
| "priority_code ERROR = 6"
| "priority_code FATAL = 7"
| "priority_code SILENT = 8"

fun priorityToChar :: "LogPriority \<Rightarrow> string" where
  "priorityToChar VERBOSE = ''V''"
| "priorityToChar DEBUG = ''D''"
| "priorityToChar INFO = ''I''"
| "priorityToChar WARN = ''W''"
| "priorityToChar ERROR = ''E''"
| "priorityToChar FATAL = ''F''"
| "priorityToChar SILENT = ''S''"
| "priorityToChar _ = ''?''"

fun bufferIdToString :: "LogBufferId \<Rightarrow> string" where
  "bufferIdToString MAIN = ''main''"
| "bufferIdToString RADIO = ''radio''"
| "bufferIdToString EVENTS = ''events''"
| "bufferIdToString SYSTEM = ''system''"
| "bufferIdToString CRASH = ''crash''"
| "bufferIdToString STATS = ''stats''"
| "bufferIdToString SECURITY = ''security''"
| "bufferIdToString KERNEL = ''kernel''"
| "bufferIdToString BUF_UNKNOWN = ''unknown''"

definition signalToString :: "int \<Rightarrow> string" where
  "signalToString sig =
     (if sig = 11 then ''SIGSEGV'' else if sig = 7 then ''SIGBUS'' else if sig = 8 then ''SIGFPE''
      else if sig = 4 then ''SIGILL'' else if sig = 6 then ''SIGABRT'' else if sig = 9 then ''SIGKILL''
      else if sig = 15 then ''SIGTERM'' else ''SIGUNKNOWN'')"

record LogEntry =
  leSequence :: u64
  leBufferId :: LogBufferId
  lePriority :: LogPriority
  lePid :: int
  leTid :: int
  leSec :: u64
  leNsec :: u64
  leTag :: string
  leMessage :: string

text \<open>
  \<open>tm\<close> is \<^verbatim>\<open>localtime_r\<close>: month from 0, day, hour, minute and second. The time is cut at the
  31 characters that \<^verbatim>\<open>timeBuf\<close> holds.
\<close>

type_synonym clock = "u64 \<Rightarrow> nat \<times> nat \<times> nat \<times> nat \<times> nat"

definition format_time :: "clock \<Rightarrow> u64 \<Rightarrow> u64 \<Rightarrow> string" where
  "format_time tm sec nsec =
     (case tm sec of (mon, mday, hour, minute, s) \<Rightarrow>
        take 31 (pad_left 2 (CHR ''0'') (dec (mon + 1)) @ ''-'' @ pad_left 2 (CHR ''0'') (dec mday) @ '' ''
          @ pad_left 2 (CHR ''0'') (dec hour) @ '':'' @ pad_left 2 (CHR ''0'') (dec minute) @ '':''
          @ pad_left 2 (CHR ''0'') (dec s) @ ''.''
          @ pad_left 3 (CHR ''0'') (dec (unat (ucast (nsec div 1000000) :: u32)))))"

definition format_entry :: "clock \<Rightarrow> LogEntry \<Rightarrow> string" where
  "format_entry tm e =
     format_time tm (leSec e) (leNsec e) @ '' '' @ pad_left 5 (CHR '' '') (dec_int (lePid e)) @ '' ''
     @ pad_left 5 (CHR '' '') (dec_int (leTid e)) @ '' '' @ priorityToChar (lePriority e) @ ''/''
     @ bufferIdToString (leBufferId e) @ '' '' @ pad_right 16 (leTag e) @ '': '' @ leMessage e"

section \<open>The broker\<close>

record logcat =
  lcSandboxDir :: string
  lcLogdwPath :: string
  lcLogdrPath :: string
  lcTombstoneDir :: string
  lcLogdwOpen :: bool
  lcLogdrOpen :: bool
  lcMaxEntries :: nat
  lcSeqCounter :: u64
  lcTotalReceived :: u64
  lcTotalCrashes :: u64
  lcIsRunning :: bool
  lcRing :: "LogEntry list"

definition logcat_init :: logcat where
  "logcat_init = \<lparr>lcSandboxDir = [], lcLogdwPath = [], lcLogdrPath = [], lcTombstoneDir = [],
     lcLogdwOpen = False, lcLogdrOpen = False, lcMaxEntries = 5000, lcSeqCounter = 0,
     lcTotalReceived = 0, lcTotalCrashes = 0, lcIsRunning = False, lcRing = []\<rparr>"

text \<open>\<open>t\<close> is the reading of the clock: seconds and nanoseconds.\<close>

definition appendLog ::
  "u64 \<times> u64 \<Rightarrow> LogBufferId \<Rightarrow> LogPriority \<Rightarrow> int \<Rightarrow> int \<Rightarrow> string \<Rightarrow> string \<Rightarrow> logcat \<Rightarrow> logcat" where
  "appendLog t bufId prio pid tid tag msg lc =
     (let sq = lcSeqCounter lc + 1;
          entry = \<lparr>leSequence = sq, leBufferId = bufId, lePriority = prio, lePid = pid, leTid = tid,
                   leSec = fst t, leNsec = snd t, leTag = tag, leMessage = msg\<rparr>;
          lc = lc\<lparr>lcSeqCounter := sq, lcTotalReceived := lcTotalReceived lc + 1,
                  lcTotalCrashes := (if bufId = CRASH then lcTotalCrashes lc + 1 else lcTotalCrashes lc)\<rparr>;
          ring = lcRing lc @ [entry]
      in lc\<lparr>lcRing := (if length ring > lcMaxEntries lc then tl ring else ring)\<rparr>)"

text \<open>The outcomes of the calls that can fail: both sockets, both binds, and the listen.\<close>

record log_net =
  dwSocket :: bool
  dwBind :: bool
  drSocket :: bool
  drBind :: bool
  drListen :: bool

definition banner :: string where
  "banner = ''User-Space Logcat Broker initialized successfully (Buffer: 5000 entries)''"

definition log_files :: "host \<Rightarrow> string \<Rightarrow> host" where
  "log_files h dir =
     (let sockDir = dir @ ''/dev/socket'';
          h = fst (host_mkdir h sockDir 493);
          h = fst (host_mkdir h (dir @ ''/data/tombstones'') 511)
      in host_unlink (host_unlink h (sockDir @ ''/logdw'')) (sockDir @ ''/logdr''))"

definition start_logcat ::
  "log_net \<Rightarrow> u64 \<times> u64 \<Rightarrow> int \<Rightarrow> logcat \<Rightarrow> host \<Rightarrow> string \<Rightarrow> nat \<Rightarrow> bool \<times> logcat \<times> host" where
  "start_logcat net t self lc h dir maxEntries =
     (if lcIsRunning lc then (True, lc, h)
      else
        let dw = dir @ ''/dev/socket/logdw''; dr = dir @ ''/dev/socket/logdr'';
            lc = lc\<lparr>lcSandboxDir := dir, lcMaxEntries := maxEntries, lcLogdwPath := dw, lcLogdrPath := dr,
                    lcTombstoneDir := dir @ ''/data/tombstones''\<rparr>;
            h = log_files h dir
        in if \<not> dwSocket net then (False, lc\<lparr>lcLogdwOpen := False\<rparr>, h)
           else if \<not> dwBind net then (False, lc\<lparr>lcLogdwOpen := False\<rparr>, h)
           else
             let h = host_chmod (bind_node h dw) dw 438 in
             if \<not> drSocket net then (False, lc\<lparr>lcLogdwOpen := False, lcLogdrOpen := False\<rparr>, h)
             else if \<not> drBind net then (False, lc\<lparr>lcLogdwOpen := False, lcLogdrOpen := False\<rparr>, h)
             else
               let h = bind_node h dr in
               if \<not> drListen net then (False, lc\<lparr>lcLogdwOpen := False, lcLogdrOpen := False\<rparr>, h)
               else
                 let h = host_chmod h dr 438;
                     lc = lc\<lparr>lcLogdwOpen := True, lcLogdrOpen := True, lcIsRunning := True\<rparr>
                 in (True, appendLog t SYSTEM INFO self self ''GsiLogcatBroker'' banner lc, h))"

definition stop_logcat :: "logcat \<Rightarrow> host \<Rightarrow> logcat \<times> host" where
  "stop_logcat lc h =
     (if \<not> lcIsRunning lc then (lc, h)
      else
        let lc = lc\<lparr>lcIsRunning := False, lcLogdwOpen := False, lcLogdrOpen := False\<rparr>;
            h = (if lcLogdwPath lc \<noteq> [] then host_unlink h (lcLogdwPath lc) else h);
            h = (if lcLogdrPath lc \<noteq> [] then host_unlink h (lcLogdrPath lc) else h)
        in (lc, h))"

section \<open>The writer socket\<close>

definition ANDROID_LOG_HEADER :: nat where
  "ANDROID_LOG_HEADER = 11"

record android_log_header =
  ahId :: u8
  ahTid :: u16
  ahSec :: u32
  ahNsec :: u32

definition decode_log_header :: "u8 list \<Rightarrow> android_log_header" where
  "decode_log_header b =
     \<lparr>ahId = b ! 0, ahTid = le16 b 1, ahSec = le32 b 3, ahNsec = le32 b 7\<rparr>"

definition buffer_of :: "u8 \<Rightarrow> LogBufferId" where
  "buffer_of i = (if i \<le> 7 then [MAIN, RADIO, EVENTS, SYSTEM, CRASH, STATS, SECURITY, KERNEL] ! unat i else MAIN)"

definition priority_of :: "u8 \<Rightarrow> LogPriority" where
  "priority_of p =
     (if 2 \<le> p \<and> p \<le> 7 then [VERBOSE, DEBUG, INFO, WARN, ERROR, FATAL] ! (unat p - 2) else INFO)"

definition strip_newlines :: "string \<Rightarrow> string" where
  "strip_newlines s = rev (dropWhile (\<lambda>c. c = CHR 0x0A \<or> c = CHR 0x0D) (rev s))"

text \<open>The payload after the priority: the tag up to its NUL or the end, then the message.\<close>

definition split_payload :: "u8 list \<Rightarrow> string \<times> string" where
  "split_payload b =
     (let tag = bytes_to_string (takeWhile (\<lambda>x. x \<noteq> 0) b);
          rest = tl (dropWhile (\<lambda>x. x \<noteq> 0) b)
      in (if tag = [] then ''GsiGuest'' else tag, strip_newlines (bytes_to_string rest)))"

definition handleLogdwPacket :: "u64 \<times> u64 \<Rightarrow> int \<Rightarrow> u8 list \<Rightarrow> int \<Rightarrow> logcat \<Rightarrow> logcat" where
  "handleLogdwPacket t self buf clientPid lc =
     (if length buf < ANDROID_LOG_HEADER
      then appendLog t MAIN INFO clientPid 0 ''GsiGuest'' (bytes_to_string buf) lc
      else if ANDROID_LOG_HEADER \<ge> length buf then lc
      else
        let hdr = decode_log_header buf;
            prio = priority_of (buf ! ANDROID_LOG_HEADER)
        in case split_payload (drop (Suc ANDROID_LOG_HEADER) buf) of
             (tag, msg) \<Rightarrow> appendLog t (buffer_of (ahId hdr)) prio (if clientPid \<noteq> 0 then clientPid else self)
                             (uint (ahTid hdr)) tag msg lc)"

text \<open>
  The worker loop over what each \<^verbatim>\<open>poll\<close> reports: an interrupted call, a failed one (the thread
  ends), no data, or a datagram, of which at most 4096 bytes are received. \<open>stop\<close> is the other
  thread's clearing of the running flag.
\<close>

datatype poll_event = Interrupted | PollFailed | Quiet | Datagram "u8 list" | Cleared

fun logdwWorkerLoop :: "int \<Rightarrow> logcat \<Rightarrow> ((u64 \<times> u64) \<times> poll_event) list \<Rightarrow> logcat" where
  "logdwWorkerLoop self lc [] = lc"
| "logdwWorkerLoop self lc ((t, ev) # evs) =
     (if \<not> lcIsRunning lc then lc
      else case ev of
        Interrupted \<Rightarrow> logdwWorkerLoop self lc evs
      | PollFailed \<Rightarrow> lc
      | Quiet \<Rightarrow> logdwWorkerLoop self lc evs
      | Datagram d \<Rightarrow>
          (let b = take 4096 d in
           logdwWorkerLoop self (if b \<noteq> [] then handleLogdwPacket t self b 0 lc else lc) evs)
      | Cleared \<Rightarrow> logdwWorkerLoop self (lc\<lparr>lcIsRunning := False\<rparr>) evs)"

section \<open>Readers\<close>

text \<open>\<open>res\<close> are the results of the sends; the lines are the ones handed to the socket.\<close>

fun send_lines :: "string list \<Rightarrow> int list \<Rightarrow> string list" where
  "send_lines [] res = []"
| "send_lines (l # ls) [] = [l]"
| "send_lines (l # ls) (r # res) = l # (if r \<le> 0 then [] else send_lines ls res)"

definition handleLogdrClient :: "clock \<Rightarrow> logcat \<Rightarrow> int list \<Rightarrow> string list" where
  "handleLogdrClient tm lc res = send_lines (map (\<lambda>e. format_entry tm e @ [nl]) (lcRing lc)) res"

text \<open>\<open>lim\<close> is \<^verbatim>\<open>maxLines\<close> converted to \<^verbatim>\<open>size_t\<close>; the entries come newest first.\<close>

fun match_loop :: "int \<Rightarrow> int \<Rightarrow> nat \<Rightarrow> LogEntry list \<Rightarrow> LogEntry list \<Rightarrow> LogEntry list" where
  "match_loop buf minp lim [] matched = matched"
| "match_loop buf minp lim (e # es) matched =
     (if \<not> length matched < lim then matched
      else if buf \<ge> 0 \<and> buffer_code (leBufferId e) \<noteq> buf then match_loop buf minp lim es matched
      else if priority_code (lePriority e) < minp then match_loop buf minp lim es matched
      else match_loop buf minp lim es (matched @ [e]))"

definition getRecentLogs :: "clock \<Rightarrow> logcat \<Rightarrow> int \<Rightarrow> int \<Rightarrow> 32 word \<Rightarrow> string" where
  "getRecentLogs tm lc bufferIdFilter minPriority maxLines =
     (let matched = match_loop bufferIdFilter minPriority (unat (scast maxLines :: u64)) (rev (lcRing lc)) []
      in concat (map (\<lambda>e. format_entry tm e @ [nl]) (rev matched)))"

definition clearLogs :: "logcat \<Rightarrow> logcat" where
  "clearLogs lc = lc\<lparr>lcRing := []\<rparr>"

record LogBrokerStats =
  totalLogsReceived :: u64
  totalLogsDropped :: u64
  totalCrashLogs :: u64
  currentBufferSize :: nat
  isWriterActive :: bool
  isReaderActive :: bool

definition getStats :: "logcat \<Rightarrow> LogBrokerStats" where
  "getStats lc = \<lparr>totalLogsReceived = lcTotalReceived lc, totalLogsDropped = 0,
     totalCrashLogs = lcTotalCrashes lc, currentBufferSize = length (lcRing lc),
     isWriterActive = lcLogdwOpen lc, isReaderActive = lcLogdrOpen lc\<rparr>"

definition getStatsString :: "logcat \<Rightarrow> string" where
  "getStatsString lc =
     ''Logcat Broker: '' @ (if lcIsRunning lc then ''ACTIVE'' else ''STOPPED'')
     @ '' | Logs: '' @ dec (length (lcRing lc)) @ ''/'' @ dec (lcMaxEntries lc)
     @ '' | Total Received: '' @ dec (unat (lcTotalReceived lc))
     @ '' | Crashes: '' @ dec (unat (lcTotalCrashes lc))"

section \<open>Tombstones\<close>

definition tombstone_index :: "string list \<Rightarrow> int" where
  "tombstone_index names =
     foldl (\<lambda>m nm. if starts_with ''tombstone_'' nm
                   then let idx = atoi (drop 10 nm) in if idx \<ge> m then idx + 1 else m
                   else m) 0 names"

definition tombstone_name :: "string list \<Rightarrow> string" where
  "tombstone_name names = ''tombstone_'' @ pad_left 2 (CHR ''0'') (dec_int (tombstone_index names mod 20))"

record crash =
  crPid :: int
  crTid :: int
  crSignal :: int
  crFaultAddr :: string
  crReason :: string
  crRegisters :: string
  crBacktrace :: string

definition tombstone_report :: "clock \<Rightarrow> string \<Rightarrow> crash \<Rightarrow> LogEntry list \<Rightarrow> string" where
  "tombstone_report tm stamp c ring =
     oline ''*** *** *** *** *** *** *** *** *** *** *** *** *** *** *** ***''
     @ oline (''Build fingerprint: '' @ [CHR 0x27] @ ''Android/gsi_runtime/generic:14/UP1A.231005.007:userdebug/test-keys'' @ [CHR 0x27])
     @ oline (''Revision: '' @ [CHR 0x27] @ ''0'' @ [CHR 0x27])
     @ oline (''ABI: '' @ [CHR 0x27] @ ''arm64'' @ [CHR 0x27])
     @ oline (''Timestamp: '' @ stamp)
     @ oline (''Process: guest_process (pid: '' @ dec_int (crPid c) @ '', tid: '' @ dec_int (crTid c) @ '')'')
     @ oline (''Signal: '' @ signalToString (crSignal c) @ '' ('' @ dec_int (crSignal c) @ ''), fault addr: '' @ crFaultAddr c)
     @ (if crReason c \<noteq> [] then oline (''Cause: '' @ crReason c) else [])
     @ [nl]
     @ (if crRegisters c \<noteq> [] then oline ''Registers:'' @ crRegisters c @ [nl, nl] else [])
     @ (if crBacktrace c \<noteq> [] then oline ''Backtrace:'' @ crBacktrace c @ [nl, nl] else [])
     @ oline ''Crash Logcat Tail:''
     @ concat (map (\<lambda>e. ''  '' @ oline (format_entry tm e)) (drop (length ring - 15) ring))"

text \<open>\<open>names\<close> is the listing of the tombstone directory, \<open>now\<close> the time and \<open>stamp\<close> its printed form.\<close>

definition dumpTombstone ::
  "clock \<Rightarrow> u64 \<Rightarrow> string \<Rightarrow> string list \<Rightarrow> crash \<Rightarrow> logcat \<Rightarrow> host \<Rightarrow> string \<times> logcat \<times> host" where
  "dumpTombstone tm now stamp names c lc h =
     (let fullPath = lcTombstoneDir lc @ ''/'' @ tombstone_name names;
          report = tombstone_report tm stamp c (lcRing lc);
          h = (case host_write h fullPath 438 report of
                 (h, True) \<Rightarrow> host_chmod h fullPath 420 | (h, False) \<Rightarrow> h);
          sq = lcSeqCounter lc + 1;
          entry = \<lparr>leSequence = sq, leBufferId = CRASH, lePriority = FATAL, lePid = crPid c, leTid = crTid c,
                   leSec = now, leNsec = 0, leTag = ''DEBUGGERD'',
                   leMessage = ''Fatal signal '' @ dec_int (crSignal c) @ '' ('' @ signalToString (crSignal c)
                     @ '') at '' @ fullPath\<rparr>;
          lc = lc\<lparr>lcSeqCounter := sq, lcRing := lcRing lc @ [entry], lcTotalCrashes := lcTotalCrashes lc + 1\<rparr>
      in (report, lc, h))"

text \<open>\<open>entries\<close> is the listing with the modification time of each name whose \<^verbatim>\<open>stat\<close> succeeds.\<close>

definition latest_path :: "string \<Rightarrow> (string \<times> int option) list \<Rightarrow> string \<times> int" where
  "latest_path dir entries =
     foldl (\<lambda>(p, m) (nm, st).
              if starts_with ''tombstone_'' nm
              then (case st of Some mt \<Rightarrow> if mt > m then (dir @ ''/'' @ nm, mt) else (p, m) | None \<Rightarrow> (p, m))
              else (p, m)) ([], 0) entries"

definition getLatestTombstone :: "logcat \<Rightarrow> host \<Rightarrow> (string \<times> int option) list \<Rightarrow> string" where
  "getLatestTombstone lc h entries =
     (let p = fst (latest_path (lcTombstoneDir lc) entries) in
      if p = [] then ''No crash tombstones found in '' @ lcTombstoneDir lc
      else case file_content h p of
             None \<Rightarrow> ''Failed to open tombstone at '' @ p
           | Some c \<Rightarrow> oline (''// Tombstone: '' @ p) @ c)"

section \<open>The ring buffer\<close>

text \<open>A request to log: the clock, buffer, priority, process, thread, tag and message.\<close>

type_synonym log_request = "(u64 \<times> u64) \<times> LogBufferId \<times> LogPriority \<times> int \<times> int \<times> string \<times> string"

definition append_request :: "logcat \<Rightarrow> log_request \<Rightarrow> logcat" where
  "append_request lc r = (case r of (t, b, p, pid, tid, tag, msg) \<Rightarrow> appendLog t b p pid tid tag msg lc)"

definition request_entry :: "u64 \<Rightarrow> log_request \<Rightarrow> LogEntry" where
  "request_entry sq r = (case r of (t, b, p, pid, tid, tag, msg) \<Rightarrow>
     \<lparr>leSequence = sq, leBufferId = b, lePriority = p, lePid = pid, leTid = tid, leSec = fst t, leNsec = snd t,
      leTag = tag, leMessage = msg\<rparr>)"

fun numbered :: "u64 \<Rightarrow> log_request list \<Rightarrow> LogEntry list" where
  "numbered sq [] = []"
| "numbered sq (r # rs) = request_entry (sq + 1) r # numbered (sq + 1) rs"

lemma length_numbered [simp]: "length (numbered sq rs) = length rs"
  by (induction rs arbitrary: sq) simp_all

lemma numbered_nth: "i < length rs \<Longrightarrow> numbered sq rs ! i = request_entry (sq + word_of_nat (Suc i)) (rs ! i)"
  by (induction rs arbitrary: sq i) (auto simp: nth_Cons less_Suc_eq_0_disj add_ac split: nat.splits)

lemma append_request_simps:
  "lcMaxEntries (append_request lc r) = lcMaxEntries lc"
  "lcSeqCounter (append_request lc r) = lcSeqCounter lc + 1"
  "lcTotalReceived (append_request lc r) = lcTotalReceived lc + 1"
  "lcRing (append_request lc r) =
     (if length (lcRing lc @ [request_entry (lcSeqCounter lc + 1) r]) > lcMaxEntries lc
      then tl (lcRing lc @ [request_entry (lcSeqCounter lc + 1) r])
      else lcRing lc @ [request_entry (lcSeqCounter lc + 1) r])"
  by (simp_all add: append_request_def appendLog_def request_entry_def Let_def split: prod.splits)

lemma append_requests_ring:
  "lcRing lc = keep_last (lcMaxEntries lc) es \<Longrightarrow>
   lcRing (foldl append_request lc rs) = keep_last (lcMaxEntries lc) (es @ numbered (lcSeqCounter lc) rs)
   \<and> lcSeqCounter (foldl append_request lc rs) = lcSeqCounter lc + word_of_nat (length rs)
   \<and> lcTotalReceived (foldl append_request lc rs) = lcTotalReceived lc + word_of_nat (length rs)"
proof (induction rs arbitrary: lc es)
  case (Cons r rs)
  let ?lc = "append_request lc r"
  have "lcRing ?lc = keep_last (lcMaxEntries ?lc) (es @ [request_entry (lcSeqCounter lc + 1) r])"
    unfolding append_request_simps Cons.prems by (rule keep_last_push)
  from Cons.IH [OF this] show ?case
    by (simp add: append_request_simps add_ac)
qed simp

text \<open>C22: However many messages are logged, the ring buffer holds exactly the last mMaxEntries of what it
  held followed by what was logged, in the order of arrival and none lost in between, each with the
  next 64-bit sequence number, and the totals count every one.\<close>

theorem ring_is_last_entries:
  assumes "length (lcRing lc) \<le> lcMaxEntries lc"
  shows "lcRing (foldl append_request lc rs)
      = keep_last (lcMaxEntries lc) (lcRing lc @ numbered (lcSeqCounter lc) rs)
    \<and> (\<forall>i < length rs. leSequence (numbered (lcSeqCounter lc) rs ! i) = lcSeqCounter lc + word_of_nat (Suc i))
    \<and> lcTotalReceived (foldl append_request lc rs) = lcTotalReceived lc + word_of_nat (length rs)"
proof -
  have "lcRing lc = keep_last (lcMaxEntries lc) (lcRing lc)"
    using assms by (simp add: keep_last_all)
  from append_requests_ring [OF this] show ?thesis
    by (simp add: numbered_nth request_entry_def split: prod.splits)
qed

definition demo_request :: "string \<Rightarrow> log_request" where
  "demo_request msg = ((7, 0), MAIN, INFO, 1, 1, ''t'', msg)"

theorem ring_is_last_entries_witness:
  "map leMessage (lcRing (foldl append_request (logcat_init\<lparr>lcMaxEntries := 2\<rparr>)
     [demo_request ''a'', demo_request ''b'', demo_request ''c''])) = [''b'', ''c'']"
  using ring_is_last_entries [of "logcat_init\<lparr>lcMaxEntries := 2\<rparr>"
      "[demo_request ''a'', demo_request ''b'', demo_request ''c'']"]
  by (simp add: logcat_init_def demo_request_def request_entry_def keep_last_def)

lemma append_requests_full:
  "lcMaxEntries lc \<le> length (lcRing lc) \<Longrightarrow> length (lcRing (foldl append_request lc rs)) = length (lcRing lc)
   \<and> lcTotalReceived (foldl append_request lc rs) = lcTotalReceived lc + word_of_nat (length rs)"
  by (induction rs arbitrary: lc) (simp_all add: append_request_simps add_ac)

text \<open>Crashes reported one after the other; the listing of the directory at each is a parameter.\<close>

definition dump_all ::
  "clock \<Rightarrow> (u64 \<times> string \<times> string list \<times> crash) list \<Rightarrow> logcat \<times> host \<Rightarrow> logcat \<times> host" where
  "dump_all tm cs = (\<lambda>s. foldl (\<lambda>(lc, h) (now, stamp, names, c). snd (dumpTombstone tm now stamp names c lc h)) s cs)"

lemma dump_all_length:
  "length (lcRing (fst (dump_all tm cs (lc, h)))) = length (lcRing lc) + length cs
   \<and> lcMaxEntries (fst (dump_all tm cs (lc, h))) = lcMaxEntries lc
   \<and> lcTotalReceived (fst (dump_all tm cs (lc, h))) = lcTotalReceived lc"
proof (induction cs arbitrary: lc h)
  case (Cons x cs)
  obtain now stamp names c where x: "x = (now, stamp, names, c)" by (cases x)
  obtain rep lc' h' where d: "dumpTombstone tm now stamp names c lc h = (rep, lc', h')"
    by (cases "dumpTombstone tm now stamp names c lc h")
  have "length (lcRing lc') = Suc (length (lcRing lc))" "lcMaxEntries lc' = lcMaxEntries lc"
    "lcTotalReceived lc' = lcTotalReceived lc"
    using d by (auto simp: dumpTombstone_def Let_def)
  then show ?case
    using Cons.IH [of lc' h'] by (simp add: dump_all_def x d)
qed (simp add: dump_all_def)

text \<open>C23: A tombstone appends its entry without evicting one or counting it as received: once the buffer is
  full, every crash leaves it one entry larger than mMaxEntries allows, and no later message brings it back.\<close>

theorem tombstones_exceed_bound:
  assumes "length (lcRing lc) = lcMaxEntries lc"
  shows "length (lcRing (foldl append_request (fst (dump_all tm cs (lc, h))) rs)) = lcMaxEntries lc + length cs
    \<and> lcTotalReceived (foldl append_request (fst (dump_all tm cs (lc, h))) rs)
      = lcTotalReceived lc + word_of_nat (length rs)"
  using append_requests_full [of "fst (dump_all tm cs (lc, h))" rs] dump_all_length [of tm cs lc h] assms by simp

definition demo_crash :: "u64 \<times> string \<times> string list \<times> crash" where
  "demo_crash = (0, [], [], \<lparr>crPid = 1, crTid = 1, crSignal = 11, crFaultAddr = ''0x0'', crReason = [],
     crRegisters = [], crBacktrace = []\<rparr>)"

theorem tombstones_exceed_bound_witness:
  "\<exists>lc. lcMaxEntries lc = 0 \<and> length (lcRing (foldl append_request
      (fst (dump_all (\<lambda>t. (0, 1, 0, 0, 0)) [demo_crash, demo_crash] (lc, \<lparr>hNodes = \<lambda>p. None, hDenied = \<lambda>p. False\<rparr>)))
      [demo_request ''a''])) = 2"
  using tombstones_exceed_bound [of "logcat_init\<lparr>lcMaxEntries := 0\<rparr>" "\<lambda>t. (0, 1, 0, 0, 0)" "[demo_crash, demo_crash]"
      "\<lparr>hNodes = \<lambda>p. None, hDenied = \<lambda>p. False\<rparr>" "[demo_request ''a'']"]
  by (intro exI [of _ "logcat_init\<lparr>lcMaxEntries := 0\<rparr>"]) (simp add: logcat_init_def)

section \<open>Packets\<close>

text \<open>What liblog writes for a message.\<close>

definition log_packet :: "u8 \<Rightarrow> u16 \<Rightarrow> u32 \<Rightarrow> u32 \<Rightarrow> u8 \<Rightarrow> string \<Rightarrow> string \<Rightarrow> u8 list" where
  "log_packet bufId tid sec nsec prio tag msg =
     bufId # u16_bytes tid @ u32_bytes sec @ u32_bytes nsec @ prio # string_to_bytes tag @ 0 # string_to_bytes msg"

lemma header_of_packet:
  "decode_log_header (log_packet bufId tid sec nsec prio tag msg)
     = \<lparr>ahId = bufId, ahTid = tid, ahSec = sec, ahNsec = nsec\<rparr>"
proof -
  have "le16 (bufId # u16_bytes tid @ xs) 1 = tid" "le32 (bufId # u16_bytes tid @ u32_bytes sec @ ys) 3 = sec"
    "le32 (bufId # u16_bytes tid @ u32_bytes sec @ u32_bytes nsec @ zs) 7 = nsec" for xs ys zs
    by (simp_all add: le16_def le32_def numeral_eq_Suc)
  then show ?thesis
    by (simp add: decode_log_header_def log_packet_def)
qed

lemma takeWhile_nul:
  assumes "nul \<notin> set s"
  shows "takeWhile (\<lambda>x. x \<noteq> 0) (string_to_bytes s @ 0 # bs) = string_to_bytes s"
    and "dropWhile (\<lambda>x. x \<noteq> 0) (string_to_bytes s @ 0 # bs) = 0 # bs"
  using string_to_bytes_no_nul [OF assms] by (simp_all add: takeWhile_append2 dropWhile_append2)

lemma strip_newlines_id:
  "msg = [] \<or> last msg \<noteq> CHR 0x0A \<and> last msg \<noteq> CHR 0x0D \<Longrightarrow> strip_newlines msg = msg"
  by (cases msg rule: rev_cases) (auto simp: strip_newlines_def)

text \<open>C24: A packet as liblog writes it is logged with the buffer, thread, priority, tag and message that
  its fields carry, under the sender's process id; only a closing newline of the message is dropped.\<close>

theorem packet_logged:
  assumes "bufId \<le> 7" "2 \<le> prio" "prio \<le> 7" "tag \<noteq> []" "nul \<notin> set tag"
    and "msg = [] \<or> last msg \<noteq> CHR 0x0A \<and> last msg \<noteq> CHR 0x0D" "set brk \<subseteq> {CHR 0x0A, CHR 0x0D}"
  shows "handleLogdwPacket t self (log_packet bufId tid sec nsec prio tag (msg @ brk)) pid lc
    = appendLog t (buffer_of bufId) (priority_of prio) (if pid \<noteq> 0 then pid else self) (uint tid) tag msg lc
    \<and> buffer_code (buffer_of bufId) = uint bufId \<and> priority_code (priority_of prio) = uint prio"
proof -
  have tail: "drop (Suc ANDROID_LOG_HEADER) (log_packet bufId tid sec nsec prio tag (msg @ brk))
      = string_to_bytes tag @ 0 # string_to_bytes (msg @ brk)"
    by (simp add: log_packet_def ANDROID_LOG_HEADER_def numeral_eq_Suc u16_bytes_def u32_bytes_def)
  have p: "log_packet bufId tid sec nsec prio tag (msg @ brk) ! ANDROID_LOG_HEADER = prio"
    by (simp add: log_packet_def ANDROID_LOG_HEADER_def numeral_eq_Suc u16_bytes_def u32_bytes_def)
  have "strip_newlines (msg @ brk) = strip_newlines msg"
    using assms(7) by (induction brk rule: rev_induct) (auto simp: strip_newlines_def)
  then have "strip_newlines (msg @ brk) = msg"
    using assms(6) strip_newlines_id by simp
  then have sp: "split_payload (string_to_bytes tag @ 0 # string_to_bytes (msg @ brk)) = (tag, msg)"
    using assms(4) takeWhile_nul [OF assms(5)] by (simp add: split_payload_def)
  have len: "length (log_packet bufId tid sec nsec prio tag (msg @ brk)) > ANDROID_LOG_HEADER"
    by (simp add: log_packet_def ANDROID_LOG_HEADER_def)
  have "bufId \<in> {0, 1, 2, 3, 4, 5, 6, 7}"
    using assms(1) by (auto simp: word_unat_eq_iff word_le_nat_alt)
  then have "buffer_code (buffer_of bufId) = uint bufId"
    by (auto simp: buffer_of_def)
  moreover have "prio \<in> {2, 3, 4, 5, 6, 7}"
    using assms(2,3) by (auto simp: word_unat_eq_iff word_le_nat_alt)
  then have "priority_code (priority_of prio) = uint prio"
    by (auto simp: priority_of_def)
  ultimately show ?thesis
    using len unfolding handleLogdwPacket_def Let_def tail p header_of_packet sp by simp
qed

theorem packet_logged_witness:
  "map (\<lambda>e. (leTag e, leMessage e, lePid e)) (lcRing (handleLogdwPacket (5, 0) 42
      (log_packet 0 7 0 0 4 ''tag'' (''hello'' @ [nl])) 0 logcat_init)) = [(''tag'', ''hello'', 42)]"
  using packet_logged [of 0 4 "''tag''" "''hello''" "[nl]" "(5, 0)" 42 7 0 0 0 logcat_init]
  by (simp add: nl_def nul_def appendLog_def logcat_init_def Let_def)

section \<open>Queries\<close>

definition log_matches :: "int \<Rightarrow> int \<Rightarrow> LogEntry \<Rightarrow> bool" where
  "log_matches buf minp e \<longleftrightarrow> (buf \<ge> 0 \<longrightarrow> buffer_code (leBufferId e) = buf) \<and> minp \<le> priority_code (lePriority e)"

lemma match_loop_filter:
  "match_loop buf minp lim es matched = matched @ take (lim - length matched) (filter (log_matches buf minp) es)"
  by (induction buf minp lim es matched rule: match_loop.induct) (auto simp: log_matches_def take_Cons' not_less)

text \<open>C25: A query returns, in chronological order, the most recent maxLines entries of the asked buffer
  (any buffer for a negative filter) at or above the asked priority, maxLines read as an unsigned number.\<close>

theorem recent_logs_spec:
  "getRecentLogs tm lc buf minp lim =
     concat (map (\<lambda>e. oline (format_entry tm e))
       (keep_last (unat (scast lim :: u64)) (filter (log_matches buf minp) (lcRing lc))))"
  by (simp add: getRecentLogs_def match_loop_filter keep_last_rev_take rev_filter oline_def)

section \<open>The rotation of tombstones\<close>

text \<open>The listing of a directory that starts empty, after each of \<open>n\<close> tombstones was written.\<close>

fun dump_names :: "nat \<Rightarrow> string list" where
  "dump_names 0 = []"
| "dump_names (Suc n) =
     (let nm = tombstone_name (dump_names n) in if nm \<in> set (dump_names n) then dump_names n else dump_names n @ [nm])"

definition nth_tombstone :: "nat \<Rightarrow> string" where
  "nth_tombstone n = ''tombstone_'' @ pad_left 2 (CHR ''0'') (dec n)"

definition first_tombstones :: "nat \<Rightarrow> string list" where
  "first_tombstones n = map nth_tombstone [0..<n]"

lemma nth_tombstone_index:
  assumes "n < 20"
  shows "starts_with ''tombstone_'' (nth_tombstone n)" "atoi (drop 10 (nth_tombstone n)) = int n"
proof -
  have "\<forall>n \<in> set [0..<20]. starts_with ''tombstone_'' (nth_tombstone n) \<and> atoi (drop 10 (nth_tombstone n)) = int n"
    by code_simp
  then show "starts_with ''tombstone_'' (nth_tombstone n)" "atoi (drop 10 (nth_tombstone n)) = int n"
    using assms by simp_all
qed

lemma first_tombstones_index: "n \<le> 20 \<Longrightarrow> tombstone_index (first_tombstones n) = int n"
  by (induction n) (simp_all add: tombstone_index_def first_tombstones_def nth_tombstone_index)

lemma first_tombstones_name:
  assumes "n \<le> 20"
  shows "tombstone_name (first_tombstones n) = nth_tombstone (if n < 20 then n else 0)"
  using assms by (auto simp: tombstone_name_def first_tombstones_index nth_tombstone_def dec_int_def)

lemma nth_tombstone_new: "n < 20 \<Longrightarrow> nth_tombstone n \<notin> set (first_tombstones n)"
proof
  assume n: "n < 20" "nth_tombstone n \<in> set (first_tombstones n)"
  then obtain m where "m < n" "nth_tombstone n = nth_tombstone m"
    by (auto simp: first_tombstones_def)
  then show False
    using nth_tombstone_index(2) [of n] nth_tombstone_index(2) [of m] n(1) by simp
qed

lemma dump_names_first: "n \<le> 20 \<Longrightarrow> dump_names n = first_tombstones n"
proof (induction n)
  case (Suc n)
  then show ?case
    using nth_tombstone_new [of n] first_tombstones_name [of n] by (simp add: Let_def) (simp add: first_tombstones_def)
qed (simp add: first_tombstones_def)

lemma dump_names_stuck: "dump_names (20 + k) = first_tombstones 20"
proof (induction k)
  case 0
  show ?case using dump_names_first [of 20] by simp
next
  case (Suc k)
  have "nth_tombstone 0 \<in> set (first_tombstones 20)"
    by (simp add: first_tombstones_def)
  then have "dump_names (Suc (20 + k)) = first_tombstones 20"
    using Suc first_tombstones_name [of 20] by (simp only: dump_names.simps Let_def) simp
  then show ?case by simp
qed

text \<open>The twenty tombstone files are used once each, tombstone_00 to tombstone_19, and from then on the
  rotation is stuck: every later crash overwrites tombstone_00, although nineteen older ones stay.\<close>

lemma tombstone_rotation_stuck:
  "tombstone_name (dump_names n) = nth_tombstone (if n < 20 then n else 0)"
proof (cases "n < 20")
  case True
  then show ?thesis
    using dump_names_first [of n] first_tombstones_name [of n] by simp
next
  case False
  then obtain k where "n = 20 + k"
    by (metis add.commute le_Suc_ex not_less)
  then show ?thesis
    using dump_names_stuck [of k] first_tombstones_name [of 20] by simp
qed

end
