(* ===== verification/Float_Ops.thy ===== *)
theory Float_Ops
  imports Prelude
begin

text \<open>
  Floating-point arithmetic as the drawing, sensor and sound code uses it. The operations of the
  floating-point unit and of the mathematical library are the fields of a record, a parameter of the
  definitions that compute with \<^verbatim>\<open>float\<close> or \<^verbatim>\<open>double\<close>: what is proved of them holds for every rounding.
  The functions of the C++ library that only compare are defined on top.
\<close>

record 'f float_ops =
  fAdd :: "'f \<Rightarrow> 'f \<Rightarrow> 'f"
  fSub :: "'f \<Rightarrow> 'f \<Rightarrow> 'f"
  fMul :: "'f \<Rightarrow> 'f \<Rightarrow> 'f"
  fDiv :: "'f \<Rightarrow> 'f \<Rightarrow> 'f"
  fMod :: "'f \<Rightarrow> 'f \<Rightarrow> 'f"
  fLess :: "'f \<Rightarrow> 'f \<Rightarrow> bool"
  fLeq :: "'f \<Rightarrow> 'f \<Rightarrow> bool"
  fNeg :: "'f \<Rightarrow> 'f"
  fAbs :: "'f \<Rightarrow> 'f"
  fSqrt :: "'f \<Rightarrow> 'f"
  fSin :: "'f \<Rightarrow> 'f"
  fCos :: "'f \<Rightarrow> 'f"
  fExp :: "'f \<Rightarrow> 'f"
  fFloor :: "'f \<Rightarrow> 'f"
  fCeil :: "'f \<Rightarrow> 'f"
  fInt :: "int \<Rightarrow> 'f"
  fDec :: "int \<Rightarrow> nat \<Rightarrow> 'f"
  fTrunc :: "'f \<Rightarrow> int option"
  fText :: "'f \<Rightarrow> string"
  fFixed :: "nat \<Rightarrow> 'f \<Rightarrow> string"
  fShow :: "'f \<Rightarrow> string"

text \<open>
  \<open>fDec m e\<close> is the literal with the value \<open>m / 10^e\<close>, \<open>fTrunc\<close> the value without its
  fraction where there is one; \<open>fText\<close> is \<^verbatim>\<open>std::to_string\<close>, \<open>fFixed n\<close> the
  output with \<open>n\<close> decimals and \<open>fShow\<close> the default output of a stream.
\<close>

definition f_to_int :: "'f float_ops \<Rightarrow> 'f \<Rightarrow> fault + int" where
  "f_to_int F x =
     (case fTrunc F x of
        Some i \<Rightarrow> if int_range i then Inr i else Inl FloatRange
      | None \<Rightarrow> Inl FloatRange)"

definition f_to_u8 :: "'f float_ops \<Rightarrow> 'f \<Rightarrow> fault + u8" where
  "f_to_u8 F x =
     (case fTrunc F x of
        Some i \<Rightarrow> if 0 \<le> i \<and> i < 256 then Inr (word_of_int i) else Inl FloatRange
      | None \<Rightarrow> Inl FloatRange)"

definition f_to_i16 :: "'f float_ops \<Rightarrow> 'f \<Rightarrow> fault + 16 word" where
  "f_to_i16 F x =
     (case fTrunc F x of
        Some i \<Rightarrow> if - 32768 \<le> i \<and> i < 32768 then Inr (word_of_int i) else Inl FloatRange
      | None \<Rightarrow> Inl FloatRange)"

definition f_to_size :: "'f float_ops \<Rightarrow> 'f \<Rightarrow> fault + nat" where
  "f_to_size F x =
     (case fTrunc F x of
        Some i \<Rightarrow> if 0 \<le> i \<and> i < 2 ^ 64 then Inr (nat i) else Inl FloatRange
      | None \<Rightarrow> Inl FloatRange)"

definition f_min :: "'f float_ops \<Rightarrow> 'f \<Rightarrow> 'f \<Rightarrow> 'f" where
  "f_min F a b = (if fLess F b a then b else a)"

definition f_max :: "'f float_ops \<Rightarrow> 'f \<Rightarrow> 'f \<Rightarrow> 'f" where
  "f_max F a b = (if fLess F a b then b else a)"

definition f_min3 :: "'f float_ops \<Rightarrow> 'f \<Rightarrow> 'f \<Rightarrow> 'f \<Rightarrow> 'f" where
  "f_min3 F a b c =
     (let m = (if fLess F b a then b else a) in if fLess F c m then c else m)"

definition f_max3 :: "'f float_ops \<Rightarrow> 'f \<Rightarrow> 'f \<Rightarrow> 'f \<Rightarrow> 'f" where
  "f_max3 F a b c =
     (let m = (if fLess F a b then b else a) in if fLess F m c then c else m)"

definition f_clamp :: "'f float_ops \<Rightarrow> 'f \<Rightarrow> 'f \<Rightarrow> 'f \<Rightarrow> 'f" where
  "f_clamp F v lo hi = (if fLess F v lo then lo else if fLess F hi v then hi else v)"

text \<open>An instance to compute with: numbers with three decimals, without the transcendental functions.\<close>

definition milli_ops :: "int float_ops" where
  "milli_ops = \<lparr>fAdd = (+), fSub = (-), fMul = (\<lambda>a b. a * b div 1000), fDiv = (\<lambda>a b. a * 1000 div b), fMod = (mod),
     fLess = (<), fLeq = (\<le>), fNeg = uminus, fAbs = abs, fSqrt = id, fSin = id, fCos = id, fExp = id,
     fFloor = (\<lambda>a. a div 1000 * 1000), fCeil = (\<lambda>a. - (- a div 1000) * 1000),
     fInt = (\<lambda>i. i * 1000), fDec = (\<lambda>m e. m * 1000 div 10 ^ e),
     fTrunc = (\<lambda>a. Some (sgn a * (\<bar>a\<bar> div 1000))),
     fText = dec_int, fFixed = (\<lambda>n. dec_int), fShow = dec_int\<rparr>"

lemma f_to_int_range: "f_to_int F x = Inr i \<Longrightarrow> int_range i"
  by (auto simp: f_to_int_def split: option.splits if_splits)

lemma f_to_int_fault: "f_to_int F x = Inl e \<Longrightarrow> e = FloatRange"
  by (auto simp: f_to_int_def split: option.splits if_splits)

lemma f_to_u8_fault: "f_to_u8 F x = Inl e \<Longrightarrow> e = FloatRange"
  by (auto simp: f_to_u8_def split: option.splits if_splits)

end
