(* ===== verification/Audio_Bridge.thy ===== *)
theory Audio_Bridge
  imports Host_Files Float_Ops
begin

text \<open>
  The virtual audio device of \<^verbatim>\<open>audio_bridge.cpp\<close>: a circular buffer of 65536 samples
  between the guest that writes and the player that reads. The body that runs under the mutex is
  apart from the check of the running flag before it, because another thread can act between the two.
  The double-precision operations that give the samples of a chime are parameters.
\<close>

section \<open>A bounded queue\<close>

text \<open>
  What the two ends of a bounded queue promise: a push accepts as many elements as there is room for,
  in order, and a pop takes the oldest. Both keep the provider's invariant.
\<close>

datatype 'a queue_op = Push "'a list" | Pop nat

locale fifo =
  fixes ok :: "'s \<Rightarrow> bool"
    and content :: "'s \<Rightarrow> 'a list"
    and capacity :: nat
    and push :: "'s \<Rightarrow> 'a list \<Rightarrow> nat \<times> 's"
    and pop :: "'s \<Rightarrow> nat \<Rightarrow> 'a list \<times> 's"
  assumes push_ok: "ok s \<Longrightarrow> ok (snd (push s xs))"
    and push_count: "ok s \<Longrightarrow> fst (push s xs) = min (length xs) (capacity - length (content s))"
    and push_content: "ok s \<Longrightarrow> content (snd (push s xs)) = content s @ take (fst (push s xs)) xs"
    and pop_ok: "ok s \<Longrightarrow> ok (snd (pop s k))"
    and pop_result: "ok s \<Longrightarrow> fst (pop s k) = take k (content s)"
    and pop_content: "ok s \<Longrightarrow> content (snd (pop s k)) = drop k (content s)"
    and bounded: "ok s \<Longrightarrow> length (content s) \<le> capacity"
begin

text \<open>A run collects what the pushes accepted and what the pops delivered.\<close>

fun run :: "'s \<Rightarrow> 'a queue_op list \<Rightarrow> 'a list \<times> 'a list \<times> 's" where
  "run s [] = ([], [], s)"
| "run s (Push xs # ops) =
     (case run (snd (push s xs)) ops of (acc, out, s') \<Rightarrow> (take (fst (push s xs)) xs @ acc, out, s'))"
| "run s (Pop k # ops) =
     (case run (snd (pop s k)) ops of (acc, out, s') \<Rightarrow> (acc, fst (pop s k) @ out, s'))"

lemma run_fifo:
  "ok s \<Longrightarrow> run s ops = (acc, out, s') \<Longrightarrow> ok s' \<and> out @ content s' = content s @ acc"
proof (induction s ops arbitrary: acc out s' rule: run.induct)
  case (2 s xs ops)
  then show ?case
    using push_ok [OF 2(2), of xs] push_content [OF 2(2), of xs] by (auto split: prod.splits)
next
  case (3 s k ops)
  then show ?case
    using pop_ok [OF 3(2), of k] pop_content [OF 3(2), of k] pop_result [OF 3(2), of k] by (auto split: prod.splits)
qed simp

lemma run_accepts_all:
  "ok s \<Longrightarrow> length (content s) + length xs \<le> capacity \<Longrightarrow> fst (push s xs) = length xs"
  by (simp add: push_count)

end

section \<open>State\<close>

definition RING_BUFFER_SIZE :: nat where
  "RING_BUFFER_SIZE = 65536"

type_synonym sample = "16 word"

record audio =
  auSandboxDir :: string
  auFifoPath :: string
  auSampleRate :: u32
  auChannels :: u32
  auIsRunning :: bool
  auRing :: "sample list"
  auWritePos :: nat
  auReadPos :: nat
  auAvailable :: nat
  auTotalWritten :: u64
  auTotalRead :: u64
  auUnderruns :: u64

definition audio_new :: audio where
  "audio_new = \<lparr>auSandboxDir = [], auFifoPath = [], auSampleRate = 48000, auChannels = 2,
     auIsRunning = False, auRing = [], auWritePos = 0, auReadPos = 0, auAvailable = 0,
     auTotalWritten = 0, auTotalRead = 0, auUnderruns = 0\<rparr>"

definition initialize_audio :: "audio \<Rightarrow> host \<Rightarrow> string \<Rightarrow> u32 \<Rightarrow> u32 \<Rightarrow> audio \<times> host" where
  "initialize_audio a h dir rate channels =
     (let p = dir @ ''/tmp/audio_pcm.raw'';
          h = fst (host_mkdir h (dir @ ''/tmp'') 511);
          h = (case host_write h p 438 [] of (h, True) \<Rightarrow> host_chmod h p 438 | (h, False) \<Rightarrow> h)
      in (\<lparr>auSandboxDir = dir, auFifoPath = p, auSampleRate = rate,
           auChannels = (if channels = 1 \<or> channels = 2 then channels else 2), auIsRunning = True,
           auRing = replicate RING_BUFFER_SIZE 0, auWritePos = 0, auReadPos = 0, auAvailable = 0,
           auTotalWritten = 0, auTotalRead = 0, auUnderruns = 0\<rparr>, h))"

definition shutdown_audio :: "audio \<Rightarrow> audio" where
  "shutdown_audio a = a\<lparr>auIsRunning := False, auRing := [], auWritePos := 0, auReadPos := 0, auAvailable := 0\<rparr>"

section \<open>Writing and reading\<close>

text \<open>The two loops; an index outside the vector is a fault.\<close>

fun write_loop :: "sample list \<Rightarrow> audio \<Rightarrow> fault + audio" where
  "write_loop [] a = Inr a"
| "write_loop (x # xs) a =
     (if auWritePos a < length (auRing a)
      then write_loop xs (a\<lparr>auRing := (auRing a)[auWritePos a := x],
                            auWritePos := (auWritePos a + 1) mod RING_BUFFER_SIZE\<rparr>)
      else Inl OutOfBounds)"

fun read_loop :: "nat \<Rightarrow> audio \<Rightarrow> fault + (sample list \<times> audio)" where
  "read_loop 0 a = Inr ([], a)"
| "read_loop (Suc n) a =
     (if auReadPos a < length (auRing a)
      then bnd (read_loop n (a\<lparr>auReadPos := (auReadPos a + 1) mod RING_BUFFER_SIZE\<rparr>)) (\<lambda>(out, a').
             Inr (auRing a ! auReadPos a # out, a'))
      else Inl OutOfBounds)"

text \<open>The bodies under the mutex.\<close>

definition write_locked :: "audio \<Rightarrow> sample list \<Rightarrow> fault + (nat \<times> audio)" where
  "write_locked a samples =
     (let spaceLeft = RING_BUFFER_SIZE - auAvailable a;
          toWrite = min (length samples) spaceLeft
      in bnd (write_loop (take toWrite samples) a) (\<lambda>a.
           if auChannels a = 0 then Inl DivideByZero
           else Inr (toWrite, a\<lparr>auAvailable := auAvailable a + toWrite,
                  auTotalWritten := auTotalWritten a + word_of_nat (toWrite div unat (auChannels a))\<rparr>)))"

definition read_locked :: "audio \<Rightarrow> nat \<Rightarrow> fault + (nat \<times> sample list \<times> audio)" where
  "read_locked a maxCount =
     (let toRead = min maxCount (auAvailable a) in
      bnd (read_loop toRead a) (\<lambda>(out, a).
        if auChannels a = 0 then Inl DivideByZero
        else
          let a = a\<lparr>auAvailable := auAvailable a - toRead,
                    auTotalRead := auTotalRead a + word_of_nat (toRead div unat (auChannels a))\<rparr>
          in if toRead < maxCount
             then Inr (toRead, out @ replicate (maxCount - toRead) 0,
                       if toRead = 0 then a\<lparr>auUnderruns := auUnderruns a + 1\<rparr> else a)
             else Inr (toRead, out, a)))"

text \<open>A null pointer is \<open>None\<close>; the read reports the samples stored in the caller's array.\<close>

definition writeSamples :: "audio \<Rightarrow> sample list option \<Rightarrow> fault + (nat \<times> audio)" where
  "writeSamples a samples =
     (case samples of
        None \<Rightarrow> Inr (0, a)
      | Some xs \<Rightarrow> if \<not> auIsRunning a \<or> xs = [] then Inr (0, a) else write_locked a xs)"

definition readSamples :: "audio \<Rightarrow> bool \<Rightarrow> nat \<Rightarrow> fault + (nat \<times> sample list \<times> audio)" where
  "readSamples a out_ok maxCount =
     (if \<not> auIsRunning a \<or> \<not> out_ok \<or> maxCount = 0 then Inr (0, [], a) else read_locked a maxCount)"

section \<open>Chimes\<close>

definition f_pi :: "'f float_ops \<Rightarrow> 'f" where
  "f_pi D = fDec D 314159265358979323846 20"

text \<open>A sine of a frequency at a time.\<close>

definition tone :: "'f float_ops \<Rightarrow> 'f \<Rightarrow> 'f \<Rightarrow> 'f" where
  "tone D freq t = fSin D (fMul D (fMul D (fMul D (fDec D 2 0) (f_pi D)) freq) t)"

definition pcm_of :: "'f float_ops \<Rightarrow> 'f \<Rightarrow> int \<Rightarrow> fault + sample" where
  "pcm_of D signal gain = f_to_i16 D (f_clamp D (fMul D signal (fDec D gain 0)) (fDec D (- 32767) 0) (fDec D 32767 0))"

definition weighted :: "'f float_ops \<Rightarrow> 'f \<Rightarrow> 'f \<Rightarrow> 'f \<Rightarrow> 'f \<Rightarrow> 'f" where
  "weighted D a b c env =
     fMul D (fAdd D (fAdd D (fMul D a (fDec D 35 2)) (fMul D b (fDec D 30 2))) (fMul D c (fDec D 20 2))) env"

definition boot_chime_frame :: "'f float_ops \<Rightarrow> u32 \<Rightarrow> nat \<Rightarrow> fault + (sample \<times> sample)" where
  "boot_chime_frame D rate i =
     (let t = fDiv D (fInt D (int i)) (fInt D (uint rate));
          attack = f_min D (fDec D 1 0) (fDiv D t (fDec D 4 2));
          env = fMul D attack (fExp D (fDiv D (fNeg D t) (fDec D 35 2)));
          s1 = tone D (fDec D 52325 2) t; s2 = tone D (fDec D 65925 2) t; s3 = tone D (fDec D 78399 2) t;
          s4 = tone D (fDec D 98777 2) t; s5 = fMul D (tone D (fDec D 104650 2) t) (fDec D 5 1);
          shimmer = fAdd D (fDec D 1 0) (fMul D (fDec D 8 2) (tone D (fDec D 6 0) t));
          l = fMul D (weighted D s1 s3 s5 env) shimmer;
          r = fMul D (weighted D s2 s4 s5 env) shimmer
      in bnd (pcm_of D l 24000) (\<lambda>pcmL. bnd (pcm_of D r 24000) (\<lambda>pcmR. Inr (pcmL, pcmR))))"

definition ping_frame :: "'f float_ops \<Rightarrow> u32 \<Rightarrow> nat \<Rightarrow> fault + (sample \<times> sample)" where
  "ping_frame D rate i =
     (let t = fDiv D (fInt D (int i)) (fInt D (uint rate));
          env = fExp D (fDiv D (fNeg D t) (fDec D 12 2));
          freq = fAdd D (fDec D 440 0) (fMul D (fDec D 440 0)
                   (fSub D (fDec D 1 0) (fExp D (fDiv D (fNeg D t) (fDec D 8 2)))))
      in bnd (pcm_of D (fMul D (tone D freq t) env) 20000) (\<lambda>pcm. Inr (pcm, pcm)))"

text \<open>The frames of a chime one after the other, left before right.\<close>

definition chime_samples :: "'f float_ops \<Rightarrow> u32 \<Rightarrow> int \<Rightarrow> fault + sample list" where
  "chime_samples D rate type =
     bnd (f_to_size D (fMul D (fInt D (uint rate)) (if type = 1 then fDec D 12 1 else fDec D 45 2))) (\<lambda>numFrames.
       for_each [0..<numFrames] (\<lambda>i out.
         bnd (if type = 1 then boot_chime_frame D rate i else ping_frame D rate i) (\<lambda>(l, r). Inr (out @ [l, r]))) [])"

definition synthesizeChime :: "'f float_ops \<Rightarrow> audio \<Rightarrow> int \<Rightarrow> fault + (bool \<times> audio)" where
  "synthesizeChime D a type =
     (if \<not> auIsRunning a then Inr (False, a)
      else bnd (chime_samples D (auSampleRate a) type) (\<lambda>generated.
           bnd (writeSamples a (Some generated)) (\<lambda>(written, a). Inr (written > 0, a))))"

record AudioStats =
  asSampleRate :: u32
  asChannels :: u32
  asTotalWritten :: u64
  asTotalRead :: u64
  asUnderruns :: u64
  asFillBytes :: nat
  asCapacityBytes :: nat
  asIsRunning :: bool

definition audio_stats :: "audio \<Rightarrow> AudioStats" where
  "audio_stats a = \<lparr>asSampleRate = auSampleRate a, asChannels = auChannels a,
     asTotalWritten = auTotalWritten a, asTotalRead = auTotalRead a, asUnderruns = auUnderruns a,
     asFillBytes = auAvailable a * 2, asCapacityBytes = RING_BUFFER_SIZE * 2, asIsRunning = auIsRunning a\<rparr>"

definition audio_stats_string :: "audio \<Rightarrow> string" where
  "audio_stats_string a =
     ''Virtual Audio HAL: '' @ (if auIsRunning a then ''ONLINE'' else ''OFFLINE'')
     @ '' | '' @ dec (unat (auSampleRate a div 1000)) @ ''kHz Stereo 16-bit''
     @ '' | Buffer: '' @ fixed1 (auAvailable a * 100) RING_BUFFER_SIZE @ ''% (''
     @ dec (auAvailable a div unat (auChannels a)) @ ''/'' @ dec (RING_BUFFER_SIZE div unat (auChannels a))
     @ '' frames) | Out: '' @ dec (unat (auTotalRead a)) @ '' | In: '' @ dec (unat (auTotalWritten a))
     @ '' | Underruns: '' @ dec (unat (auUnderruns a))"

section \<open>The ring is a queue\<close>

text \<open>
  The samples waiting in the ring, oldest first, and the invariant of a running device: the write
  position follows the read position by the number of waiting samples, around the ring.
\<close>

definition ring_content :: "audio \<Rightarrow> sample list" where
  "ring_content a = map (\<lambda>i. auRing a ! ((auReadPos a + i) mod RING_BUFFER_SIZE)) [0..<auAvailable a]"

definition ring_ok :: "audio \<Rightarrow> bool" where
  "ring_ok a \<longleftrightarrow> length (auRing a) = RING_BUFFER_SIZE \<and> auReadPos a < RING_BUFFER_SIZE
     \<and> auAvailable a \<le> RING_BUFFER_SIZE \<and> auWritePos a = (auReadPos a + auAvailable a) mod RING_BUFFER_SIZE
     \<and> (auChannels a = 1 \<or> auChannels a = 2)"

lemma ring_size_pos [simp]: "0 < RING_BUFFER_SIZE"
  by (simp add: RING_BUFFER_SIZE_def)

lemma ring_content_length [simp]: "length (ring_content a) = auAvailable a"
  by (simp add: ring_content_def)

lemma mod_shift_neq:
  assumes "i < k" "k < (n :: nat)"
  shows "(r + i) mod n \<noteq> (r + k) mod n"
proof
  assume "(r + i) mod n = (r + k) mod n"
  then have "n dvd (r + k) - (r + i)"
    using assms(1) by (metis add_le_cancel_left less_imp_le mod_eq_dvd_iff_nat)
  then show False
    using assms by (simp add: nat_dvd_not_less)
qed

text \<open>One round of the write loop and of the read loop, with the counter brought along.\<close>

definition write_one :: "audio \<Rightarrow> sample \<Rightarrow> audio" where
  "write_one a x = a\<lparr>auRing := (auRing a)[auWritePos a := x],
     auWritePos := (auWritePos a + 1) mod RING_BUFFER_SIZE, auAvailable := auAvailable a + 1\<rparr>"

lemma write_one_ok:
  assumes "ring_ok a" "auAvailable a < RING_BUFFER_SIZE"
  shows "ring_ok (write_one a x)" and "ring_content (write_one a x) = ring_content a @ [x]"
proof -
  from assms have w: "auWritePos a = (auReadPos a + auAvailable a) mod RING_BUFFER_SIZE"
    by (simp add: ring_ok_def)
  show "ring_ok (write_one a x)"
    using assms by (simp add: ring_ok_def write_one_def mod_Suc_eq)
  have "auWritePos a \<noteq> (auReadPos a + i) mod RING_BUFFER_SIZE" if "i < auAvailable a" for i
    unfolding w using mod_shift_neq [OF that assms(2)] by metis
  moreover have "auWritePos a < length (auRing a)"
    using assms by (simp add: ring_ok_def)
  ultimately show "ring_content (write_one a x) = ring_content a @ [x]"
    by (auto simp: ring_content_def write_one_def w [symmetric])
qed

lemma write_loop_available:
  "write_loop xs (a\<lparr>auAvailable := k\<rparr>) =
     (case write_loop xs a of Inl e \<Rightarrow> Inl e | Inr d \<Rightarrow> Inr (d\<lparr>auAvailable := k\<rparr>))"
proof (induction xs arbitrary: a)
  case (Cons x xs)
  have eq: "a\<lparr>auAvailable := k, auRing := r, auWritePos := w\<rparr> = a\<lparr>auRing := r, auWritePos := w, auAvailable := k\<rparr>" for r w
    by (cases a) simp
  show ?case
    using Cons.IH [of "a\<lparr>auRing := (auRing a)[auWritePos a := x], auWritePos := (auWritePos a + 1) mod RING_BUFFER_SIZE\<rparr>"]
    by (simp add: eq)
qed simp

lemma write_loop_ring:
  "ring_ok a \<Longrightarrow> auAvailable a + length xs \<le> RING_BUFFER_SIZE \<Longrightarrow>
   \<exists>a'. write_loop xs a = Inr a' \<and> auAvailable a' = auAvailable a \<and> auChannels a' = auChannels a
     \<and> auIsRunning a' = auIsRunning a \<and> auTotalWritten a' = auTotalWritten a
     \<and> ring_ok (a'\<lparr>auAvailable := auAvailable a + length xs\<rparr>)
     \<and> ring_content (a'\<lparr>auAvailable := auAvailable a + length xs\<rparr>) = ring_content a @ xs"
proof (induction xs arbitrary: a)
  case (Cons x xs)
  let ?b = "write_one a x"
  have lt: "auAvailable a < RING_BUFFER_SIZE"
    using Cons.prems(2) by simp
  note b = write_one_ok [OF Cons.prems(1) lt, of x]
  obtain b' where IH: "write_loop xs ?b = Inr b'" "auAvailable b' = auAvailable ?b" "auChannels b' = auChannels ?b"
    "auIsRunning b' = auIsRunning ?b" "auTotalWritten b' = auTotalWritten ?b"
    "ring_ok (b'\<lparr>auAvailable := auAvailable ?b + length xs\<rparr>)"
    "ring_content (b'\<lparr>auAvailable := auAvailable ?b + length xs\<rparr>) = ring_content ?b @ xs"
    using Cons.IH [OF b(1)] Cons.prems(2) by (auto simp: write_one_def)
  have "auWritePos a < length (auRing a)"
    using Cons.prems(1) by (simp add: ring_ok_def)
  then have "write_loop (x # xs) a = write_loop xs (?b\<lparr>auAvailable := auAvailable a\<rparr>)"
    by (simp add: write_one_def)
  also have "\<dots> = Inr (b'\<lparr>auAvailable := auAvailable a\<rparr>)"
    unfolding write_loop_available IH(1) by simp
  finally show ?case
    using IH b(2) by (simp add: write_one_def)
qed simp

lemma read_loop_ring:
  "length (auRing a) = RING_BUFFER_SIZE \<Longrightarrow> auReadPos a < RING_BUFFER_SIZE \<Longrightarrow>
   read_loop n a = Inr (map (\<lambda>i. auRing a ! ((auReadPos a + i) mod RING_BUFFER_SIZE)) [0..<n],
     a\<lparr>auReadPos := (auReadPos a + n) mod RING_BUFFER_SIZE\<rparr>)"
proof (induction n arbitrary: a)
  case (Suc n)
  let ?b = "a\<lparr>auReadPos := (auReadPos a + 1) mod RING_BUFFER_SIZE\<rparr>"
  have "[0..<Suc n] = 0 # map Suc [0..<n]"
    by (simp add: map_Suc_upt upt_conv_Cons del: upt_Suc)
  moreover have "(Suc (auReadPos a) mod RING_BUFFER_SIZE + i) mod RING_BUFFER_SIZE = (auReadPos a + Suc i) mod RING_BUFFER_SIZE" for i
    by (simp add: mod_add_left_eq)
  ultimately show ?case
    using Suc.IH [of ?b] Suc.prems by (simp add: comp_def del: upt_Suc)
qed simp

abbreviation audio_ok :: "audio \<Rightarrow> bool" where
  "audio_ok a \<equiv> ring_ok a \<and> auIsRunning a"

lemma write_ring:
  assumes "audio_ok a" and n_def: "n = min (length xs) (RING_BUFFER_SIZE - auAvailable a)"
  shows "\<exists>a'. writeSamples a (Some xs) = Inr (n, a') \<and> audio_ok a' \<and> ring_content a' = ring_content a @ take n xs"
proof (cases "xs = []")
  case True
  then show ?thesis
    using assms by (simp add: writeSamples_def)
next
  case False
  have n: "length (take n xs) = n" "auAvailable a + n \<le> RING_BUFFER_SIZE"
    using assms(1) by (auto simp: n_def ring_ok_def min_def)
  obtain b where b: "write_loop (take n xs) a = Inr b" "auAvailable b = auAvailable a" "auChannels b = auChannels a"
    "auIsRunning b = auIsRunning a" "ring_ok (b\<lparr>auAvailable := auAvailable a + n\<rparr>)"
    "ring_content (b\<lparr>auAvailable := auAvailable a + n\<rparr>) = ring_content a @ take n xs"
    using write_loop_ring [of a "take n xs"] assms(1) n by auto
  have "auChannels b \<noteq> 0"
    using b(3) assms(1) by (auto simp: ring_ok_def)
  then have w: "writeSamples a (Some xs) = Inr (n, b\<lparr>auAvailable := auAvailable a + n,
      auTotalWritten := auTotalWritten b + word_of_nat (n div unat (auChannels b))\<rparr>)"
    using False assms(1) b(1,2) by (simp add: writeSamples_def write_locked_def Let_def flip: n_def)
  show ?thesis
    unfolding w using b(4-6) assms(1) by (simp add: ring_ok_def ring_content_def)
qed

lemma read_ring:
  assumes "audio_ok a"
  shows "\<exists>n out a'. readSamples a True k = Inr (n, out, a') \<and> audio_ok a' \<and> take n out = take k (ring_content a)
    \<and> ring_content a' = drop k (ring_content a)"
proof (cases "k = 0")
  case True
  then show ?thesis using assms by (simp add: readSamples_def)
next
  case False
  define n where "n = min k (auAvailable a)"
  define out where "out = map (\<lambda>i. auRing a ! ((auReadPos a + i) mod RING_BUFFER_SIZE)) [0..<n]"
  define b where "b = a\<lparr>auReadPos := (auReadPos a + n) mod RING_BUFFER_SIZE\<rparr>"
  define c where "c = b\<lparr>auAvailable := auAvailable a - n,
    auTotalRead := auTotalRead b + word_of_nat (n div unat (auChannels a))\<rparr>"
  have rl: "read_loop n a = Inr (out, b)"
    using read_loop_ring [of a n] assms by (simp add: out_def b_def ring_ok_def)
  have out: "out = take k (ring_content a)"
    by (auto simp: out_def n_def ring_content_def take_map min_def)
  have "auAvailable a \<le> RING_BUFFER_SIZE" "n \<le> auAvailable a"
    using assms by (simp_all add: ring_ok_def n_def)
  moreover from \<open>n \<le> auAvailable a\<close> obtain m where "auAvailable a = n + m"
    using le_Suc_ex by blast
  then have "((auReadPos a + n) mod RING_BUFFER_SIZE + auAvailable a - n) mod RING_BUFFER_SIZE
      = (auReadPos a + auAvailable a) mod RING_BUFFER_SIZE"
    by (simp add: mod_simps add_ac)
  ultimately have ok: "audio_ok (c\<lparr>auUnderruns := u\<rparr>)" "audio_ok c" for u
    using assms by (auto simp: c_def b_def ring_ok_def)
  have "map (\<lambda>i. auRing a ! (((auReadPos a + n) mod RING_BUFFER_SIZE + i) mod RING_BUFFER_SIZE)) [0..<auAvailable a - n]
      = drop n (ring_content a)"
    by (rule nth_equalityI) (simp_all add: ring_content_def mod_simps add_ac less_diff_conv)
  moreover have "drop n (ring_content a) = drop k (ring_content a)"
    by (simp add: n_def min_def)
  ultimately have content: "ring_content (c\<lparr>auUnderruns := u\<rparr>) = drop k (ring_content a)"
    "ring_content c = drop k (ring_content a)" for u
    unfolding ring_content_def [of c] ring_content_def [of "c\<lparr>auUnderruns := u\<rparr>"]
    by (simp_all add: c_def b_def)
  have "auChannels a \<noteq> 0"
    using assms by (auto simp: ring_ok_def)
  then have r: "readSamples a True k =
      Inr (n, (if n < k then out @ replicate (k - n) 0 else out),
        if n < k \<and> n = 0 then c\<lparr>auUnderruns := auUnderruns c + 1\<rparr> else c)"
    using False assms rl by (auto simp: readSamples_def read_locked_def Let_def c_def b_def simp flip: n_def)
  have "length out = n" by (simp add: out_def)
  then have "take n (if n < k then out @ replicate (k - n) 0 else out) = out"
    by simp
  also note out
  finally show ?thesis
    unfolding r using ok content by (cases "n < k \<and> n = 0") simp_all
qed

text \<open>The two calls, as the queue's push and pop.\<close>

definition ring_push :: "audio \<Rightarrow> sample list \<Rightarrow> nat \<times> audio" where
  "ring_push a xs = (case writeSamples a (Some xs) of Inr r \<Rightarrow> r | Inl e \<Rightarrow> (0, a))"

definition ring_pop :: "audio \<Rightarrow> nat \<Rightarrow> sample list \<times> audio" where
  "ring_pop a k = (case readSamples a True k of Inr (n, out, a') \<Rightarrow> (take n out, a') | Inl e \<Rightarrow> ([], a))"

lemma ring_push_spec:
  assumes "audio_ok a"
  shows "audio_ok (snd (ring_push a xs))"
    and "fst (ring_push a xs) = min (length xs) (RING_BUFFER_SIZE - length (ring_content a))"
    and "ring_content (snd (ring_push a xs)) = ring_content a @ take (fst (ring_push a xs)) xs"
  using write_ring [OF assms refl, of xs] by (auto simp: ring_push_def)

lemma ring_pop_spec:
  assumes "audio_ok a"
  shows "audio_ok (snd (ring_pop a k))" and "fst (ring_pop a k) = take k (ring_content a)"
    and "ring_content (snd (ring_pop a k)) = drop k (ring_content a)"
  using read_ring [OF assms, of k] by (auto simp: ring_pop_def)

interpretation ring: fifo audio_ok ring_content RING_BUFFER_SIZE ring_push ring_pop
  by unfold_locales (use ring_push_spec ring_pop_spec in \<open>auto simp: ring_ok_def\<close>)

text \<open>A run of the two ends over the code's own functions, faults included.\<close>

fun audio_run :: "audio \<Rightarrow> sample queue_op list \<Rightarrow> fault + (sample list \<times> sample list \<times> audio)" where
  "audio_run a [] = Inr ([], [], a)"
| "audio_run a (Push xs # ops) =
     bnd (writeSamples a (Some xs)) (\<lambda>(n, a). bnd (audio_run a ops) (\<lambda>(acc, out, a).
       Inr (take n xs @ acc, out, a)))"
| "audio_run a (Pop k # ops) =
     bnd (readSamples a True k) (\<lambda>(n, got, a). bnd (audio_run a ops) (\<lambda>(acc, out, a).
       Inr (acc, take n got @ out, a)))"

lemma audio_run_ring: "audio_ok a \<Longrightarrow> audio_run a ops = Inr (ring.run a ops)"
proof (induction ops arbitrary: a)
  case (Cons op ops)
  show ?case
  proof (cases op)
    case (Push xs)
    obtain n b where w: "writeSamples a (Some xs) = Inr (n, b)" "audio_ok b"
      using write_ring [OF Cons.prems refl, of xs] by blast
    then have "ring_push a xs = (n, b)"
      by (simp add: ring_push_def)
    then show ?thesis
      using Push w Cons.IH [OF w(2)] by (simp split: prod.splits)
  next
    case (Pop k)
    obtain n got b where r: "readSamples a True k = Inr (n, got, b)" "audio_ok b"
      using read_ring [OF Cons.prems, of k] by blast
    then have "ring_pop a k = (take n got, b)"
      by (simp add: ring_pop_def)
    then show ?thesis
      using Pop r Cons.IH [OF r(2)] by (simp split: prod.splits)
  qed
qed simp

lemma initialize_audio_ok:
  "audio_ok (fst (initialize_audio a h dir rate channels)) \<and> ring_content (fst (initialize_audio a h dir rate channels)) = []"
  by (simp add: initialize_audio_def ring_ok_def ring_content_def Let_def)

text \<open>C26: Whatever the guest writes and the player reads after the device was initialized, the ring never
  faults and is a queue: what was read followed by what still waits is exactly what the writes
  accepted, in order, and never more than 65536 samples wait.\<close>

theorem audio_ring_fifo:
  "\<exists>acc out a'. audio_run (fst (initialize_audio a h dir rate channels)) ops = Inr (acc, out, a')
     \<and> out @ ring_content a' = acc \<and> length (ring_content a') \<le> 65536 \<and> audio_ok a'"
proof -
  let ?a = "fst (initialize_audio a h dir rate channels)"
  obtain acc out a' where r: "ring.run ?a ops = (acc, out, a')"
    by (cases "ring.run ?a ops")
  have "audio_ok a' \<and> out @ ring_content a' = acc"
    using ring.run_fifo [OF _ r] initialize_audio_ok [of a h dir rate channels] by simp
  then show ?thesis
    using r audio_run_ring [of ?a ops] initialize_audio_ok [of a h dir rate channels] ring.bounded [of a']
    by (simp add: RING_BUFFER_SIZE_def)
qed

text \<open>The check of the running flag is outside the mutex: when a shutdown comes between the check and
  the lock, the body of a write of any samples stores into the emptied ring, outside its bounds,
  although a write that starts after the shutdown is refused.\<close>

lemma audio_write_races_shutdown:
  assumes "xs \<noteq> []"
  shows "write_locked (shutdown_audio a) xs = Inl OutOfBounds
    \<and> writeSamples (shutdown_audio a) (Some xs) = Inr (0, shutdown_audio a)"
  using assms
  by (cases xs) (simp_all add: write_locked_def writeSamples_def shutdown_audio_def RING_BUFFER_SIZE_def Let_def min_def)

lemma audio_write_races_shutdown_witness:
  "write_locked (shutdown_audio audio_new) [1] = Inl OutOfBounds"
  using audio_write_races_shutdown [of "[1]" audio_new] by simp

section \<open>A chime in the ring\<close>

lemma chime_samples_length:
  assumes "chime_samples D rate type = Inr xs"
  shows "\<exists>n. f_to_size D (fMul D (fInt D (uint rate)) (if type = 1 then fDec D 12 1 else fDec D 45 2)) = Inr n \<and> length xs = 2 * n"
proof -
  let ?body = "\<lambda>i out. bnd (if type = 1 then boot_chime_frame D rate i else ping_frame D rate i) (\<lambda>(l, r). Inr (out @ [l, r]))"
  have "for_each js ?body ys = Inr zs \<Longrightarrow> length zs = length ys + 2 * length js" for js ys zs
    by (induction js arbitrary: ys) (auto simp: bnd_Inr_iff split: prod.splits)
  then show ?thesis
    using assms by (auto simp: chime_samples_def bnd_Inr_iff)
qed

text \<open>
  Of a chime the ring takes what it has room for. The boot chime has 57600 frames at 48000 Hz, 115200
  samples: with nobody reading, the samples from 65536 on are lost, and the call still reports success.
\<close>

lemma chime_truncated:
  assumes "audio_ok a" "chime_samples D (auSampleRate a) type = Inr xs" "length xs > RING_BUFFER_SIZE"
    and "ring_content a = []"
  shows "\<exists>a'. synthesizeChime D a type = Inr (True, a') \<and> audio_ok a' \<and> ring_content a' = take RING_BUFFER_SIZE xs"
proof -
  have "auAvailable a = 0"
    using assms(4) by (simp add: ring_content_def)
  then show ?thesis
    using write_ring [OF assms(1) refl, of xs] assms by (auto simp: synthesizeChime_def min_def)
qed

end
