(* ===== verification/Bridge_Common.thy ===== *)
theory Bridge_Common
  imports Property_Service "HOL-Library.Sublist"
begin

text \<open>
  What the hardware bridges share: they publish their state as system properties through the property
  service, they create directories one path component after the other, and they write small files
  into the sandbox. \<open>sys\<close> is the property service with the host files.
\<close>

type_synonym sys = "prop_service \<times> host"

definition set_props :: "(string \<times> string) list \<Rightarrow> sys \<Rightarrow> sys" where
  "set_props kvs sys = foldl (\<lambda>(s, h) (k, v). setProperty s h k v) sys kvs"

text \<open>\<^verbatim>\<open>mkdir\<close>, whose failure the bridges ignore.\<close>

definition sys_mkdir :: "string \<Rightarrow> nat \<Rightarrow> sys \<Rightarrow> sys" where
  "sys_mkdir p mode sys = (fst sys, fst (host_mkdir (snd sys) p mode))"

text \<open>Open with \<^verbatim>\<open>O_CREAT | O_TRUNC\<close> and write; the flag tells whether it opened.\<close>

definition sys_write :: "string \<Rightarrow> nat \<Rightarrow> string \<Rightarrow> sys \<Rightarrow> bool \<times> sys" where
  "sys_write p mode content sys =
     (case host_write (snd sys) p mode content of (h, ok) \<Rightarrow> (ok, (fst sys, h)))"

text \<open>Open with \<^verbatim>\<open>O_CREAT\<close> only and write at the start: the rest of an older content stays.\<close>

definition sys_overwrite :: "string \<Rightarrow> nat \<Rightarrow> string \<Rightarrow> sys \<Rightarrow> sys" where
  "sys_overwrite p mode content sys =
     snd (sys_write p mode
       (case file_content (snd sys) p of Some old \<Rightarrow> content @ drop (length content) old | None \<Rightarrow> content) sys)"

text \<open>A series of small files, as the bridges write their nodes.\<close>

definition write_files :: "nat \<Rightarrow> (string \<times> string) list \<Rightarrow> sys \<Rightarrow> sys" where
  "write_files mode fs sys = foldl (\<lambda>sys (p, c). snd (sys_write p mode c sys)) sys fs"

definition flag_text :: "bool \<Rightarrow> string" where
  "flag_text b = (if b then ''1'' else ''0'')"

definition true_text :: "bool \<Rightarrow> string" where
  "true_text b = (if b then ''true'' else ''false'')"

text \<open>
  A listener on a Unix socket: the calls before its loop, with the results of \<^verbatim>\<open>socket\<close>
  and \<^verbatim>\<open>bind\<close> as parameters; the flag tells whether the loop starts.
\<close>

definition open_listener :: "bool \<Rightarrow> bool \<Rightarrow> string \<Rightarrow> host \<Rightarrow> bool \<times> host" where
  "open_listener socket_ok bind_ok p h =
     (let h = host_unlink h p in
      if \<not> socket_ok then (False, h)
      else if \<not> bind_ok then (False, h)
      else (True, host_chmod (bind_node h p) p 438))"

text \<open>
  The recursive directory makers walk over the characters of the path and create what they have so
  far at each separator and at the end; \<open>skip_root\<close> tells that \<^verbatim>\<open>/\<close> itself is left
  out. The system takes a path that ends in separators for the path without them.
\<close>

definition norm_dir :: "string \<Rightarrow> string" where
  "norm_dir p = (let q = rev (dropWhile (\<lambda>c. c = CHR ''/'') (rev p)) in if q = [] then take 1 p else q)"

definition mkdir_prefixes :: "bool \<Rightarrow> string \<Rightarrow> string list" where
  "mkdir_prefixes skip_root p =
     map norm_dir
       (filter (\<lambda>q. \<not> (skip_root \<and> q = ''/''))
         (map (\<lambda>i. take (Suc i) p)
           (filter (\<lambda>i. p ! i = CHR ''/'' \<or> i = length p - 1) [0..<length p])))"

definition make_dirs :: "bool \<Rightarrow> nat \<Rightarrow> string \<Rightarrow> sys \<Rightarrow> sys" where
  "make_dirs skip_root mode p sys = foldl (\<lambda>sys q. sys_mkdir q mode sys) sys (mkdir_prefixes skip_root p)"

section \<open>Published properties\<close>

lemma set_props_simps [simp]:
  "set_props [] sys = sys"
  "set_props ((k, v) # kvs) sys = set_props kvs (setProperty (fst sys) (snd sys) k v)"
  by (simp_all add: set_props_def case_prod_beta)

lemma set_props_Cons:
  "set_props (kv # kvs) sys = set_props kvs (setProperty (fst sys) (snd sys) (fst kv) (snd kv))"
  by (cases kv) simp

lemma set_props_append: "set_props (xs @ ys) sys = set_props ys (set_props xs sys)"
  by (simp add: set_props_def)

lemma setProperty_look: "find_prop (fst (setProperty s h k v)) q = (if q = k then Some v else find_prop s q)"
  by (simp add: setProperty_def Let_def ps.look_put)

lemma set_props_look:
  "find_prop (fst (set_props kvs sys)) q =
     (case map_of (rev kvs) q of Some v \<Rightarrow> Some v | None \<Rightarrow> find_prop (fst sys) q)"
proof (induction kvs arbitrary: sys)
  case (Cons kv kvs)
  obtain k v where kv: "kv = (k, v)" by (cases kv)
  have "(map_of (rev kvs @ [(k, v)])) q = (case map_of (rev kvs) q of None \<Rightarrow> if q = k then Some v else None | Some w \<Rightarrow> Some w)"
    by (simp add: map_of_append map_add_def split: option.splits)
  then show ?case
    unfolding kv set_props_simps(2) Cons.IH setProperty_look
    by (simp split: option.splits)
qed simp

lemma sys_files_look [simp]:
  "fst (sys_mkdir p m sys) = fst sys" "fst (snd (sys_write p m c sys)) = fst sys"
  "fst (sys_overwrite p m c sys) = fst sys"
  by (simp_all add: sys_mkdir_def sys_write_def sys_overwrite_def split: prod.splits)

lemma make_dirs_look [simp]: "fst (make_dirs b m p sys) = fst sys"
proof -
  have "fst (foldl (\<lambda>sys q. sys_mkdir q m sys) sys qs) = fst sys" for qs
    by (induction qs arbitrary: sys) simp_all
  then show ?thesis by (simp add: make_dirs_def)
qed

lemma write_files_simps [simp]:
  "write_files m [] sys = sys"
  "write_files m ((p, c) # fs) sys = write_files m fs (snd (sys_write p m c sys))"
  by (simp_all add: write_files_def)

lemma write_files_Cons:
  "write_files m (f # fs) sys = write_files m fs (snd (sys_write (fst f) m (snd f) sys))"
  by (cases f) simp

lemma write_files_look [simp]: "fst (write_files m fs sys) = fst sys"
  by (induction fs arbitrary: sys) (simp_all add: write_files_Cons)

lemma sys_write_host: "snd (snd (sys_write p m c sys)) = fst (host_write (snd sys) p m c)"
  by (simp add: sys_write_def split: prod.splits)

lemma write_files_writable [simp]: "writable (snd (write_files m fs sys)) q = writable (snd sys) q"
  by (induction fs arbitrary: sys) (simp_all add: write_files_Cons sys_write_host)

lemma file_content_host_write:
  "writable h p \<Longrightarrow> file_content (fst (host_write h p m c)) q = (if q = p then Some c else file_content h q)"
  using host_write_ok [of h p m c] host_write_other [of q p h m c] by (auto simp: file_content_def)

text \<open>After a series of writes to writable paths each file holds the content written last.\<close>

lemma write_files_content:
  "\<forall>p \<in> fst ` set fs. writable (snd sys) p \<Longrightarrow>
   file_content (snd (write_files m fs sys)) q =
     (case map_of (rev fs) q of Some c \<Rightarrow> Some c | None \<Rightarrow> file_content (snd sys) q)"
proof (induction fs arbitrary: sys)
  case (Cons f fs)
  obtain p c where f: "f = (p, c)" by (cases f)
  have "(map_of (rev fs @ [(p, c)])) q =
      (case map_of (rev fs) q of None \<Rightarrow> if q = p then Some c else None | Some w \<Rightarrow> Some w)"
    by (simp add: map_of_append map_add_def split: option.splits)
  moreover have "writable (snd sys) p" using Cons.prems f by simp
  moreover have "file_content (snd (write_files m fs (snd (sys_write p m c sys)))) q =
     (case map_of (rev fs) q of Some c \<Rightarrow> Some c | None \<Rightarrow> file_content (snd (snd (sys_write p m c sys))) q)"
    using Cons.prems f by (intro Cons.IH) (auto simp: sys_write_host)
  ultimately show ?case
    by (simp add: f sys_write_host file_content_host_write split: option.splits)
qed simp

text \<open>Setting properties touches one file only, the mirror of the table.\<close>

lemma setProperty_host:
  "q \<noteq> psPropertiesFilePath s \<Longrightarrow> hNodes (snd (setProperty s h k v)) q = hNodes h q"
  "writable (snd (setProperty s h k v)) q = writable h q"
  "psPropertiesFilePath (fst (setProperty s h k v)) = psPropertiesFilePath s"
  by (simp_all add: setProperty_def Let_def flushPropertiesToFile_def host_write_other)

lemma set_props_host:
  "q \<noteq> psPropertiesFilePath (fst sys) \<Longrightarrow> hNodes (snd (set_props kvs sys)) q = hNodes (snd sys) q"
  "writable (snd (set_props kvs sys)) q = writable (snd sys) q"
  "psPropertiesFilePath (fst (set_props kvs sys)) = psPropertiesFilePath (fst sys)"
  by (induction kvs arbitrary: sys) (simp_all add: set_props_Cons setProperty_host)

lemma set_props_content:
  "q \<noteq> psPropertiesFilePath (fst sys) \<Longrightarrow> file_content (snd (set_props kvs sys)) q = file_content (snd sys) q"
  by (simp add: file_content_def set_props_host)

text \<open>The files a bridge has written before it publishes are there afterwards.\<close>

lemma published_files:
  assumes "distinct (map fst fs)" "(p, c) \<in> set fs"
    and "\<forall>q \<in> fst ` set fs. writable (snd sys) q \<and> q \<noteq> psPropertiesFilePath (fst sys)"
  shows "file_content (snd (set_props kvs (write_files m fs sys))) p = Some c"
proof -
  have "p \<in> fst ` set fs"
    using assms(2) by (rule image_eqI [rotated]) simp
  then have "p \<noteq> psPropertiesFilePath (fst (write_files m fs sys))"
    unfolding write_files_look using assms(3) by blast
  moreover have "map_of (rev fs) p = Some c"
    using assms(1,2) by (intro map_of_is_SomeI) (simp_all add: rev_map [symmetric])
  moreover have "\<forall>q \<in> fst ` set fs. writable (snd sys) q"
    using assms(3) by blast
  ultimately show ?thesis
    by (simp add: set_props_content write_files_content)
qed

text \<open>Making directories touches prefixes of the path only.\<close>

lemma mkdir_prefixes_prefix: "q \<in> set (mkdir_prefixes b p) \<Longrightarrow> prefix q p"
proof -
  have n: "prefix (norm_dir p) p" for p
  proof -
    define q where "q = rev (dropWhile (\<lambda>c. c = CHR ''/'') (rev p))"
    have "rev (rev p) = q @ rev (takeWhile (\<lambda>c. c = CHR ''/'') (rev p))"
      unfolding q_def rev_append [symmetric] takeWhile_dropWhile_id ..
    then have "prefix q p"
      by (metis prefixI rev_rev_ident)
    moreover have "norm_dir p = (if q = [] then take 1 p else q)"
      by (simp add: norm_dir_def Let_def q_def)
    ultimately show ?thesis
      by (simp add: take_is_prefix)
  qed
  assume "q \<in> set (mkdir_prefixes b p)"
  then obtain i where "q = norm_dir (take (Suc i) p)"
    by (auto simp: mkdir_prefixes_def)
  then show "prefix q p"
    using n [of "take (Suc i) p"] take_is_prefix [of "Suc i" p] by (metis prefix_order.order_trans)
qed

lemma sys_mkdir_writable: "q \<noteq> p \<Longrightarrow> writable (snd (sys_mkdir p m sys)) q = writable (snd sys) q"
  by (simp add: sys_mkdir_def host_mkdir_def writable_def)

lemma make_dirs_writable:
  assumes "\<not> prefix q p"
  shows "writable (snd (make_dirs b m p sys)) q = writable (snd sys) q"
proof -
  have "writable (snd (foldl (\<lambda>sys q. sys_mkdir q m sys) sys ps)) q = writable (snd sys) q" if "q \<notin> set ps" for ps
    using that by (induction ps arbitrary: sys) (simp_all add: sys_mkdir_writable)
  then show ?thesis
    using assms mkdir_prefixes_prefix by (auto simp: make_dirs_def)
qed

text \<open>
  A bridge publishes a view of its state: the last publication decides, whatever was published or set
  before, and keys outside the view keep their value.
\<close>

locale publisher =
  fixes view :: "'s \<Rightarrow> (string \<times> string) list"
  assumes keys_once: "distinct (map fst (view s))"
begin

lemma view_look:
  "find_prop (fst (set_props (view s) sys)) q =
     (case map_of (view s) q of Some v \<Rightarrow> Some v | None \<Rightarrow> find_prop (fst sys) q)"
proof -
  have "map_of (rev (view s)) = map_of (view s)"
    using keys_once [of s] by (intro map_of_eqI) (auto simp: map_of_eq_Some_iff rev_map [symmetric] intro: ext)
  then show ?thesis by (simp add: set_props_look)
qed

lemma published: "(k, v) \<in> set (view s) \<Longrightarrow> find_prop (fst (set_props (view s) sys)) k = Some v"
  using keys_once [of s] by (simp add: view_look)

lemma unpublished: "k \<notin> fst ` set (view s) \<Longrightarrow> find_prop (fst (set_props (view s) sys)) k = find_prop (fst sys) k"
  by (simp add: view_look map_of_eq_None_iff [THEN iffD2])

end

end
