(* ===== verification/Battery_Bridge.thy ===== *)
theory Battery_Bridge
  imports Bridge_Common
begin

text \<open>
  The virtual battery of \<^verbatim>\<open>battery_bridge.cpp\<close>: the state a client sets, and the nodes of
  \<^verbatim>\<open>/sys/class/power_supply\<close> and the properties that mirror it. A \<^verbatim>\<open>int\<close> is an
  integer; the products that leave its range are a fault. The printed quotient of two integers in
  single precision is a parameter of the statistics.
\<close>

record BatteryInfo =
  biCapacity :: int
  biStatus :: string
  biHealth :: string
  biPresent :: bool
  biTechnology :: string
  biVoltageMv :: int
  biCurrentMa :: int
  biTempTenthsC :: int
  biPluggedAc :: bool
  biPluggedUsb :: bool

definition battery_default :: BatteryInfo where
  "battery_default = \<lparr>biCapacity = 100, biStatus = ''Charging'', biHealth = ''Good'', biPresent = True,
     biTechnology = ''Li-poly'', biVoltageMv = 4200, biCurrentMa = 500, biTempTenthsC = 300,
     biPluggedAc = True, biPluggedUsb = False\<rparr>"

record battery =
  baSandboxDir :: string
  baBatteryDir :: string
  baAcDir :: string
  baUsbDir :: string
  baInitialized :: bool
  baInfo :: BatteryInfo

definition battery_new :: battery where
  "battery_new = \<lparr>baSandboxDir = [], baBatteryDir = [], baAcDir = [], baUsbDir = [],
     baInitialized = False, baInfo = battery_default\<rparr>"

section \<open>The nodes\<close>

definition battery_uevent :: "BatteryInfo \<Rightarrow> int \<Rightarrow> int \<Rightarrow> string" where
  "battery_uevent i uV uA =
     oline ''POWER_SUPPLY_NAME=battery''
     @ oline (''POWER_SUPPLY_STATUS='' @ biStatus i)
     @ oline (''POWER_SUPPLY_HEALTH='' @ biHealth i)
     @ oline (''POWER_SUPPLY_PRESENT='' @ flag_text (biPresent i))
     @ oline (''POWER_SUPPLY_TECHNOLOGY='' @ biTechnology i)
     @ oline (''POWER_SUPPLY_CAPACITY='' @ dec_int (biCapacity i))
     @ oline (''POWER_SUPPLY_VOLTAGE_NOW='' @ dec_int uV)
     @ oline (''POWER_SUPPLY_CURRENT_NOW='' @ dec_int uA)
     @ oline (''POWER_SUPPLY_TEMP='' @ dec_int (biTempTenthsC i))"

definition charger_files :: "string \<Rightarrow> string \<Rightarrow> string \<Rightarrow> bool \<Rightarrow> (string \<times> string) list" where
  "charger_files dir name typ online =
     [(dir @ ''/online'', oline (flag_text online)),
      (dir @ ''/type'', oline typ),
      (dir @ ''/uevent'', oline (''POWER_SUPPLY_NAME='' @ name) @ oline (''POWER_SUPPLY_TYPE='' @ typ)
         @ oline (''POWER_SUPPLY_ONLINE='' @ flag_text online))]"

definition battery_files :: "battery \<Rightarrow> int \<Rightarrow> int \<Rightarrow> (string \<times> string) list" where
  "battery_files b uV uA =
     (let i = baInfo b; d = baBatteryDir b in
      [(d @ ''/capacity'', oline (dec_int (biCapacity i))),
       (d @ ''/status'', oline (biStatus i)),
       (d @ ''/health'', oline (biHealth i)),
       (d @ ''/present'', oline (flag_text (biPresent i))),
       (d @ ''/technology'', oline (biTechnology i)),
       (d @ ''/voltage_now'', oline (dec_int uV)),
       (d @ ''/current_now'', oline (dec_int uA)),
       (d @ ''/temp'', oline (dec_int (biTempTenthsC i))),
       (d @ ''/uevent'', battery_uevent i uV uA)]
      @ charger_files (baAcDir b) ''ac'' ''Mains'' (biPluggedAc i)
      @ charger_files (baUsbDir b) ''usb'' ''USB'' (biPluggedUsb i))"

definition battery_view :: "battery \<Rightarrow> (string \<times> string) list" where
  "battery_view b =
     [(''persist.sys.battery.level'', dec_int (biCapacity (baInfo b))),
      (''persist.sys.battery.status'', biStatus (baInfo b)),
      (''hw.ac'', flag_text (biPluggedAc (baInfo b)))]"

definition writeSysfsFile :: "string \<Rightarrow> string \<Rightarrow> sys \<Rightarrow> bool \<times> sys" where
  "writeSysfsFile p content sys = sys_write p 438 content sys"

definition syncToSysfs :: "battery \<Rightarrow> sys \<Rightarrow> fault + sys" where
  "syncToSysfs b sys =
     (if \<not> baInitialized b then Inr sys
      else
        bnd (int_mul (biVoltageMv (baInfo b)) 1000) (\<lambda>uV.
        bnd (int_mul (biCurrentMa (baInfo b)) 1000) (\<lambda>uA.
          Inr (set_props (battery_view b)
            (foldl (\<lambda>sys (p, c). snd (writeSysfsFile p c sys)) sys (battery_files b uV uA))))))"

section \<open>The operations\<close>

definition initialize_battery :: "battery \<Rightarrow> sys \<Rightarrow> string \<Rightarrow> fault + (bool \<times> battery \<times> sys)" where
  "initialize_battery b sys dir =
     (let d = dir @ ''/sys/class/power_supply/battery''; ac = dir @ ''/sys/class/power_supply/ac'';
          usb = dir @ ''/sys/class/power_supply/usb'';
          sys = make_dirs True 511 usb (make_dirs True 511 ac (make_dirs True 511 d sys));
          b = b\<lparr>baSandboxDir := dir, baBatteryDir := d, baAcDir := ac, baUsbDir := usb,
                baInitialized := True, baInfo := battery_default\<rparr>
      in bnd (syncToSysfs b sys) (\<lambda>sys. Inr (True, b, sys)))"

definition shutdown_battery :: "battery \<Rightarrow> battery" where
  "shutdown_battery b = b\<lparr>baInitialized := False\<rparr>"

definition set_info :: "int \<Rightarrow> string \<Rightarrow> string \<Rightarrow> int \<Rightarrow> int \<Rightarrow> bool \<Rightarrow> bool \<Rightarrow> BatteryInfo \<Rightarrow> BatteryInfo" where
  "set_info capacity status health voltageMv tempTenthsC ac usb i =
     i\<lparr>biCapacity := (if capacity < 0 then 0 else if capacity > 100 then 100 else capacity),
       biStatus := (if status \<noteq> [] then status else biStatus i),
       biHealth := (if health \<noteq> [] then health else biHealth i),
       biVoltageMv := (if voltageMv > 0 then voltageMv else biVoltageMv i),
       biTempTenthsC := (if tempTenthsC > 0 then tempTenthsC else biTempTenthsC i),
       biPluggedAc := ac, biPluggedUsb := usb\<rparr>"

definition updateBattery ::
  "battery \<Rightarrow> sys \<Rightarrow> int \<Rightarrow> string \<Rightarrow> string \<Rightarrow> int \<Rightarrow> int \<Rightarrow> bool \<Rightarrow> bool \<Rightarrow> fault + (bool \<times> battery \<times> sys)" where
  "updateBattery b sys capacity status health voltageMv tempTenthsC ac usb =
     (if \<not> baInitialized b then Inr (False, b, sys)
      else
        let b = b\<lparr>baInfo := set_info capacity status health voltageMv tempTenthsC ac usb (baInfo b)\<rparr>
        in bnd (syncToSysfs b sys) (\<lambda>sys. Inr (True, b, sys)))"

definition getBatteryInfo :: "battery \<Rightarrow> BatteryInfo" where
  "getBatteryInfo b = baInfo b"

definition plug_text :: "bool \<Rightarrow> string" where
  "plug_text b = (if b then ''CONNECTED'' else ''DISCONNECTED'')"

definition getBatteryStatsString :: "(int \<Rightarrow> int \<Rightarrow> string) \<Rightarrow> battery \<Rightarrow> string" where
  "getBatteryStatsString float_quot b =
     (let i = baInfo b in
      oline ''=== VIRTUAL BATTERY & POWER SUPPLY SUBSYSTEM ===''
      @ oline (''Capacity     : '' @ dec_int (biCapacity i) @ ''%'')
      @ oline (''Status       : '' @ biStatus i)
      @ oline (''Health       : '' @ biHealth i)
      @ oline (''Voltage      : '' @ dec_int (biVoltageMv i) @ '' mV ('' @ float_quot (biVoltageMv i) 1000 @ '' V)'')
      @ oline (''Temperature  : '' @ float_quot (biTempTenthsC i) 10 @ '' '' @ [CHR 0xC2, CHR 0xB0] @ ''C'')
      @ oline (''Technology   : '' @ biTechnology i)
      @ oline (''Charger AC   : '' @ plug_text (biPluggedAc i))
      @ oline (''Charger USB  : '' @ plug_text (biPluggedUsb i))
      @ oline (''Sysfs Path   : '' @ baBatteryDir b)
      @ ''================================================='')"

section \<open>The nodes and the properties agree with the state\<close>

interpretation battery: publisher battery_view
  by unfold_locales (simp add: battery_view_def)

lemma writeSysfs_files: "foldl (\<lambda>sys (p, c). snd (writeSysfsFile p c sys)) sys fs = write_files 438 fs sys"
  by (simp add: write_files_def writeSysfsFile_def)

text \<open>
  What the rest of the system relies on: every node holds the value of its field, the published
  properties too, and the values stay in the ranges the class declares.
\<close>

definition battery_nodes :: "string \<Rightarrow> string set" where
  "battery_nodes dir = fst ` set (battery_files (battery_new\<lparr>
     baBatteryDir := dir @ ''/sys/class/power_supply/battery'', baAcDir := dir @ ''/sys/class/power_supply/ac'',
     baUsbDir := dir @ ''/sys/class/power_supply/usb''\<rparr>) 0 0)"

definition nodes_usable :: "string \<Rightarrow> sys \<Rightarrow> bool" where
  "nodes_usable dir sys \<longleftrightarrow>
     (\<forall>p \<in> battery_nodes dir. writable (snd sys) p \<and> p \<noteq> psPropertiesFilePath (fst sys))"

definition battery_ready :: "string \<Rightarrow> battery \<Rightarrow> bool" where
  "battery_ready dir b \<longleftrightarrow> baInitialized b \<and> baBatteryDir b = dir @ ''/sys/class/power_supply/battery''
     \<and> baAcDir b = dir @ ''/sys/class/power_supply/ac'' \<and> baUsbDir b = dir @ ''/sys/class/power_supply/usb''
     \<and> 0 \<le> biCapacity (baInfo b) \<and> biCapacity (baInfo b) \<le> 100 \<and> biCurrentMa (baInfo b) = 500
     \<and> 0 < biVoltageMv (baInfo b) \<and> biVoltageMv (baInfo b) \<le> 2147483"

definition battery_agrees :: "battery \<Rightarrow> sys \<Rightarrow> bool" where
  "battery_agrees b sys \<longleftrightarrow>
     (\<forall>(p, c) \<in> set (battery_files b (biVoltageMv (baInfo b) * 1000) (biCurrentMa (baInfo b) * 1000)).
        file_content (snd sys) p = Some c)
     \<and> (\<forall>(k, v) \<in> set (battery_view b). find_prop (fst sys) k = Some v)"

lemma battery_keys:
  assumes "battery_ready dir b"
  shows "fst ` set (battery_files b x y) = battery_nodes dir" and "distinct (map fst (battery_files b x y))"
  using assms by (simp_all add: battery_ready_def battery_nodes_def battery_files_def charger_files_def Let_def)

lemma sync_agrees:
  assumes "battery_ready dir b" "nodes_usable dir sys"
  shows "\<exists>sys'. syncToSysfs b sys = Inr sys' \<and> battery_agrees b sys' \<and> nodes_usable dir sys'"
proof -
  let ?i = "baInfo b"
  let ?fs = "battery_files b (biVoltageMv ?i * 1000) (biCurrentMa ?i * 1000)"
  let ?sys = "write_files 438 ?fs sys"
  let ?last = "set_props (battery_view b) ?sys"
  have e: "syncToSysfs b sys = Inr ?last"
    using assms(1) by (simp add: syncToSysfs_def int_mul_def int_ret_def int_range_def battery_ready_def writeSysfs_files)
  note keys = battery_keys [OF assms(1), of "biVoltageMv ?i * 1000" "biCurrentMa ?i * 1000"]
  have "file_content (snd ?last) p = Some c" if "(p, c) \<in> set ?fs" for p c
    using assms(2) by (intro published_files keys(2) that) (simp only: keys(1) nodes_usable_def)
  moreover have "find_prop (fst ?last) k = Some v" if "(k, v) \<in> set (battery_view b)" for k v
    using that by (rule battery.published)
  ultimately have "battery_agrees b ?last"
    by (auto simp: battery_agrees_def)
  moreover have "nodes_usable dir ?last"
    using assms(2) by (simp add: nodes_usable_def set_props_host)
  ultimately show ?thesis
    using e by blast
qed

lemma initialize_agrees:
  assumes "nodes_usable dir sys"
  shows "\<exists>b' sys'. initialize_battery b sys dir = Inr (True, b', sys') \<and> battery_ready dir b'
    \<and> battery_agrees b' sys' \<and> nodes_usable dir sys'"
proof -
  let ?d = "dir @ ''/sys/class/power_supply/battery''" and ?ac = "dir @ ''/sys/class/power_supply/ac''"
    and ?usb = "dir @ ''/sys/class/power_supply/usb''"
  let ?b = "b\<lparr>baSandboxDir := dir, baBatteryDir := ?d, baAcDir := ?ac, baUsbDir := ?usb,
    baInitialized := True, baInfo := battery_default\<rparr>"
  let ?sys = "make_dirs True 511 ?usb (make_dirs True 511 ?ac (make_dirs True 511 ?d sys))"
  have "\<not> prefix p ?d \<and> \<not> prefix p ?ac \<and> \<not> prefix p ?usb" if "p \<in> battery_nodes dir" for p
    using that by (auto simp: battery_nodes_def battery_files_def charger_files_def Let_def)
  then have "nodes_usable dir ?sys"
    using assms by (simp add: nodes_usable_def make_dirs_writable)
  moreover have r: "battery_ready dir ?b"
    by (simp add: battery_ready_def battery_default_def)
  ultimately obtain sys' where "syncToSysfs ?b ?sys = Inr sys'" "battery_agrees ?b sys'" "nodes_usable dir sys'"
    using sync_agrees by blast
  then show ?thesis
    using r by (auto simp: initialize_battery_def Let_def)
qed

text \<open>A client's updates, one after the other.\<close>

record update =
  upCapacity :: int
  upStatus :: string
  upHealth :: string
  upVoltage :: int
  upTemp :: int
  upAc :: bool
  upUsb :: bool

fun battery_run :: "battery \<Rightarrow> sys \<Rightarrow> update list \<Rightarrow> fault + (battery \<times> sys)" where
  "battery_run b sys [] = Inr (b, sys)"
| "battery_run b sys (u # us) =
     bnd (updateBattery b sys (upCapacity u) (upStatus u) (upHealth u) (upVoltage u) (upTemp u) (upAc u) (upUsb u))
       (\<lambda>(ok, b, sys). battery_run b sys us)"

lemma update_agrees:
  assumes "battery_ready dir b" "nodes_usable dir sys" "upVoltage u \<le> 2147483"
  shows "\<exists>b' sys'. updateBattery b sys (upCapacity u) (upStatus u) (upHealth u) (upVoltage u) (upTemp u) (upAc u) (upUsb u)
      = Inr (True, b', sys') \<and> battery_ready dir b' \<and> battery_agrees b' sys' \<and> nodes_usable dir sys'"
proof -
  let ?b = "b\<lparr>baInfo := set_info (upCapacity u) (upStatus u) (upHealth u) (upVoltage u) (upTemp u) (upAc u) (upUsb u) (baInfo b)\<rparr>"
  have r: "battery_ready dir ?b"
    using assms(1,3) by (simp add: battery_ready_def set_info_def)
  obtain sys' where "syncToSysfs ?b sys = Inr sys'" "battery_agrees ?b sys'" "nodes_usable dir sys'"
    using sync_agrees [OF r assms(2)] by blast
  then show ?thesis
    using r assms(1) by (auto simp: updateBattery_def battery_ready_def)
qed

lemma battery_run_agrees:
  "battery_ready dir b \<Longrightarrow> nodes_usable dir sys \<Longrightarrow> battery_agrees b sys \<Longrightarrow>
   \<forall>u \<in> set us. upVoltage u \<le> 2147483 \<Longrightarrow>
   \<exists>b' sys'. battery_run b sys us = Inr (b', sys') \<and> battery_ready dir b' \<and> battery_agrees b' sys'"
proof (induction us arbitrary: b sys)
  case (Cons u us)
  then obtain b' sys' where u: "updateBattery b sys (upCapacity u) (upStatus u) (upHealth u) (upVoltage u) (upTemp u) (upAc u) (upUsb u)
      = Inr (True, b', sys')" "battery_ready dir b'" "battery_agrees b' sys'" "nodes_usable dir sys'"
    using update_agrees [of dir b sys u] by auto
  then show ?case
    using Cons.IH [OF u(2,4,3)] Cons.prems(4) by simp
qed simp



text \<open>
  A voltage of 2147484 mV or more is accepted as an \<^verbatim>\<open>int\<close> and its product with 1000 overflows.
\<close>

lemma battery_voltage_overflow:
  "baInitialized b \<Longrightarrow> 2147484 \<le> mv \<Longrightarrow> mv < 2 ^ 31 \<Longrightarrow>
   updateBattery b sys capacity status health mv temp ac usb = Inl SignedOverflow"
  by (simp add: updateBattery_def syncToSysfs_def int_mul_def int_ret_def int_range_def set_info_def)

text \<open>A temperature of zero or below never reaches the nodes.\<close>

lemma battery_ignores_frost:
  "t \<le> 0 \<Longrightarrow> biTempTenthsC (set_info capacity status health mv t ac usb i) = biTempTenthsC i"
  by (simp add: set_info_def)

end
