(* ===== verification/Telephony_Bridge.thy ===== *)
theory Telephony_Bridge
  imports Bridge_Common
begin

text \<open>
  The telephony and Wi-Fi state of \<^verbatim>\<open>telephony_bridge.cpp\<close>, the properties it publishes and
  the three socket listeners. \<open>tbJoinable\<close> tells that the thread objects still hold a thread;
  assigning a new thread to such an object ends the process.
\<close>

record SimState =
  siInserted :: bool
  siCarrierName :: string
  siMcc :: string
  siMnc :: string
  siImei :: string
  siImsi :: string
  siPhoneNumber :: string
  siSignalBars :: int
  siSignalDbm :: int
  siNetworkType :: string
  siDataState :: string
  siIsRoaming :: bool

definition sim_default :: SimState where
  "sim_default = \<lparr>siInserted = True, siCarrierName = ''CyberGSI 5G'', siMcc = ''310'', siMnc = ''260'',
     siImei = ''860123456789012'', siImsi = ''310260123456789'', siPhoneNumber = ''+1-555-0199'',
     siSignalBars = 5, siSignalDbm = -65, siNetworkType = ''NR_SA'', siDataState = ''CONNECTED'',
     siIsRoaming = False\<rparr>"

record WifiState =
  wiConnected :: bool
  wiSsid :: string
  wiBssid :: string
  wiIpAddress :: string
  wiGateway :: string
  wiLinkSpeedMbps :: int
  wiRssiDbm :: int
  wiFrequencyMhz :: int

definition wifi_default :: WifiState where
  "wifi_default = \<lparr>wiConnected = True, wiSsid = ''GSI-Virtual-WiFi'', wiBssid = ''02:00:00:11:22:33'',
     wiIpAddress = ''192.168.1.150'', wiGateway = ''192.168.1.1'', wiLinkSpeedMbps = 866,
     wiRssiDbm = -42, wiFrequencyMhz = 5180\<rparr>"

record telephony =
  tbSandboxDir :: string
  tbInitialized :: bool
  tbSim :: SimState
  tbWifi :: WifiState
  tbRildRunning :: bool
  tbRildDebugRunning :: bool
  tbWpaRunning :: bool
  tbJoinable :: bool

definition telephony_new :: telephony where
  "telephony_new = \<lparr>tbSandboxDir = [], tbInitialized = False, tbSim = sim_default, tbWifi = wifi_default,
     tbRildRunning = False, tbRildDebugRunning = False, tbWpaRunning = False, tbJoinable = False\<rparr>"

section \<open>The published properties\<close>

definition sim_view :: "SimState \<Rightarrow> (string \<times> string) list" where
  "sim_view s =
     (if siInserted s then
        [(''gsm.sim.state'', ''READY''),
         (''gsm.sim.operator.alpha'', siCarrierName s),
         (''gsm.sim.operator.numeric'', siMcc s @ siMnc s),
         (''gsm.sim.operator.iso-country'', ''us''),
         (''gsm.operator.alpha'', siCarrierName s),
         (''gsm.operator.numeric'', siMcc s @ siMnc s),
         (''gsm.operator.isroaming'', ''false''),
         (''gsm.network.type'', siNetworkType s),
         (''ril.ready'', ''true''),
         (''ro.telephony.default_network'', ''9''),
         (''persist.sys.sim.state'', ''READY''),
         (''persist.sys.sim.carrier'', siCarrierName s),
         (''persist.sys.sim.bars'', dec_int (siSignalBars s)),
         (''persist.sys.sim.imei'', siImei s)]
      else
        [(''gsm.sim.state'', ''ABSENT''),
         (''gsm.sim.operator.alpha'', ''''),
         (''gsm.sim.operator.numeric'', ''''),
         (''gsm.operator.alpha'', ''Emergency Calls Only''),
         (''gsm.network.type'', ''NONE''),
         (''persist.sys.sim.state'', ''ABSENT''),
         (''persist.sys.sim.carrier'', ''No SIM''),
         (''persist.sys.sim.bars'', ''0'')])"

definition wifi_view :: "WifiState \<Rightarrow> (string \<times> string) list" where
  "wifi_view w =
     (if wiConnected w then
        [(''persist.sys.wifi.state'', ''CONNECTED''),
         (''persist.sys.wifi.ssid'', wiSsid w),
         (''persist.sys.wifi.ip'', wiIpAddress w),
         (''persist.sys.wifi.speed'', dec_int (wiLinkSpeedMbps w) @ '' Mbps''),
         (''persist.sys.wifi.rssi'', dec_int (wiRssiDbm w) @ '' dBm'')]
      else
        [(''persist.sys.wifi.state'', ''DISCONNECTED''),
         (''persist.sys.wifi.ssid'', ''''),
         (''persist.sys.wifi.ip'', ''''),
         (''persist.sys.wifi.speed'', ''0 Mbps''),
         (''persist.sys.wifi.rssi'', ''-100 dBm'')])"

definition telephony_view :: "telephony \<Rightarrow> (string \<times> string) list" where
  "telephony_view t =
     sim_view (tbSim t)
     @ [(''wifi.interface'', ''wlan0''), (''init.svc.wpa_supplicant'', ''running'')]
     @ wifi_view (tbWifi t)"

definition telephony_updateProperties :: "telephony \<Rightarrow> sys \<Rightarrow> sys" where
  "telephony_updateProperties t sys = set_props (telephony_view t) sys"

section \<open>The operations\<close>

definition startSocketServers :: "telephony \<Rightarrow> fault + telephony" where
  "startSocketServers t =
     (if tbJoinable t then Inl Terminated
      else Inr (t\<lparr>tbRildRunning := True, tbRildDebugRunning := True, tbWpaRunning := True, tbJoinable := True\<rparr>))"

definition initialize_telephony :: "telephony \<Rightarrow> sys \<Rightarrow> string \<Rightarrow> fault + (bool \<times> telephony \<times> sys)" where
  "initialize_telephony t sys dir =
     (let t = t\<lparr>tbSandboxDir := dir\<rparr>;
          sys = sys_mkdir (dir @ ''/dev/socket'') 509 sys;
          sys = telephony_updateProperties t sys
      in bnd (startSocketServers t) (\<lambda>t. Inr (True, t\<lparr>tbInitialized := True\<rparr>, sys)))"

definition shutdown_telephony :: "telephony \<Rightarrow> telephony" where
  "shutdown_telephony t =
     (if \<not> tbInitialized t then t
      else t\<lparr>tbRildRunning := False, tbRildDebugRunning := False, tbWpaRunning := False,
             tbJoinable := False, tbInitialized := False\<rparr>)"

definition toggleSim :: "telephony \<Rightarrow> sys \<Rightarrow> bool \<Rightarrow> bool \<times> telephony \<times> sys" where
  "toggleSim t sys enabled =
     (let s = (tbSim t)\<lparr>siInserted := enabled\<rparr>;
          s = (if enabled
               then s\<lparr>siCarrierName := ''CyberGSI 5G'', siSignalBars := 5, siSignalDbm := -65,
                      siDataState := ''CONNECTED'', siNetworkType := ''NR_SA''\<rparr>
               else s\<lparr>siCarrierName := ''No SIM'', siSignalBars := 0, siSignalDbm := -120,
                      siDataState := ''DISCONNECTED'', siNetworkType := ''NONE''\<rparr>);
          t = t\<lparr>tbSim := s\<rparr>
      in (True, t, telephony_updateProperties t sys))"

definition toggleWifi :: "telephony \<Rightarrow> sys \<Rightarrow> bool \<Rightarrow> bool \<times> telephony \<times> sys" where
  "toggleWifi t sys connected =
     (let t = t\<lparr>tbWifi := (tbWifi t)\<lparr>wiConnected := connected\<rparr>\<rparr>
      in (True, t, telephony_updateProperties t sys))"

definition getSimState :: "telephony \<Rightarrow> SimState" where
  "getSimState t = tbSim t"

definition getWifiState :: "telephony \<Rightarrow> WifiState" where
  "getWifiState t = tbWifi t"

definition getTelephonyStatsString :: "telephony \<Rightarrow> string" where
  "getTelephonyStatsString t =
     (let s = tbSim t; w = tbWifi t in
      oline ''=== Cellular & Telephony (RIL) ===''
      @ oline (''SIM State: '' @ (if siInserted s then ''INSERTED / READY'' else ''NO SIM (Emergency Only)''))
      @ oline (''Operator: '' @ siCarrierName s @ '' ('' @ siMcc s @ ''-'' @ siMnc s @ '')'')
      @ oline (''Signal: '' @ dec_int (siSignalBars s) @ ''/5 bars ('' @ dec_int (siSignalDbm s) @ '' dBm)'')
      @ oline (''Network: '' @ siNetworkType s @ '' | Data: '' @ siDataState s)
      @ oline (''IMEI: '' @ siImei s @ '' | IMSI: '' @ siImsi s)
      @ [nl] @ oline ''=== Wireless LAN (Wi-Fi) ===''
      @ oline (''Wi-Fi State: '' @ (if wiConnected w then ''CONNECTED'' else ''DISCONNECTED''))
      @ oline (''SSID: '' @ wiSsid w @ '' ('' @ wiBssid w @ '')'')
      @ oline (''IP: '' @ wiIpAddress w @ '' (GW: '' @ wiGateway w @ '')'')
      @ ''Speed: '' @ dec_int (wiLinkSpeedMbps w) @ '' Mbps | RSSI: '' @ dec_int (wiRssiDbm w) @ '' dBm'')"

section \<open>The socket listeners\<close>

text \<open>
  One pass of the loop for each accepted client, with the bytes of its first read: any data is
  answered by the same eight bytes. The loop ends when the running flag is cleared, and then the
  socket is removed.
\<close>

definition ril_ack :: "u8 list" where
  "ril_ack = [0, 0, 0, 4, 0, 0, 0, 0]"

definition ril_client :: "u8 list \<Rightarrow> u8 list" where
  "ril_client sent = (if take 128 sent \<noteq> [] then ril_ack else [])"

definition rildSocketLoop :: "bool \<Rightarrow> bool \<Rightarrow> string \<Rightarrow> u8 list list \<Rightarrow> host \<Rightarrow> u8 list list \<times> host" where
  "rildSocketLoop socket_ok bind_ok path clients h =
     (let (listening, h) = open_listener socket_ok bind_ok path h in
      if \<not> listening then ([], h) else (map ril_client clients, host_unlink h path))"

section \<open>What the properties show\<close>

interpretation telephony: publisher telephony_view
  by unfold_locales (simp add: telephony_view_def sim_view_def wifi_view_def)

lemma toggleSim_state:
  "siInserted (getSimState (fst (snd (toggleSim t sys e)))) = e"
  "getWifiState (fst (snd (toggleSim t sys e))) = getWifiState t"
  by (simp_all add: toggleSim_def getSimState_def getWifiState_def Let_def)

text \<open>
  A removed SIM leaves the properties that only an inserted one sets: the number of the operator, the
  ready flag and the IMEI keep their values.
\<close>

lemma removed_sim_keeps:
  assumes "k \<in> {''gsm.operator.numeric'', ''ril.ready'', ''persist.sys.sim.imei'', ''gsm.operator.isroaming''}"
  shows "find_prop (fst (snd (snd (toggleSim t sys False)))) k = find_prop (fst sys) k"
  using assms unfolding toggleSim_def Let_def telephony_updateProperties_def snd_conv
  by (intro telephony.unpublished) (auto simp: telephony_view_def sim_view_def wifi_view_def)

text \<open>
  The second initialization without a shutdown ends the process; with one it succeeds.
\<close>

lemma telephony_restart:
  assumes "initialize_telephony t sys dir = Inr (ok, t', sys')"
  shows "initialize_telephony t' sys'' dir' = Inl Terminated"
    and "\<exists>t'' s. initialize_telephony (shutdown_telephony t') sys'' dir' = Inr (True, t'', s)"
  using assms
  by (auto simp: initialize_telephony_def startSocketServers_def shutdown_telephony_def Let_def split: if_splits)

end
