(* ===== verification/Bluetooth_Bridge.thy ===== *)
theory Bluetooth_Bridge
  imports Bridge_Common
begin

text \<open>
  The virtual Bluetooth adapter of \<^verbatim>\<open>bluetooth_bridge.cpp\<close>: its backing nodes, the
  list of devices a scan delivers, the published properties and the worker thread that recreates the
  controller node.
\<close>

record BleDevice =
  bdName :: string
  bdAddress :: string
  bdRssi :: int
  bdType :: string

record BluetoothState =
  btEnabled :: bool
  btName :: string
  btAddress :: string
  btVersion :: string
  btScanMode :: string
  btDevices :: "BleDevice list"

record bluetooth =
  blSandboxDir :: string
  blInitialized :: bool
  blState :: BluetoothState
  blVhciRunning :: bool
  blJoinable :: bool

definition bluetooth_new :: bluetooth where
  "bluetooth_new = \<lparr>blSandboxDir = [], blInitialized = False,
     blState = \<lparr>btEnabled = True, btName = ''CyberGSI-Bluetooth'', btAddress = ''00:1A:7D:DA:71:13'',
       btVersion = ''5.2 (BLE / Dual Mode)'', btScanMode = ''CONNECTABLE_DISCOVERABLE'', btDevices = []\<rparr>,
     blVhciRunning = False, blJoinable = False\<rparr>"

definition bluetooth_view :: "bluetooth \<Rightarrow> (string \<times> string) list" where
  "bluetooth_view b =
     (let s = blState b in
      if btEnabled s then
        [(''persist.sys.bluetooth.enabled'', ''true''),
         (''persist.sys.bluetooth.state'', ''STATE_ON''),
         (''persist.sys.bluetooth.name'', btName s),
         (''persist.sys.bluetooth.address'', btAddress s),
         (''bluetooth.status'', ''enabled''),
         (''bluetooth.profile.a2dp.sink.enabled'', ''true''),
         (''bluetooth.profile.hfp.hf.enabled'', ''true''),
         (''bluetooth.profile.pan.panu.enabled'', ''true'')]
      else
        [(''persist.sys.bluetooth.enabled'', ''false''),
         (''persist.sys.bluetooth.state'', ''STATE_OFF''),
         (''bluetooth.status'', ''disabled'')])"

definition bluetooth_updateProperties :: "bluetooth \<Rightarrow> sys \<Rightarrow> sys" where
  "bluetooth_updateProperties b sys = set_props (bluetooth_view b) sys"

definition ble_device :: "string \<Rightarrow> string \<Rightarrow> int \<Rightarrow> string \<Rightarrow> BleDevice" where
  "ble_device n a r t = \<lparr>bdName = n, bdAddress = a, bdRssi = r, bdType = t\<rparr>"

definition seeded_devices :: "BleDevice list" where
  "seeded_devices =
     [ble_device ''CyberWatch Ultra'' ''E4:5F:01:23:45:67'' (-52) ''BLE Smartwatch'',
      ble_device ''CyberBuds Pro ANC'' ''C8:2B:96:78:9A:BC'' (-64) ''Bluetooth Audio'',
      ble_device ''GSI Beacon Hub'' ''A0:C9:A0:DE:F0:12'' (-78) ''BLE Proximity Beacon'']"

definition scanned_devices :: "BleDevice list" where
  "scanned_devices =
     [ble_device ''CyberWatch Ultra'' ''E4:5F:01:23:45:67'' (-48) ''BLE Smartwatch'',
      ble_device ''CyberBuds Pro ANC'' ''C8:2B:96:78:9A:BC'' (-61) ''Bluetooth Audio'',
      ble_device ''GSI Beacon Hub'' ''A0:C9:A0:DE:F0:12'' (-74) ''BLE Proximity Beacon'',
      ble_device ''CyberKey Fob'' ''70:89:CC:11:22:33'' (-58) ''BLE HID Security Key'']"

definition rfkill_event :: string where
  "rfkill_event = bytes_to_string [0, 0, 0, 0, 2, 0, 0, 0]"

section \<open>The operations\<close>

definition bluetooth_files :: "string \<Rightarrow> sys \<Rightarrow> sys" where
  "bluetooth_files dir sys =
     (let tmp = dir @ ''/tmp''; sys = sys_mkdir tmp 509 sys;
          sys = sys_overwrite (tmp @ ''/dev_rfkill.raw'') 438 rfkill_event sys
      in sys_overwrite (tmp @ ''/dev_vhci.raw'') 438 [] sys)"

definition initialize_bluetooth :: "bluetooth \<Rightarrow> sys \<Rightarrow> string \<Rightarrow> fault + (bool \<times> bluetooth \<times> sys)" where
  "initialize_bluetooth b sys dir =
     (let b = b\<lparr>blSandboxDir := dir, blState := (blState b)\<lparr>btDevices := seeded_devices\<rparr>\<rparr>;
          sys = bluetooth_updateProperties b (bluetooth_files dir sys);
          b = b\<lparr>blVhciRunning := True\<rparr>
      in if blJoinable b then Inl Terminated
         else Inr (True, b\<lparr>blJoinable := True, blInitialized := True\<rparr>, sys))"

definition shutdown_bluetooth :: "bluetooth \<Rightarrow> bluetooth" where
  "shutdown_bluetooth b =
     (if \<not> blInitialized b then b
      else b\<lparr>blVhciRunning := False, blJoinable := False, blInitialized := False\<rparr>)"

definition toggleBluetooth :: "bluetooth \<Rightarrow> sys \<Rightarrow> bool \<Rightarrow> bool \<times> bluetooth \<times> sys" where
  "toggleBluetooth b sys enabled =
     (let b = b\<lparr>blState := (blState b)\<lparr>btEnabled := enabled\<rparr>\<rparr>
      in (True, b, bluetooth_updateProperties b sys))"

definition startBleScan :: "bluetooth \<Rightarrow> bool \<times> bluetooth" where
  "startBleScan b =
     (if \<not> btEnabled (blState b) then (False, b)
      else (True, b\<lparr>blState := (blState b)\<lparr>btDevices := scanned_devices\<rparr>\<rparr>))"

definition bluetooth_getState :: "bluetooth \<Rightarrow> BluetoothState" where
  "bluetooth_getState b = blState b"

definition device_lines :: "nat \<times> BleDevice \<Rightarrow> string" where
  "device_lines = (\<lambda>(i, d).
     oline (''['' @ dec (i + 1) @ ''] '' @ bdName d @ '' ('' @ bdAddress d @ '')'')
     @ oline (''    Type: '' @ bdType d @ '' | Signal: '' @ dec_int (bdRssi d) @ '' dBm''))"

definition getBluetoothStatsString :: "bluetooth \<Rightarrow> string" where
  "getBluetoothStatsString b =
     (let s = blState b in
      oline ''=== Virtual Bluetooth Subsystem ===''
      @ oline (''Adapter State: '' @ (if btEnabled s then ''STATE_ON (Enabled)'' else ''STATE_OFF (Disabled)''))
      @ oline (''Adapter Name: '' @ btName s)
      @ oline (''MAC Address: '' @ btAddress s)
      @ oline ''HCI Node: /dev/vhci (Virtual Controller)''
      @ oline (''Version: '' @ btVersion s)
      @ oline (''Scan Mode: '' @ btScanMode s)
      @ [nl] @ oline (''=== Discovered Nearby Peripherals ('' @ dec (length (btDevices s)) @ '') ==='')
      @ concat (map device_lines (enumerate 0 (btDevices s))))"

text \<open>One round of the worker, after its pause.\<close>

definition vhci_round :: "bluetooth \<Rightarrow> host \<Rightarrow> host" where
  "vhci_round b h =
     (let p = blSandboxDir b @ ''/tmp/dev_vhci.raw'' in
      if blVhciRunning b \<and> \<not> host_exists h p then fst (host_write h p 438 []) else h)"

section \<open>Correctness\<close>

interpretation bluetooth: publisher bluetooth_view
  by unfold_locales (simp add: bluetooth_view_def Let_def)

lemma toggle_published:
  "find_prop (fst (snd (snd (toggleBluetooth b sys e)))) ''persist.sys.bluetooth.state'' =
     Some (if e then ''STATE_ON'' else ''STATE_OFF'')"
  unfolding toggleBluetooth_def Let_def bluetooth_updateProperties_def snd_conv
  by (rule bluetooth.published) (simp add: bluetooth_view_def)

text \<open>A disabled adapter refuses the scan and keeps its list; the switched-off adapter keeps its name published.\<close>

lemma scan_needs_adapter:
  "startBleScan (fst (snd (toggleBluetooth b sys False))) = (False, fst (snd (toggleBluetooth b sys False)))"
  by (simp add: startBleScan_def toggleBluetooth_def Let_def)

lemma disabled_keeps_name:
  "find_prop (fst (snd (snd (toggleBluetooth b sys False)))) ''persist.sys.bluetooth.name'' =
     find_prop (fst sys) ''persist.sys.bluetooth.name''"
  unfolding toggleBluetooth_def Let_def bluetooth_updateProperties_def snd_conv
  by (rule bluetooth.unpublished) (simp add: bluetooth_view_def)

text \<open>While the worker runs a removed controller node comes back at its next round.\<close>

lemma vhci_restored:
  assumes "blVhciRunning b" "\<not> hDenied h (blSandboxDir b @ ''/tmp/dev_vhci.raw'')"
  shows "host_exists (vhci_round b h) (blSandboxDir b @ ''/tmp/dev_vhci.raw'')"
  using assms by (auto simp: vhci_round_def Let_def host_exists_def host_write_def)

lemma bluetooth_restart:
  assumes "initialize_bluetooth b sys dir = Inr (ok, b', sys')"
  shows "initialize_bluetooth b' sys'' dir' = Inl Terminated"
    and "\<exists>b'' s. initialize_bluetooth (shutdown_bluetooth b') sys'' dir' = Inr (True, b'', s)"
  using assms by (auto simp: initialize_bluetooth_def shutdown_bluetooth_def Let_def split: if_splits)

end
