(* ===== verification/Usb_Bridge.thy ===== *)
theory Usb_Bridge
  imports Bridge_Common
begin

text \<open>
  The virtual USB gadget and the ADB server of \<^verbatim>\<open>usb_bridge.cpp\<close>: its nodes, its
  properties, the start and stop of the server and what one connection changes. The results of
  \<^verbatim>\<open>socket\<close> and the bytes a client sends are parameters.
\<close>

record usb =
  usSandboxDir :: string
  usTcpPort :: int
  usInitialized :: bool
  usRunning :: bool
  usSocketOpen :: bool
  usActive :: u32
  usCommands :: u64
  usBytes :: u64

definition usb_new :: usb where
  "usb_new = \<lparr>usSandboxDir = [], usTcpPort = 5555, usInitialized = False, usRunning = False,
     usSocketOpen = False, usActive = 0, usCommands = 0, usBytes = 0\<rparr>"

definition usb_header :: string where
  "usb_header = oline ''CYBER_GSI_USB_GADGET_MOCK_NODE_V1'' @ oline ''FUNCTION=ADB,MTP''"

definition createMockUsbNodes :: "usb \<Rightarrow> sys \<Rightarrow> sys" where
  "createMockUsbNodes u sys =
     (let tmp = usSandboxDir u @ ''/tmp'' in
      write_files 438
        (map (\<lambda>p. (p, usb_header))
          [tmp @ ''/dev_usb_accessory.raw'', tmp @ ''/dev_mtp_usb.raw'', tmp @ ''/dev_android_adb.raw''])
        (sys_mkdir tmp 493 sys))"

definition usb_view :: "usb \<Rightarrow> (string \<times> string) list" where
  "usb_view u =
     [(''persist.sys.usb.config'', ''adb''),
      (''sys.usb.state'', ''adb''),
      (''service.adb.tcp.port'', dec_int (usTcpPort u)),
      (''ro.adb.secure'', ''0''),
      (''ro.debuggable'', ''1''),
      (''vendor.usb.status'', ''ONLINE'')]"

definition usb_registerSystemProperties :: "usb \<Rightarrow> sys \<Rightarrow> sys" where
  "usb_registerSystemProperties u sys = set_props (usb_view u) sys"

text \<open>A bind that fails is only logged. An old thread is joined before the new one starts.\<close>

definition startAdbServer :: "bool \<Rightarrow> usb \<Rightarrow> bool \<times> usb" where
  "startAdbServer socket_ok u =
     (if usRunning u then (True, u)
      else if \<not> socket_ok then (False, u\<lparr>usSocketOpen := False\<rparr>)
      else (True, u\<lparr>usSocketOpen := True, usRunning := True\<rparr>))"

definition stopAdbServer :: "usb \<Rightarrow> usb" where
  "stopAdbServer u = (if \<not> usRunning u then u else u\<lparr>usRunning := False, usSocketOpen := False\<rparr>)"

definition initialize_usb :: "bool \<Rightarrow> usb \<Rightarrow> sys \<Rightarrow> string \<Rightarrow> int \<Rightarrow> bool \<times> usb \<times> sys" where
  "initialize_usb socket_ok u sys dir port =
     (if usInitialized u then (True, u, sys)
      else
        let u = u\<lparr>usSandboxDir := dir, usTcpPort := port\<rparr>;
            sys = usb_registerSystemProperties u (createMockUsbNodes u sys);
            u = snd (startAdbServer socket_ok (u\<lparr>usInitialized := True\<rparr>))
        in (True, u, sys))"

definition shutdown_usb :: "usb \<Rightarrow> usb" where
  "shutdown_usb u = (if \<not> usInitialized u then u else (stopAdbServer u)\<lparr>usInitialized := False\<rparr>)"

definition isAdbServerRunning :: "usb \<Rightarrow> bool" where
  "isAdbServerRunning u = usRunning u"

definition getAdbPort :: "usb \<Rightarrow> int" where
  "getAdbPort u = usTcpPort u"

section \<open>Connections\<close>

text \<open>
  The literal is converted from a C string, so the banner ends at the first of its zero bytes. In the
  literal the last escape also takes the two letters that follow it, as \<^verbatim>\<open>\x00de\<close>.
\<close>

definition cnxn_literal :: "u8 list" where
  "cnxn_literal = string_to_bytes ''CNXN'' @ [1, 0, 0, 1, 0, 16, 0, 0xDE]
     @ string_to_bytes ''vice::ro.product.name=CyberGSI;ro.product.model=AOSP_Treble;'' @ [10]"

definition c_bytes :: "u8 list \<Rightarrow> u8 list" where
  "c_bytes bs = takeWhile (\<lambda>b. b \<noteq> 0) bs"

definition adb_accept :: "usb \<Rightarrow> usb \<times> u8 list" where
  "adb_accept u = (u\<lparr>usActive := usActive u + 1, usCommands := usCommands u + 1\<rparr>, c_bytes cnxn_literal)"

definition adb_receive :: "u8 list \<Rightarrow> usb \<Rightarrow> usb" where
  "adb_receive sent u =
     (let n = length (take 255 sent) in if n > 0 then u\<lparr>usBytes := usBytes u + word_of_nat n\<rparr> else u)"

definition adb_close :: "usb \<Rightarrow> usb" where
  "adb_close u = (if usActive u > 0 then u\<lparr>usActive := usActive u - 1\<rparr> else u)"

definition adb_client :: "u8 list \<Rightarrow> usb \<Rightarrow> usb \<times> u8 list" where
  "adb_client sent u = (let (u, banner) = adb_accept u in (adb_close (adb_receive sent u), banner))"

definition usb_serverLoop :: "u8 list list \<Rightarrow> usb \<Rightarrow> usb" where
  "usb_serverLoop clients u =
     foldl (\<lambda>u sent. if usRunning u \<and> usSocketOpen u then fst (adb_client sent u) else u) u clients"

definition simulateLocalAdbConnection :: "usb \<Rightarrow> usb \<times> string" where
  "simulateLocalAdbConnection u =
     (u\<lparr>usCommands := usCommands u + 1, usBytes := usBytes u + 512\<rparr>,
      oline ''=== IN-SANDBOX ADB CONNECTION TEST ===''
      @ oline (''Endpoint: tcp:127.0.0.1:'' @ dec_int (usTcpPort u))
      @ oline ''Handshake: CNXN (Version 0x01000001, MaxData: 4096)''
      @ oline ''Auth Status: BYPASSED (ro.adb.secure=0 Permissive Debug)''
      @ oline ''Target Device: CyberGSI Treble ARM64 [Online]''
      @ oline ''Shell Pipe: /system/bin/sh -> ProcessSpawner Hooked''
      @ ''Status: READY (Command execution stream established)'')"

definition getUsbStatsString :: "usb \<Rightarrow> string" where
  "getUsbStatsString u =
     oline ''=== VIRTUAL USB & ADB SERVER SUBSYSTEM ===''
     @ oline (''ADB Server: '' @ (if usRunning u then ''ONLINE (Listening on port '' @ dec_int (usTcpPort u) @ '')''
                                  else ''OFFLINE''))
     @ oline (''TCP Endpoint: localhost:'' @ dec_int (usTcpPort u))
     @ oline ''USB Mode: adb,mtp (Virtual USB Gadget)''
     @ oline (''Active Connections: '' @ dec (unat (usActive u)))
     @ oline (''Total ADB Commands Served: '' @ dec (unat (usCommands u)))
     @ oline (''Total Data Transferred: '' @ dec (unat (usBytes u)) @ '' bytes'')
     @ oline ''Virtual USB Nodes:''
     @ oline (''  - /dev/android_adb    -> '' @ usSandboxDir u @ ''/tmp/dev_android_adb.raw'')
     @ oline (''  - /dev/mtp_usb        -> '' @ usSandboxDir u @ ''/tmp/dev_mtp_usb.raw'')
     @ ''  - /dev/usb_accessory  -> '' @ usSandboxDir u @ ''/tmp/dev_usb_accessory.raw''"

section \<open>Correctness\<close>

interpretation usb: publisher usb_view
  by unfold_locales (simp add: usb_view_def)

text \<open>The client receives five bytes of the handshake, whatever the literal holds behind them.\<close>

lemma adb_banner_is_cut: "snd (adb_accept u) = [67, 78, 88, 78, 1]"
  by (simp add: adb_accept_def c_bytes_def cnxn_literal_def string_to_bytes_def of_char_def)

lemma adb_client_counters:
  assumes "usActive u = 0"
  shows "usActive (fst (adb_client sent u)) = 0" and "usCommands (fst (adb_client sent u)) = usCommands u + 1"
    and "usBytes (fst (adb_client sent u)) = usBytes u + word_of_nat (min (length sent) 255)"
  using assms by (auto simp: adb_client_def adb_accept_def adb_receive_def adb_close_def Let_def)

text \<open>The counters after any series of clients of a running server: no connection is left open.\<close>

lemma usb_serverLoop_counters:
  "usRunning u \<Longrightarrow> usSocketOpen u \<Longrightarrow> usActive u = 0 \<Longrightarrow>
   usActive (usb_serverLoop clients u) = 0
   \<and> usCommands (usb_serverLoop clients u) = usCommands u + word_of_nat (length clients)
   \<and> usBytes (usb_serverLoop clients u) = usBytes u + word_of_nat (sum_list (map (\<lambda>c. min (length c) 255) clients))"
proof (induction clients arbitrary: u)
  case (Cons c clients)
  have "usRunning (fst (adb_client c u)) \<and> usSocketOpen (fst (adb_client c u))"
    using Cons.prems by (simp add: adb_client_def adb_accept_def adb_receive_def adb_close_def Let_def)
  then have "usActive (usb_serverLoop clients (fst (adb_client c u))) = 0
   \<and> usCommands (usb_serverLoop clients (fst (adb_client c u))) = usCommands (fst (adb_client c u)) + word_of_nat (length clients)
   \<and> usBytes (usb_serverLoop clients (fst (adb_client c u))) =
       usBytes (fst (adb_client c u)) + word_of_nat (sum_list (map (\<lambda>c. min (length c) 255) clients))"
    using adb_client_counters(1) [OF Cons.prems(3)] by (intro Cons.IH) auto
  moreover have "usb_serverLoop (c # clients) u = usb_serverLoop clients (fst (adb_client c u))"
    using Cons.prems by (simp add: usb_serverLoop_def)
  ultimately show ?case
    using adb_client_counters [OF Cons.prems(3), of c] by (simp add: add_ac)
qed (simp add: usb_serverLoop_def)

text \<open>The port of the properties is the one the server was initialized with, also when the socket failed.\<close>

lemma usb_port_published:
  "\<not> usInitialized u \<Longrightarrow>
   find_prop (fst (snd (snd (initialize_usb ok u sys dir port)))) ''service.adb.tcp.port'' = Some (dec_int port)"
  unfolding initialize_usb_def Let_def usb_registerSystemProperties_def
  by (simp, rule usb.published, simp add: usb_view_def)

end
