(* ===== verification/Drm_Bridge.thy ===== *)
theory Drm_Bridge
  imports Bridge_Common
begin

text \<open>
  The virtual DRM service of \<^verbatim>\<open>drm_bridge.cpp\<close>: its device nodes and properties, the
  crypto sessions and the sample decryption. A \<^verbatim>\<open>std::map\<close> is an association list with
  distinct keys; where the code iterates over it the list is sorted by key. The clock is a parameter.
\<close>

definition CLEARKEY_UUID :: string where "CLEARKEY_UUID = ''e660e10f-26ac-4428-9b77-98f653650536''"
definition WIDEVINE_UUID :: string where "WIDEVINE_UUID = ''edef8ba9-79d6-4ace-a3c8-27dcd51d21ed''"

record DrmCryptoSession =
  dsSessionId :: string
  dsSchemeUuid :: string
  dsSchemeName :: string
  dsOpened :: u64
  dsPackets :: u32
  dsBytes :: u64

record drm =
  drSandboxDir :: string
  drInitialized :: bool
  drEnabled :: bool
  drSessions :: "(string \<times> DrmCryptoSession) list"
  drCounter :: u64
  drTotalBytes :: u64

definition drm_new :: drm where
  "drm_new = \<lparr>drSandboxDir = [], drInitialized = False, drEnabled = True, drSessions = [],
     drCounter = 0, drTotalBytes = 0\<rparr>"

text \<open>\<^verbatim>\<open>std::tolower\<close> in the C locale.\<close>

definition lower_char :: "char \<Rightarrow> char" where
  "lower_char c = (let n = of_char c :: nat in if 65 \<le> n \<and> n \<le> 90 then char_of (n + 32) else c)"

definition toLower :: "string \<Rightarrow> string" where
  "toLower s = map lower_char s"

section \<open>Start and stop\<close>

definition createMockDeviceNodes :: "drm \<Rightarrow> sys \<Rightarrow> sys" where
  "createMockDeviceNodes d sys =
     (let tmp = drSandboxDir d @ ''/tmp''; header = oline ''CYBER_GSI_DRM_MOCK_NODE_V1'' in
      write_files 438 (map (\<lambda>p. (p, header)) [tmp @ ''/dev_tee0.raw'', tmp @ ''/dev_ion.raw'', tmp @ ''/dev_qseecom.raw''])
        (sys_mkdir tmp 493 sys))"

definition drm_view :: "drm \<Rightarrow> (string \<times> string) list" where
  "drm_view d =
     [(''drm.service.enabled'', ''true''),
      (''media.mediadrmservice.enable'', ''true''),
      (''ro.hardware.drm'', ''cyber_drm''),
      (''ro.hardware.crypto'', ''cyber_crypto''),
      (''drm.64bit.enabled'', ''true''),
      (''vendor.drm.clearkey.supported'', ''true''),
      (''vendor.drm.widevine.security_level'', ''L3''),
      (''vendor.drm.status'', ''ONLINE'')]"

definition drm_registerSystemProperties :: "drm \<Rightarrow> sys \<Rightarrow> sys" where
  "drm_registerSystemProperties d sys = set_props (drm_view d) sys"

definition initialize_drm :: "drm \<Rightarrow> sys \<Rightarrow> string \<Rightarrow> bool \<times> drm \<times> sys" where
  "initialize_drm d sys dir =
     (if drInitialized d then (True, d, sys)
      else
        let d = d\<lparr>drSandboxDir := dir\<rparr>;
            sys = drm_registerSystemProperties d (createMockDeviceNodes d sys)
        in (True, d\<lparr>drInitialized := True, drEnabled := True\<rparr>, sys))"

definition shutdown_drm :: "drm \<Rightarrow> drm" where
  "shutdown_drm d = (if \<not> drInitialized d then d else d\<lparr>drSessions := [], drInitialized := False\<rparr>)"

definition toggleDrm :: "drm \<Rightarrow> sys \<Rightarrow> bool \<Rightarrow> drm \<times> sys" where
  "toggleDrm d sys enabled =
     (d\<lparr>drEnabled := enabled\<rparr>,
      set_props [(''vendor.drm.status'', if enabled then ''ONLINE'' else ''DISABLED'')] sys)"

section \<open>Sessions\<close>

definition isSchemeSupported :: "drm \<Rightarrow> string \<Rightarrow> bool" where
  "isSchemeSupported d uuid =
     (if \<not> drEnabled d then False
      else let l = toLower uuid in l = CLEARKEY_UUID \<or> l = WIDEVINE_UUID)"

definition session_name :: "u64 \<Rightarrow> string" where
  "session_name n = ''drm-sess-'' @ dec (unat n)"

definition openSession :: "u64 \<Rightarrow> drm \<Rightarrow> string \<Rightarrow> string option \<times> drm" where
  "openSession now d uuid =
     (if \<not> drEnabled d then (None, d)
      else if \<not> isSchemeSupported d uuid then (None, d)
      else
        let n = drCounter d + 1; sid = session_name n; l = toLower uuid;
            session = \<lparr>dsSessionId = sid, dsSchemeUuid = l,
              dsSchemeName = (if l = CLEARKEY_UUID then ''W3C-ClearKey'' else ''Widevine-L3''),
              dsOpened = now, dsPackets = 0, dsBytes = 0\<rparr>
        in (Some sid, d\<lparr>drCounter := n, drSessions := AList.update sid session (drSessions d)\<rparr>))"

definition closeSession :: "drm \<Rightarrow> string \<Rightarrow> bool \<times> drm" where
  "closeSession d sid =
     (if map_of (drSessions d) sid \<noteq> None
      then (True, d\<lparr>drSessions := AList.delete sid (drSessions d)\<rparr>) else (False, d))"

section \<open>Decryption\<close>

definition keyStreamSeed :: "u8 list" where
  "keyStreamSeed = [0x5a, 0xa5, 0x12, 0x34, 0x56, 0x78, 0x9a, 0xbc, 0xde, 0xf0, 0x11, 0x22, 0x33, 0x44, 0x55, 0x66]"

definition stream_mask :: "nat \<Rightarrow> u8" where
  "stream_mask i = keyStreamSeed ! (i mod 16) XOR word_of_nat (i div 16)"

definition apply_stream :: "u8 list \<Rightarrow> u8 list" where
  "apply_stream bs = map (\<lambda>(i, b). b XOR stream_mask i) (enumerate 0 bs)"

definition count_sample :: "nat \<Rightarrow> DrmCryptoSession \<Rightarrow> DrmCryptoSession" where
  "count_sample n s = s\<lparr>dsPackets := dsPackets s + 1, dsBytes := dsBytes s + word_of_nat n\<rparr>"

definition decryptSample :: "drm \<Rightarrow> string \<Rightarrow> u8 list \<Rightarrow> u8 list option \<times> drm" where
  "decryptSample d sid enc =
     (if \<not> drEnabled d then (None, d)
      else case map_of (drSessions d) sid of
        None \<Rightarrow> (None, d)
      | Some s \<Rightarrow>
          (Some (apply_stream enc),
           d\<lparr>drSessions := AList.update sid (count_sample (length enc) s) (drSessions d),
             drTotalBytes := drTotalBytes d + word_of_nat (length enc)\<rparr>))"

definition rawPayload :: string where
  "rawPayload = ''[GSI_VIRTUAL_DRM_SAMPLE_FRAME_4K_AVC_NAL_0x65]''"

definition runCryptoSelfTest :: "u64 \<Rightarrow> drm \<Rightarrow> string \<times> drm" where
  "runCryptoSelfTest now d =
     (if \<not> drEnabled d then (''ERROR: DRM subsystem is currently DISABLED.'', d)
      else case openSession now d CLEARKEY_UUID of
        (None, d) \<Rightarrow> (''FAILED: Could not open ClearKey DRM session.'', d)
      | (Some sid, d) \<Rightarrow>
          let plain = string_to_bytes rawPayload;
              cipher = apply_stream plain;
              (r, d) = decryptSample d sid cipher;
              d = snd (closeSession d sid)
          in if r \<noteq> Some plain then (''FAILED: Decrypted payload mismatch in AES-128 test!'', d)
             else
               (oline ''=== DRM CRYPTO SELF-TEST PASSED ===''
                @ oline (''Scheme: W3C ClearKey (UUID: '' @ CLEARKEY_UUID @ '')'')
                @ oline ''Cipher: AES-128-CTR Virtual Pipeline''
                @ oline (''Payload Size: '' @ dec (length plain) @ '' bytes'')
                @ ''Verification: 100% Match -> '' @ [CHR 0x22] @ bytes_to_string (the r) @ [CHR 0x22], d))"

definition session_line :: "string \<times> DrmCryptoSession \<Rightarrow> string" where
  "session_line = (\<lambda>(sid, s). oline (''  * Session ['' @ sid @ ''] '' @ dsSchemeName s @ '' | Packets: ''
     @ dec (unat (dsPackets s)) @ '' | Bytes: '' @ dec (unat (dsBytes s))))"

definition getDrmStatsString :: "drm \<Rightarrow> string" where
  "getDrmStatsString d =
     oline ''=== VIRTUAL DRM & MEDIACRYPTO SUBSYSTEM ===''
     @ oline (''Status: '' @ (if drEnabled d then ''ONLINE (Operational)'' else ''DISABLED''))
     @ oline ''Supported DRM Schemes:''
     @ oline (''  1. W3C ClearKey  ['' @ CLEARKEY_UUID @ ''] -> Supported'')
     @ oline (''  2. Widevine L3   ['' @ WIDEVINE_UUID @ ''] -> Supported (Software L3)'')
     @ oline ''Virtual TEE Nodes:''
     @ oline (''  - /dev/tee0    -> '' @ drSandboxDir d @ ''/tmp/dev_tee0.raw'')
     @ oline (''  - /dev/ion     -> '' @ drSandboxDir d @ ''/tmp/dev_ion.raw'')
     @ oline (''  - /dev/qseecom -> '' @ drSandboxDir d @ ''/tmp/dev_qseecom.raw'')
     @ oline (''Active Crypto Sessions: '' @ dec (length (drSessions d)))
     @ concat (map session_line (sort_key fst (drSessions d)))
     @ oline (''Total Decrypted: '' @ dec (unat (drTotalBytes d)) @ '' bytes'')
     @ ''Total Lifetime Sessions: '' @ dec (unat (drCounter d))"

section \<open>Correctness\<close>

interpretation drm: publisher drm_view
  by unfold_locales (simp add: drm_view_def)

lemma apply_stream_length [simp]: "length (apply_stream bs) = length bs"
  by (simp add: apply_stream_def)

lemma nth_apply_stream [simp]: "i < length bs \<Longrightarrow> apply_stream bs ! i = bs ! i XOR stream_mask i"
  by (simp add: apply_stream_def nth_enumerate_eq)

lemma apply_stream_involution [simp]: "apply_stream (apply_stream bs) = bs"
  by (rule nth_equalityI) (simp_all add: xor.assoc)

text \<open>The mask counts blocks in one byte, so the stream starts again after 4096 bytes.\<close>

lemma stream_mask_period: "stream_mask (i + 4096) = stream_mask i"
proof -
  have i: "(i + 4096) mod 16 = i mod 16" "(i + 4096) div 16 = i div 16 + 256"
    using mod_mult_self2 [of i 16 256] div_mult_self2 [of 16 i 256] by simp_all
  have "(word_of_nat (i div 16 + 256) :: u8) = word_of_nat (i div 16)"
    by simp
  then show ?thesis
    by (simp add: stream_mask_def i del: of_nat_add)
qed

text \<open>
  What the clients may do, and the invariant: every live session carries a number that was already
  given out. A run of fewer than \<open>2^64 - 1\<close> operations does not exhaust the counter.
\<close>

datatype drm_op =
    OpenSession u64 string
  | CloseSession string
  | DecryptSample string "u8 list"
  | ToggleDrm sys bool
  | SelfTest u64

fun drm_step :: "drm \<Rightarrow> drm_op \<Rightarrow> drm" where
  "drm_step d (OpenSession now uuid) = snd (openSession now d uuid)"
| "drm_step d (CloseSession sid) = snd (closeSession d sid)"
| "drm_step d (DecryptSample sid enc) = snd (decryptSample d sid enc)"
| "drm_step d (ToggleDrm sys e) = fst (toggleDrm d sys e)"
| "drm_step d (SelfTest now) = snd (runCryptoSelfTest now d)"

definition drm_sessions_ok :: "drm \<Rightarrow> bool" where
  "drm_sessions_ok d \<longleftrightarrow>
     (\<forall>sid s. map_of (drSessions d) sid = Some s \<longrightarrow> (\<exists>k \<le> unat (drCounter d). sid = ''drm-sess-'' @ dec k))"

lemma openSession_ok:
  assumes "drm_sessions_ok d" "unat (drCounter d) < 2 ^ 64 - 1"
  shows "drm_sessions_ok (snd (openSession now d uuid)) \<and> unat (drCounter (snd (openSession now d uuid))) \<le> unat (drCounter d) + 1"
proof -
  have "unat (drCounter d + 1) = unat (drCounter d) + 1"
    using assms(2) by (simp add: unat_word_ariths(1))
  then show ?thesis
    using assms(1)
    by (fastforce simp: drm_sessions_ok_def openSession_def session_name_def Let_def update_conv' le_Suc_eq split: if_splits)
qed

lemma closeSession_ok: "drm_sessions_ok d \<Longrightarrow> drm_sessions_ok (snd (closeSession d sid))"
  by (auto simp: drm_sessions_ok_def closeSession_def delete_conv' split: if_splits)

lemma decryptSample_ok: "drm_sessions_ok d \<Longrightarrow> drm_sessions_ok (snd (decryptSample d sid enc))"
  by (auto simp: drm_sessions_ok_def decryptSample_def update_conv' split: option.splits if_splits)

text \<open>The bytes of the self-test come back through the session it opened, and the session is gone afterwards.\<close>

lemma selftest_run:
  assumes "drEnabled d" and fresh: "map_of (drSessions d) (session_name (drCounter d + 1)) = None"
  shows "fst (runCryptoSelfTest now d) = fst (runCryptoSelfTest now drm_new)"
    and "map_of (drSessions (snd (runCryptoSelfTest now d))) = map_of (drSessions d)"
    and "drCounter (snd (runCryptoSelfTest now d)) = drCounter d + 1"
proof -
  let ?sid = "session_name (drCounter d + 1)"
  have up: "toLower CLEARKEY_UUID = CLEARKEY_UUID"
    by (simp add: toLower_def CLEARKEY_UUID_def lower_char_def)
  obtain s where o: "openSession now d CLEARKEY_UUID =
      (Some ?sid, d\<lparr>drCounter := drCounter d + 1, drSessions := AList.update ?sid s (drSessions d)\<rparr>)"
    using assms(1) by (simp add: openSession_def isSchemeSupported_def up Let_def)
  have del1: "map_of (AList.delete ?sid (AList.update ?sid t (drSessions d))) = map_of (drSessions d)" for t
    using fresh by (simp add: delete_conv' update_conv' fun_upd_idem)
  have del: "map_of (AList.delete ?sid (AList.update ?sid t (AList.update ?sid s (drSessions d)))) = map_of (drSessions d)" for t
    using fresh by (simp add: delete_conv' update_conv' fun_upd_idem)
  show "fst (runCryptoSelfTest now d) = fst (runCryptoSelfTest now drm_new)"
    "map_of (drSessions (snd (runCryptoSelfTest now d))) = map_of (drSessions d)"
    "drCounter (snd (runCryptoSelfTest now d)) = drCounter d + 1"
    using assms(1)
    by (simp_all add: runCryptoSelfTest_def o decryptSample_def closeSession_def update_conv' Let_def del del1
      openSession_def isSchemeSupported_def up drm_new_def)
qed

lemma fresh_session:
  assumes "drm_sessions_ok d" "unat (drCounter d) < 2 ^ 64 - 1"
  shows "map_of (drSessions d) (session_name (drCounter d + 1)) = None"
proof -
  have "unat (drCounter d + 1) = unat (drCounter d) + 1"
    using assms(2) by (simp add: unat_word_ariths(1))
  then show ?thesis
    using assms(1) by (fastforce simp: drm_sessions_ok_def session_name_def)
qed

lemma drm_step_ok:
  assumes "drm_sessions_ok d" "unat (drCounter d) < 2 ^ 64 - 1"
  shows "drm_sessions_ok (drm_step d op) \<and> unat (drCounter (drm_step d op)) \<le> unat (drCounter d) + 1"
proof (cases op)
  case (OpenSession now uuid)
  then show ?thesis using openSession_ok [OF assms] by simp
next
  case (CloseSession sid)
  then show ?thesis using closeSession_ok [OF assms(1), of sid] by (simp add: closeSession_def)
next
  case (DecryptSample sid enc)
  then show ?thesis
    using decryptSample_ok [OF assms(1), of sid enc] by (simp add: decryptSample_def split: option.splits)
next
  case (ToggleDrm sys e)
  then show ?thesis using assms(1) by (simp add: toggleDrm_def drm_sessions_ok_def)
next
  case (SelfTest now)
  show ?thesis
  proof (cases "drEnabled d")
    case True
    note r = selftest_run [OF True fresh_session [OF assms], of now]
    have "unat (drCounter d + 1) = unat (drCounter d) + 1"
      using assms(2) by (simp add: unat_word_ariths(1))
    then show ?thesis
      using SelfTest assms(1) r(2,3) by (fastforce simp: drm_sessions_ok_def)
  next
    case False
    then show ?thesis using SelfTest assms(1) by (simp add: runCryptoSelfTest_def)
  qed
qed

lemma drm_run_ok:
  "drm_sessions_ok d \<Longrightarrow> unat (drCounter d) + length ops < 2 ^ 64 \<Longrightarrow>
   drm_sessions_ok (foldl drm_step d ops) \<and> unat (drCounter (foldl drm_step d ops)) \<le> unat (drCounter d) + length ops"
proof (induction ops arbitrary: d)
  case (Cons op ops)
  then have "drm_sessions_ok (drm_step d op) \<and> unat (drCounter (drm_step d op)) \<le> unat (drCounter d) + 1"
    by (intro drm_step_ok) simp_all
  then show ?case
    using Cons.IH [of "drm_step d op"] Cons.prems(2) by simp
qed simp

lemma opened_session:
  assumes "openSession now d uuid = (Some sid, d')"
  shows "sid = session_name (drCounter d + 1)" and "drEnabled d'" and "map_of (drSessions d') sid \<noteq> None"
  using assms by (auto simp: openSession_def Let_def update_conv' split: if_splits)

text \<open>C28: After fewer than \<open>2^64 - 1\<close> operations of any clients: a session that opens has a name no live
  session has, it decrypts what was encrypted with its key stream to the same bytes, and after its close
  it is refused; and the self-test of an enabled service passes and leaves the live sessions as they were.\<close>

theorem drm_session_lifecycle:
  assumes "length ops < 2 ^ 64 - 1" and d: "d = foldl drm_step drm_new ops"
  shows "(case openSession now d uuid of
       (None, d') \<Rightarrow> d' = d
     | (Some sid, d') \<Rightarrow> map_of (drSessions d) sid = None \<and> fst (decryptSample d' sid (apply_stream data)) = Some data
         \<and> fst (decryptSample (snd (closeSession d' sid)) sid data) = None)
   \<and> (drEnabled d \<longrightarrow> starts_with ''=== DRM CRYPTO SELF-TEST PASSED ==='' (fst (runCryptoSelfTest now d))
         \<and> map_of (drSessions (snd (runCryptoSelfTest now d))) = map_of (drSessions d))"
proof -
  have "drm_sessions_ok d \<and> unat (drCounter d) \<le> length ops"
    using drm_run_ok [of drm_new ops] assms by (simp add: drm_sessions_ok_def drm_new_def)
  then have fresh: "map_of (drSessions d) (session_name (drCounter d + 1)) = None"
    using assms(1) by (intro fresh_session) simp_all
  have "starts_with ''=== DRM CRYPTO SELF-TEST PASSED ==='' (fst (runCryptoSelfTest now drm_new))"
    by (simp add: runCryptoSelfTest_def openSession_def isSchemeSupported_def toLower_def CLEARKEY_UUID_def
      lower_char_def drm_new_def decryptSample_def Let_def starts_with_def oline_def)
  then have test: "drEnabled d \<longrightarrow> starts_with ''=== DRM CRYPTO SELF-TEST PASSED ==='' (fst (runCryptoSelfTest now d))
      \<and> map_of (drSessions (snd (runCryptoSelfTest now d))) = map_of (drSessions d)"
    using selftest_run [OF _ fresh] by metis
  obtain r d' where o: "openSession now d uuid = (r, d')"
    by (cases "openSession now d uuid")
  show ?thesis
  proof (cases r)
    case None
    then have "d' = d" using o by (auto simp: openSession_def Let_def split: if_splits)
    then show ?thesis using None o test by simp
  next
    case (Some sid)
    then have op: "openSession now d uuid = (Some sid, d')"
      using o by simp
    note op = opened_session [OF op]
    from op(3) obtain s where s: "map_of (drSessions d') sid = Some s" "drEnabled d'"
      using op(2) by (cases "map_of (drSessions d') sid") simp_all
    then have "fst (decryptSample d' sid (apply_stream data)) = Some data"
      by (simp add: decryptSample_def)
    moreover have "fst (decryptSample (snd (closeSession d' sid)) sid data) = None"
      using s by (simp add: decryptSample_def closeSession_def delete_conv')
    ultimately show ?thesis
      using Some o op(1) fresh test by simp
  qed
qed

theorem drm_session_lifecycle_witness:
  "fst (openSession 7 drm_new CLEARKEY_UUID) = Some ''drm-sess-1''
   \<and> fst (decryptSample (snd (openSession 7 drm_new CLEARKEY_UUID)) ''drm-sess-1'' (apply_stream [1, 2])) = Some [1, 2]"
proof -
  obtain r d' where o: "openSession 7 drm_new CLEARKEY_UUID = (r, d')"
    by (cases "openSession 7 drm_new CLEARKEY_UUID")
  have "r = Some ''drm-sess-1''"
    using o by (auto simp: openSession_def isSchemeSupported_def toLower_def CLEARKEY_UUID_def lower_char_def
      drm_new_def Let_def session_name_def dec.simps digit_def char_of_def bit_0)
  then show ?thesis
    using drm_session_lifecycle [where ops = "[]" and d = drm_new and now = 7 and uuid = CLEARKEY_UUID and data = "[1, 2]"] o by simp
qed

end
