(* ===== verification/Keystore_Bridge.thy ===== *)
theory Keystore_Bridge
  imports Bridge_Common
begin

text \<open>
  The virtual key store and fingerprint sensor of \<^verbatim>\<open>keystore_bridge.cpp\<close>: the keys, the
  enrolled templates and the property that tells the system whether one is enrolled. A
  \<^verbatim>\<open>std::map\<close> is an association list with distinct keys, sorted where the code iterates
  over it; the clock is a parameter.
\<close>

record VirtualKeyEntry =
  keAlias :: string
  keAlgorithm :: string
  keSizeBits :: int
  keAuthRequired :: bool
  keCreated :: u64

record FingerprintTemplate =
  fpFingerId :: int
  fpName :: string
  fpEnrolled :: u64

record BiometricAuthResult =
  baSuccess :: bool
  baFingerId :: int
  baMessage :: string
  baTimestamp :: u64

record keystore =
  ksSandboxDir :: string
  ksInitialized :: bool
  ksBiometricsEnabled :: bool
  ksKeys :: "(string \<times> VirtualKeyEntry) list"
  ksFingers :: "(int \<times> FingerprintTemplate) list"
  ksAuthAttempts :: u32
  ksAuthSuccesses :: u32

definition keystore_new :: keystore where
  "keystore_new = \<lparr>ksSandboxDir = [], ksInitialized = False, ksBiometricsEnabled = True, ksKeys = [],
     ksFingers = [], ksAuthAttempts = 0, ksAuthSuccesses = 0\<rparr>"

section \<open>Start and stop\<close>

definition keystore_nodes :: "keystore \<Rightarrow> sys \<Rightarrow> sys" where
  "keystore_nodes k sys =
     (let tmp = ksSandboxDir k @ ''/tmp'' in
      snd (sys_write (tmp @ ''/dev_fingerprint.raw'') 438
             (oline ''CYBER_GSI_BIOMETRICS_MOCK_NODE_V1'' @ oline ''SENSOR_STATE=READY'') (sys_mkdir tmp 493 sys)))"

definition put_key :: "u64 \<Rightarrow> string \<Rightarrow> string \<Rightarrow> int \<Rightarrow> bool \<Rightarrow> keystore \<Rightarrow> keystore" where
  "put_key now alias alg bits auth k =
     k\<lparr>ksKeys := AList.update alias
         \<lparr>keAlias = alias, keAlgorithm = alg, keSizeBits = bits, keAuthRequired = auth, keCreated = now\<rparr> (ksKeys k)\<rparr>"

definition put_finger :: "u64 \<Rightarrow> int \<Rightarrow> string \<Rightarrow> keystore \<Rightarrow> keystore" where
  "put_finger now i name k =
     k\<lparr>ksFingers := AList.update i \<lparr>fpFingerId = i, fpName = name, fpEnrolled = now\<rparr> (ksFingers k)\<rparr>"

definition seedDefaultKeysAndTemplates :: "u64 \<Rightarrow> keystore \<Rightarrow> keystore" where
  "seedDefaultKeysAndTemplates now k =
     (let k = put_key now ''master_key_device_credential'' ''AES-256'' 256 False k;
          k = put_key now ''gatekeeper_password_token'' ''HMAC-SHA256'' 256 False k;
          k = put_key now ''user_lockscreen_pin_key'' ''AES-256'' 256 True k;
          k = put_key now ''system_cert_root_ca'' ''RSA-2048'' 2048 False k;
          k = put_finger now 1 ''CyberThumb Right'' k;
          k = put_finger now 2 ''CyberIndex Right'' k
      in put_finger now 3 ''CyberIndex Left'' k)"

definition keystore_view :: "keystore \<Rightarrow> (string \<times> string) list" where
  "keystore_view k =
     [(''ro.hardware.fingerprint'', ''cyber_fp''),
      (''ro.hardware.keystore'', ''cyber_keymint''),
      (''ro.hardware.gatekeeper'', ''cyber_gatekeeper''),
      (''persist.sys.fingerprint.enrolled'', ''true''),
      (''vendor.security.keystore2.status'', ''ONLINE''),
      (''vendor.security.keymint.version'', ''3''),
      (''vendor.biometrics.fingerprint.status'', ''ONLINE'')]"

definition keystore_registerSystemProperties :: "keystore \<Rightarrow> sys \<Rightarrow> sys" where
  "keystore_registerSystemProperties k sys = set_props (keystore_view k) sys"

definition initialize_keystore :: "u64 \<Rightarrow> keystore \<Rightarrow> sys \<Rightarrow> string \<Rightarrow> bool \<times> keystore \<times> sys" where
  "initialize_keystore now k sys dir =
     (if ksInitialized k then (True, k, sys)
      else
        let k = k\<lparr>ksSandboxDir := dir\<rparr>;
            sys = keystore_nodes k sys;
            k = seedDefaultKeysAndTemplates now k;
            sys = keystore_registerSystemProperties k sys
        in (True, k\<lparr>ksInitialized := True, ksBiometricsEnabled := True\<rparr>, sys))"

definition shutdown_keystore :: "keystore \<Rightarrow> keystore" where
  "shutdown_keystore k =
     (if \<not> ksInitialized k then k else k\<lparr>ksKeys := [], ksFingers := [], ksInitialized := False\<rparr>)"

section \<open>Keys and fingerprints\<close>

definition generateKey :: "u64 \<Rightarrow> keystore \<Rightarrow> string \<Rightarrow> string \<Rightarrow> int \<Rightarrow> bool \<Rightarrow> bool \<times> keystore" where
  "generateKey now k alias algorithm sizeBits authRequired =
     (True, put_key now alias algorithm sizeBits authRequired k)"

definition deleteKey :: "keystore \<Rightarrow> string \<Rightarrow> bool \<times> keystore" where
  "deleteKey k alias =
     (if map_of (ksKeys k) alias \<noteq> None then (True, k\<lparr>ksKeys := AList.delete alias (ksKeys k)\<rparr>) else (False, k))"

definition enrolled_key :: string where
  "enrolled_key = ''persist.sys.fingerprint.enrolled''"

definition enrollFingerprint :: "u64 \<Rightarrow> keystore \<Rightarrow> sys \<Rightarrow> int \<Rightarrow> string \<Rightarrow> bool \<times> keystore \<times> sys" where
  "enrollFingerprint now k sys i name =
     (if \<not> ksBiometricsEnabled k then (False, k, sys)
      else (True, put_finger now i name k, set_props [(enrolled_key, ''true'')] sys))"

definition removeFingerprint :: "keystore \<Rightarrow> sys \<Rightarrow> int \<Rightarrow> bool \<times> keystore \<times> sys" where
  "removeFingerprint k sys i =
     (if map_of (ksFingers k) i \<noteq> None then
        let k = k\<lparr>ksFingers := AList.delete i (ksFingers k)\<rparr>;
            sys = (if ksFingers k = [] then set_props [(enrolled_key, ''false'')] sys else sys)
        in (True, k, sys)
      else (False, k, sys))"

definition auth_result :: "bool \<Rightarrow> int \<Rightarrow> string \<Rightarrow> u64 \<Rightarrow> BiometricAuthResult" where
  "auth_result ok i msg now = \<lparr>baSuccess = ok, baFingerId = i, baMessage = msg, baTimestamp = now\<rparr>"

definition authenticateFingerprint :: "u64 \<Rightarrow> keystore \<Rightarrow> bool \<Rightarrow> BiometricAuthResult \<times> keystore" where
  "authenticateFingerprint now k shouldMatch =
     (if \<not> ksBiometricsEnabled k
      then (auth_result False 0 ''ERROR: Biometric sensor is OFFLINE / DISABLED.'' now, k)
      else
        let k = k\<lparr>ksAuthAttempts := ksAuthAttempts k + 1\<rparr> in
        case sort_key fst (ksFingers k) of
          [] \<Rightarrow> (auth_result False 0 ''REJECTED: No fingerprint templates enrolled.'' now, k)
        | (i, t) # _ \<Rightarrow>
            if shouldMatch then
              (auth_result True i (''AUTHENTICATED: Match Finger #'' @ dec_int i @ '' ('' @ fpName t @ '') [HAT Token Valid]'') now,
               k\<lparr>ksAuthSuccesses := ksAuthSuccesses k + 1\<rparr>)
            else (auth_result False 0 ''REJECTED: Fingerprint not recognized (FPR Reject / Sensor Retry)'' now, k))"

definition toggleBiometrics :: "keystore \<Rightarrow> sys \<Rightarrow> bool \<Rightarrow> keystore \<times> sys" where
  "toggleBiometrics k sys enabled =
     (k\<lparr>ksBiometricsEnabled := enabled\<rparr>,
      set_props [(''vendor.biometrics.fingerprint.status'', if enabled then ''ONLINE'' else ''OFFLINE'')] sys)"

definition key_line :: "string \<times> VirtualKeyEntry \<Rightarrow> string" where
  "key_line = (\<lambda>(alias, e). oline (''  * ['' @ alias @ ''] '' @ keAlgorithm e @ '' ('' @ dec_int (keSizeBits e)
     @ ''b)'' @ (if keAuthRequired e then '' [UserAuthReq]'' else [])))"

definition finger_line :: "int \<times> FingerprintTemplate \<Rightarrow> string" where
  "finger_line = (\<lambda>(i, t). oline (''  * Finger #'' @ dec_int i @ '': '' @ fpName t))"

definition getKeystoreStatsString :: "keystore \<Rightarrow> string" where
  "getKeystoreStatsString k =
     oline ''=== VIRTUAL KEYMINT & BIOMETRICS SUBSYSTEM ===''
     @ oline ''KeyMint Engine: ONLINE (KeyMint v3 / Keystore2 Virtual Provider)''
     @ oline (''Biometrics HAL: '' @ (if ksBiometricsEnabled k then ''ONLINE (Active)'' else ''OFFLINE (Disabled)''))
     @ oline (''Active Keystore Keys ('' @ dec (length (ksKeys k)) @ ''):'')
     @ concat (map key_line (sort_key fst (ksKeys k)))
     @ oline (''Enrolled Biometric Fingers ('' @ dec (length (ksFingers k)) @ ''):'')
     @ concat (map finger_line (sort_key fst (ksFingers k)))
     @ oline (''Biometric Auth Metrics: '' @ dec (unat (ksAuthSuccesses k)) @ ''/'' @ dec (unat (ksAuthAttempts k))
         @ '' Successful Recognitions'')
     @ ''Virtual Node: '' @ ksSandboxDir k @ ''/tmp/dev_fingerprint.raw''"

section \<open>The property tells whether a template is enrolled\<close>

interpretation keystore: publisher keystore_view
  by unfold_locales (simp add: keystore_view_def)

text \<open>The steps of the clients of an initialized bridge, and the states they reach.\<close>

inductive ks_step :: "keystore \<times> sys \<Rightarrow> keystore \<times> sys \<Rightarrow> bool" where
  generate: "ks_step (k, sys) (snd (generateKey now k alias alg bits auth), sys)"
| delete: "ks_step (k, sys) (snd (deleteKey k alias), sys)"
| enroll: "ks_step (k, sys) (snd (enrollFingerprint now k sys i name))"
| remove: "ks_step (k, sys) (snd (removeFingerprint k sys i))"
| authenticate: "ks_step (k, sys) (snd (authenticateFingerprint now k m), sys)"
| toggle: "ks_step (k, sys) (toggleBiometrics k sys e)"
| reinitialize: "ks_step (k, sys) (snd (initialize_keystore now k sys dir))"

inductive ks_reachable :: "keystore \<times> sys \<Rightarrow> bool" where
  start: "ks_reachable (snd (initialize_keystore now keystore_new sys dir))"
| step: "ks_reachable c \<Longrightarrow> ks_step c c' \<Longrightarrow> ks_reachable c'"

definition ks_ok :: "keystore \<times> sys \<Rightarrow> bool" where
  "ks_ok c \<longleftrightarrow> ksInitialized (fst c) \<and> distinct (map fst (ksFingers (fst c)))
     \<and> (\<forall>(i, t) \<in> set (ksFingers (fst c)). fpFingerId t = i)
     \<and> find_prop (fst (snd c)) enrolled_key = Some (true_text (ksFingers (fst c) \<noteq> []))"

lemma put_key_fingers [simp]: "ksFingers (put_key now a g s u k) = ksFingers k" "ksInitialized (put_key now a g s u k) = ksInitialized k"
  by (simp_all add: put_key_def)

lemma update_not_Nil [simp]: "AList.update k v xs \<noteq> []"
  by (cases xs) auto

lemma in_update: "x \<in> set (AList.update k v xs) \<Longrightarrow> x = (k, v) \<or> x \<in> set xs"
  by (induction xs) (auto split: if_splits)

lemma ks_start: "ks_ok (snd (initialize_keystore now keystore_new sys dir))"
proof -
  have "find_prop (fst (set_props (keystore_view k) s)) enrolled_key = Some ''true''" for k s
    by (rule keystore.published) (simp add: keystore_view_def enrolled_key_def)
  then show ?thesis
    by (simp add: ks_ok_def initialize_keystore_def keystore_new_def keystore_registerSystemProperties_def Let_def
      seedDefaultKeysAndTemplates_def put_finger_def true_text_def)
qed

lemma ks_step_ok:
  assumes "ks_step c c'" "ks_ok c"
  shows "ks_ok c'"
  using assms
proof (induction rule: ks_step.induct)
  case (enroll k sys now i name)
  then show ?case
    by (auto simp: ks_ok_def enrollFingerprint_def put_finger_def setProperty_look true_text_def distinct_update
      dest: in_update)
qed (auto simp: ks_ok_def generateKey_def deleteKey_def removeFingerprint_def authenticateFingerprint_def
      toggleBiometrics_def initialize_keystore_def setProperty_look true_text_def enrolled_key_def Let_def
      distinct_delete AList.delete_eq distinct_map_filter split: list.splits prod.splits)

lemma ks_reachable_ok: "ks_reachable c \<Longrightarrow> ks_ok c"
  by (induction rule: ks_reachable.induct) (auto intro: ks_start ks_step_ok)

text \<open>C29: In every state the clients of an initialized bridge reach, the property
  \<^verbatim>\<open>persist.sys.fingerprint.enrolled\<close> is \<^verbatim>\<open>true\<close> exactly when a template is
  enrolled, and an authentication succeeds exactly when the sensor is enabled, the finger matches and
  a template is enrolled; the finger it names is then the enrolled one with the smallest number.\<close>

theorem fingerprint_property_agrees:
  assumes "ks_reachable (k, sys)"
  shows "find_prop (fst sys) ''persist.sys.fingerprint.enrolled'' = Some (true_text (ksFingers k \<noteq> []))
    \<and> (baSuccess (fst (authenticateFingerprint now k m)) \<longleftrightarrow> ksBiometricsEnabled k \<and> m \<and> ksFingers k \<noteq> [])
    \<and> (baSuccess (fst (authenticateFingerprint now k m)) \<longrightarrow>
         baFingerId (fst (authenticateFingerprint now k m)) = Min (fst ` set (ksFingers k)))"
proof -
  have enr: "find_prop (fst sys) enrolled_key = Some (true_text (ksFingers k \<noteq> []))"
    using ks_reachable_ok [OF assms] by (simp add: ks_ok_def)
  show ?thesis
  proof (cases "sort_key fst (ksFingers k)")
    case Nil
    then have "ksFingers k = []"
      by (metis length_0_conv length_sort)
    then show ?thesis
      using enr by (simp add: enrolled_key_def authenticateFingerprint_def auth_result_def)
  next
    case (Cons f fs)
    have ne: "ksFingers k \<noteq> []"
      using Cons by auto
    have "sorted (map fst (f # fs))" "set (f # fs) = set (ksFingers k)"
      using Cons sorted_sort_key [of fst "ksFingers k"] set_sort [of fst "ksFingers k"] by simp_all
    then have "Min (fst ` set (ksFingers k)) = fst f"
      by (intro Min_eqI) (auto simp flip: \<open>set (f # fs) = set (ksFingers k)\<close>)
    then show ?thesis
      using enr ne Cons
      by (simp add: enrolled_key_def authenticateFingerprint_def auth_result_def Let_def split: prod.splits)
  qed
qed

theorem fingerprint_property_agrees_witness:
  "baFingerId (fst (authenticateFingerprint 9 (fst (snd (initialize_keystore 7 keystore_new (prop_service_init, empty_host) ''/sb''))) True)) = 1"
proof -
  let ?c = "snd (initialize_keystore 7 keystore_new (prop_service_init, empty_host) ''/sb'')"
  have "ks_reachable (fst ?c, snd ?c)"
    using ks_reachable.start [of 7 "(prop_service_init, empty_host)" "''/sb''"] by simp
  note r = fingerprint_property_agrees [OF this, of 9 True]
  have "ksFingers (fst ?c) \<noteq> []" "ksBiometricsEnabled (fst ?c)" "fst ` set (ksFingers (fst ?c)) = {1, 2, 3}"
    by (auto simp: initialize_keystore_def keystore_new_def Let_def seedDefaultKeysAndTemplates_def put_finger_def put_key_def)
  then show ?thesis
    using r by simp
qed

text \<open>The shutdown forgets the templates and leaves the property on \<^verbatim>\<open>true\<close>; no step of the bridge repairs it before the next start.\<close>

lemma shutdown_leaves_property:
  assumes "ks_reachable (k, sys)" "ksFingers k \<noteq> []"
  shows "ksFingers (shutdown_keystore k) = [] \<and> find_prop (fst sys) enrolled_key = Some ''true''"
  using ks_reachable_ok [OF assms(1)] assms(2) by (simp add: ks_ok_def shutdown_keystore_def true_text_def)

end
