(* ===== verification/Network_Bridge.thy ===== *)
theory Network_Bridge
  imports Bridge_Common
begin

text \<open>
  The network bridge of \<^verbatim>\<open>network_bridge.cpp\<close>: the resolver files, the published
  properties, the socket of the virtual \<^verbatim>\<open>netd\<close>, the answer to its clients and the
  report of a connectivity test. The results of the socket calls and of the resolver are parameters,
  and so are durations with their sum and their printed form.
\<close>

record network =
  nbSandboxDir :: string
  nbPrimaryDns :: string
  nbSecondaryDns :: string
  nbIpv6Dns :: string
  nbHostname :: string
  nbNetdSocketPath :: string
  nbServerOpen :: bool
  nbIsRunning :: bool
  nbQueryCounter :: u64

definition network_new :: network where
  "network_new = \<lparr>nbSandboxDir = [], nbPrimaryDns = ''8.8.8.8'', nbSecondaryDns = ''1.1.1.1'',
     nbIpv6Dns = ''2001:4860:4860::8888'', nbHostname = ''android-gsi'', nbNetdSocketPath = [],
     nbServerOpen = False, nbIsRunning = False, nbQueryCounter = 0\<rparr>"

section \<open>Files and properties\<close>

definition resolv_text :: "network \<Rightarrow> string" where
  "resolv_text n =
     oline ''# Generated by GSI Virtual Network Bridge''
     @ oline (''nameserver '' @ nbPrimaryDns n)
     @ oline (''nameserver '' @ nbSecondaryDns n)
     @ oline (''nameserver '' @ nbIpv6Dns n)
     @ oline ''options timeout:2 attempts:3 rotate''"

definition hosts_text :: "network \<Rightarrow> string" where
  "hosts_text n =
     oline ''127.0.0.1       localhost''
     @ oline ''::1             localhost ip6-localhost ip6-loopback''
     @ oline (''127.0.0.1       '' @ nbHostname n)"

definition sys_provision :: "string \<Rightarrow> string \<Rightarrow> sys \<Rightarrow> sys" where
  "sys_provision p text sys =
     (let (ok, s, h) = sys_write p 438 text sys in if ok then (s, host_chmod h p 420) else (s, h))"

definition provisionFiles :: "network \<Rightarrow> sys \<Rightarrow> sys" where
  "provisionFiles n sys =
     (let etc = nbSandboxDir n @ ''/etc'';
          sys = sys_mkdir etc 493 sys;
          sys = sys_provision (etc @ ''/resolv.conf'') (resolv_text n) sys
      in sys_provision (etc @ ''/hosts'') (hosts_text n) sys)"

definition network_view :: "network \<Rightarrow> (string \<times> string) list" where
  "network_view n =
     [(''net.dns1'', nbPrimaryDns n),
      (''net.dns2'', nbSecondaryDns n),
      (''net.dns3'', nbIpv6Dns n),
      (''net.change'', ''1''),
      (''net.hostname'', nbHostname n),
      (''net.gsi.status'', ''online''),
      (''net.gsi.bridge'', ''passthrough''),
      (''net.tcp.buffersize.default'', ''4096,87380,110208,4096,16384,110208''),
      (''net.tcp.buffersize.wifi'', ''524288,1048576,2097152,262144,524288,1048576'')]"

definition network_registerSystemProperties :: "network \<Rightarrow> sys \<Rightarrow> sys" where
  "network_registerSystemProperties n sys = set_props (network_view n) sys"

section \<open>Start and stop\<close>

definition initialize_network ::
  "bool \<Rightarrow> bool \<Rightarrow> bool \<Rightarrow> network \<Rightarrow> sys \<Rightarrow> string \<Rightarrow> string \<Rightarrow> string \<Rightarrow> bool \<times> network \<times> sys" where
  "initialize_network socket_ok bind_ok listen_ok n sys dir primary secondary =
     (if nbIsRunning n then (True, n, sys)
      else
        let n = n\<lparr>nbSandboxDir := dir,
                  nbPrimaryDns := (if primary \<noteq> [] then primary else nbPrimaryDns n),
                  nbSecondaryDns := (if secondary \<noteq> [] then secondary else nbSecondaryDns n)\<rparr>;
            sys = network_registerSystemProperties n (provisionFiles n sys);
            (s, h) = sys_mkdir (dir @ ''/dev/socket'') 493 sys;
            p = dir @ ''/dev/socket/netd'';
            n = n\<lparr>nbNetdSocketPath := p\<rparr>;
            h = host_unlink h p
        in if \<not> socket_ok then (False, n\<lparr>nbServerOpen := False\<rparr>, s, h)
           else if \<not> bind_ok then (False, n\<lparr>nbServerOpen := False\<rparr>, s, h)
           else
             let h = bind_node h p in
             if \<not> listen_ok then (False, n\<lparr>nbServerOpen := False\<rparr>, s, h)
             else (True, n\<lparr>nbServerOpen := True, nbIsRunning := True\<rparr>, s, host_chmod h p 438))"

definition shutdown_network :: "network \<Rightarrow> host \<Rightarrow> network \<times> host" where
  "shutdown_network n h =
     (if \<not> nbIsRunning n then (n, h)
      else (n\<lparr>nbIsRunning := False, nbServerOpen := False\<rparr>,
            if nbNetdSocketPath n \<noteq> [] then host_unlink h (nbNetdSocketPath n) else h))"

section \<open>The clients of netd\<close>

text \<open>The command is converted from a C string, so it ends at the first zero byte.\<close>

definition netd_command :: "u8 list \<Rightarrow> string" where
  "netd_command buf = bytes_to_string (takeWhile (\<lambda>b. b \<noteq> 0) buf)"

definition netd_response :: "string \<Rightarrow> string" where
  "netd_response cmd =
     (if has_substr ''ping'' cmd then oline ''200 0 PONG''
      else if has_substr ''getaddrinfo'' cmd \<or> has_substr ''resolver'' cmd then oline ''200 0 Command succeeded''
      else oline ''200 0 Command succeeded'')"

definition handleNetdClient :: "u8 list \<Rightarrow> network \<Rightarrow> network \<times> string" where
  "handleNetdClient sent n =
     (let buf = take 1023 sent in
      if buf \<noteq> [] then (n\<lparr>nbQueryCounter := nbQueryCounter n + 1\<rparr>, netd_response (netd_command buf))
      else (n, []))"

definition netdWorkerLoop :: "u8 list list \<Rightarrow> network \<Rightarrow> network \<times> string list" where
  "netdWorkerLoop clients n =
     foldl (\<lambda>(n, out) sent. if nbIsRunning n then (case handleNetdClient sent n of (n', r) \<Rightarrow> (n', out @ [r])) else (n, out))
       (n, []) clients"

section \<open>The connectivity test\<close>

text \<open>
  What the calls of the test return: the resolver an error text or the printed address; the socket an
  error text or success; the connect success, an error text, or the state in which the code polls, and
  then a time-out, or the error the socket reports, where none is success.
\<close>

datatype connect_result = Connected | Refused string | TimedOut | Polled "string option"

record 'd test_net =
  tnResolved :: "string + string"
  tnDnsMs :: 'd
  tnSocket :: "string option"
  tnConnect :: connect_result
  tnTimedOutText :: string
  tnTcpMs :: 'd

fun connect_error :: "string \<Rightarrow> connect_result \<Rightarrow> string option" where
  "connect_error timeout Connected = None"
| "connect_error timeout (Refused e) = Some e"
| "connect_error timeout TimedOut = Some timeout"
| "connect_error timeout (Polled e) = e"

definition testConnectivity :: "('d \<Rightarrow> 'd \<Rightarrow> 'd) \<Rightarrow> ('d \<Rightarrow> string) \<Rightarrow> 'd test_net \<Rightarrow> string \<Rightarrow> int \<Rightarrow> string" where
  "testConnectivity dplus fmt1 net h port =
     oline (''[NET BRIDGE TEST] Host: '' @ h @ '':'' @ dec_int port)
     @ (case tnResolved net of
          Inl e \<Rightarrow> oline (''[-] DNS Lookup FAILED: '' @ e) @ ''    Status: OFFLINE (DNS resolution error)''
        | Inr ip \<Rightarrow>
            oline (''[+] DNS Resolved: '' @ ip @ '' in '' @ fmt1 (tnDnsMs net) @ '' ms'')
            @ (case tnSocket net of
                 Some e \<Rightarrow> oline (''[-] Socket creation failed: '' @ e)
               | None \<Rightarrow>
                   (case connect_error (tnTimedOutText net) (tnConnect net) of
                      None \<Rightarrow>
                        oline (''[+] TCP Handshake: SUCCESS in '' @ fmt1 (tnTcpMs net) @ '' ms'')
                        @ oline ''[+] Socket Layer: Direct Unprivileged Passthrough ACTIVE''
                        @ ''[+] Overall Status: ONLINE (RTT: '' @ fmt1 (dplus (tnDnsMs net) (tnTcpMs net)) @ '' ms)''
                    | Some e \<Rightarrow>
                        oline (''[-] TCP Handshake FAILED ('' @ e @ '') in '' @ fmt1 (tnTcpMs net) @ '' ms'')
                        @ ''    Status: DNS OK, TCP BLOCKED'')))"

definition getNetworkStatsString :: "network \<Rightarrow> string" where
  "getNetworkStatsString n =
     ''Virtual Netd: '' @ (if nbIsRunning n then ''ACTIVE'' else ''STOPPED'') @ '' | DNS1: '' @ nbPrimaryDns n
     @ '' | DNS2: '' @ nbSecondaryDns n @ '' | Queries Handled: '' @ dec (unat (nbQueryCounter n))"

record NetworkStats =
  nsPrimaryDns :: string
  nsSecondaryDns :: string
  nsIpv6Dns :: string
  nsHostname :: string
  nsIsNetdRunning :: bool
  nsTotalQueries :: u64

definition network_getStats :: "network \<Rightarrow> NetworkStats" where
  "network_getStats n =
     \<lparr>nsPrimaryDns = nbPrimaryDns n, nsSecondaryDns = nbSecondaryDns n, nsIpv6Dns = nbIpv6Dns n,
      nsHostname = nbHostname n, nsIsNetdRunning = nbIsRunning n, nsTotalQueries = nbQueryCounter n\<rparr>"

section \<open>Correctness\<close>

interpretation network: publisher network_view
  by unfold_locales (simp add: network_view_def)

text \<open>Every client that sends a byte is answered and counted; one that sends none is neither.\<close>

lemma handleNetdClient_answers:
  "sent \<noteq> [] \<Longrightarrow> snd (handleNetdClient sent n) \<noteq> [] \<and> nbQueryCounter (fst (handleNetdClient sent n)) = nbQueryCounter n + 1"
  "handleNetdClient [] n = (n, [])"
  by (auto simp: handleNetdClient_def netd_response_def oline_def Let_def)

text \<open>A report ends with one of its four verdicts, decided by the first phase that fails.\<close>

lemma testConnectivity_online:
  "tnResolved net = Inr ip \<Longrightarrow> tnSocket net = None \<Longrightarrow> tnConnect net \<in> {Connected, Polled None} \<Longrightarrow>
   suffix (''ONLINE (RTT: '' @ fmt1 (dplus (tnDnsMs net) (tnTcpMs net)) @ '' ms)'') (testConnectivity dplus fmt1 net h port)"
  by (auto simp: testConnectivity_def suffix_def oline_def)

text \<open>A stopped bridge starts again, and while it runs its socket stands at the path clients are sent to.\<close>

lemma bind_chmod_sock:
  "length p \<le> 107 \<Longrightarrow> hNodes (host_chmod (bind_node h p) p m) p = Some (Sock m)"
  by (simp add: bind_node_def host_chmod_def)

lemma network_listens:
  assumes "\<not> nbIsRunning n" "length (dir @ ''/dev/socket/netd'') \<le> 107"
  shows "hNodes (snd (snd (snd (initialize_network True True True n sys dir p s)))) (dir @ ''/dev/socket/netd'') = Some (Sock 438)
    \<and> nbIsRunning (fst (snd (initialize_network True True True n sys dir p s)))"
  using assms bind_chmod_sock [OF assms(2)] by (simp add: initialize_network_def Let_def split: prod.splits)

lemma network_dns_published:
  assumes "\<not> nbIsRunning n" "primary \<noteq> []"
  shows "find_prop (fst (snd (snd (initialize_network so bo lo n sys dir primary secondary)))) ''net.dns1'' = Some primary"
proof -
  define m where "m = n\<lparr>nbSandboxDir := dir, nbPrimaryDns := (if primary \<noteq> [] then primary else nbPrimaryDns n),
    nbSecondaryDns := (if secondary \<noteq> [] then secondary else nbSecondaryDns n)\<rparr>"
  have e: "fst (snd (snd (initialize_network so bo lo n sys dir primary secondary))) =
      fst (set_props (network_view m) (provisionFiles m sys))"
    using assms(1)
    by (simp add: initialize_network_def network_registerSystemProperties_def Let_def sys_mkdir_def flip: m_def)
  have "find_prop (fst (set_props (network_view m) (provisionFiles m sys))) ''net.dns1'' = Some (nbPrimaryDns m)"
    by (rule network.published) (simp add: network_view_def)
  then show ?thesis
    unfolding e using assms(2) by (simp add: m_def)
qed

end
