(* ===== verification/Extractor.thy ===== *)
theory Extractor
  imports Ext4_Reader Bridge_Common
begin

text \<open>
  Copying files out of the image into the sandbox: the recursive extraction of
  \<^verbatim>\<open>gsi_extractor.cpp\<close> and the directories, hook library and single binaries of
  \<^verbatim>\<open>sandbox_manager.cpp\<close>. The host is the map from paths to nodes of \<open>Host_Files\<close>; a
  write to an opened file is complete. The calls of the progress callback are a list of events.
\<close>

record ExtractionResult =
  exSuccess :: bool
  exFiles :: int
  exDirs :: int
  exBytes :: u64
  exSummary :: string

definition no_result :: ExtractionResult where
  "no_result = \<lparr>exSuccess = False, exFiles = 0, exDirs = 0, exBytes = 0, exSummary = []\<rparr>"

type_synonym progress = "(int \<times> string) list"

section \<open>Single files\<close>

definition ensureDir :: "string \<Rightarrow> nat \<Rightarrow> host \<Rightarrow> bool \<times> host" where
  "ensureDir p mode h =
     (if host_exists h p then (is_dir (hNodes h p), h)
      else (True, foldl (\<lambda>h q. fst (host_mkdir h q mode)) h (mkdir_prefixes False p)))"

definition extractSingleFile :: "reader \<Rightarrow> nat \<Rightarrow> string \<Rightarrow> string \<Rightarrow> nat \<Rightarrow> host \<Rightarrow> fault + (bool \<times> host)" where
  "extractSingleFile r stk vfs dst mode h =
     bnd (readFile r stk vfs) (\<lambda>d.
       case d of
         None \<Rightarrow> Inr (False, h)
       | Some bs \<Rightarrow>
           if bs = [] then Inr (False, h)
           else (case host_write h dst mode (bytes_to_string bs) of (h, ok) \<Rightarrow>
             if \<not> ok then Inr (False, h) else Inr (True, host_chmod h dst mode)))"

section \<open>Directories\<close>

definition sub_path :: "string \<Rightarrow> string \<Rightarrow> string" where
  "sub_path dir name = (if dir = ''/'' then ''/'' @ name else dir @ ''/'' @ name)"

definition is_executable_dir :: "string \<Rightarrow> bool" where
  "is_executable_dir vfs \<longleftrightarrow> has_substr ''/bin'' vfs \<or> has_substr ''/xbin'' vfs"

type_synonym extraction = "ExtractionResult \<times> host \<times> progress"

text \<open>
  The loop over the entries of one directory; \<open>sub\<close> is the call for a sub-directory, with its image
  path and its host path, and \<open>cb\<close> tells whether there is a callback.
\<close>

fun extract_loop ::
  "(string \<Rightarrow> string \<Rightarrow> host \<Rightarrow> fault + extraction) \<Rightarrow> reader \<Rightarrow> nat \<Rightarrow> bool \<Rightarrow> string \<Rightarrow> string
    \<Rightarrow> FsFileEntry list \<Rightarrow> extraction \<Rightarrow> fault + extraction" where
  "extract_loop sub r stk cb vfs dst [] acc = Inr acc"
| "extract_loop sub r stk cb vfs dst (e # es) (res, h, tr) =
     (if feName e = ''.'' \<or> feName e = ''..'' then extract_loop sub r stk cb vfs dst es (res, h, tr)
      else
        let subVfs = sub_path vfs (feName e); subHost = dst @ ''/'' @ feName e in
        if feIsDirectory e then
          bnd (sub subVfs subHost h) (\<lambda>(s, h, tr').
            extract_loop sub r stk cb vfs dst es
              (res\<lparr>exFiles := exFiles res + exFiles s, exDirs := exDirs res + 1 + exDirs s,
                   exBytes := exBytes res + exBytes s\<rparr>, h, tr @ tr'))
        else
          bnd (extractSingleFile r stk subVfs subHost (if is_executable_dir vfs then 493 else 420) h) (\<lambda>(ok, h).
            if ok then
              extract_loop sub r stk cb vfs dst es
                (res\<lparr>exFiles := exFiles res + 1, exBytes := exBytes res + feSize e\<rparr>, h,
                 if cb then tr @ [(exFiles res + 1, subVfs)] else tr)
            else extract_loop sub r stk cb vfs dst es (res, h, tr)))"

text \<open>The number counts the levels that may still be entered.\<close>

primrec extract_dir :: "nat \<Rightarrow> reader \<Rightarrow> nat \<Rightarrow> bool \<Rightarrow> string \<Rightarrow> string \<Rightarrow> host \<Rightarrow> fault + extraction" where
  "extract_dir 0 r stk cb vfs dst h = Inr (no_result, h, [])"
| "extract_dir (Suc d) r stk cb vfs dst h =
     (let h = snd (ensureDir dst 509 h) in
      bnd (listDirectory r stk vfs) (\<lambda>l.
        case l of
          None \<Rightarrow> Inr (no_result, h, [])
        | Some es \<Rightarrow>
            bnd (extract_loop (extract_dir d r stk cb) r stk cb vfs dst es (no_result, h, [])) (\<lambda>(res, h, tr).
              Inr (res\<lparr>exSuccess := exFiles res > 0\<rparr>, h, tr))))"

definition extractDirectoryRecursive ::
  "reader \<Rightarrow> nat \<Rightarrow> bool \<Rightarrow> string \<Rightarrow> string \<Rightarrow> int \<Rightarrow> host \<Rightarrow> fault + extraction" where
  "extractDirectoryRecursive r stk cb vfs dst maxDepth h = extract_dir (nat (maxDepth + 1)) r stk cb vfs dst h"

section \<open>The essential system\<close>

definition vitalBinaries :: "string list" where
  "vitalBinaries = [''toybox'', ''sh'', ''toolbox'', ''linker64'', ''linker'']"

fun mirror_binaries :: "reader \<Rightarrow> nat \<Rightarrow> string \<Rightarrow> string list \<Rightarrow> host \<Rightarrow> fault + host" where
  "mirror_binaries r stk dir [] h = Inr h"
| "mirror_binaries r stk dir (b # bs) h =
     (let dst = dir @ ''/bin/'' @ b in
      if host_exists h (dir @ ''/system/bin/'' @ b) \<and> \<not> host_exists h dst
      then bnd (extractSingleFile r stk (''/system/bin/'' @ b) dst 493 h) (\<lambda>(_, h). mirror_binaries r stk dir bs h)
      else mirror_binaries r stk dir bs h)"

definition add_result :: "ExtractionResult \<Rightarrow> ExtractionResult \<Rightarrow> ExtractionResult" where
  "add_result a b = a\<lparr>exFiles := exFiles a + exFiles b, exDirs := exDirs a + exDirs b, exBytes := exBytes a + exBytes b\<rparr>"

text \<open>\<open>mb\<close> prints a number of bytes as megabytes in double precision.\<close>

definition extract_summary :: "(u64 \<Rightarrow> string) \<Rightarrow> string \<Rightarrow> ExtractionResult \<Rightarrow> string" where
  "extract_summary mb dir res =
     ''Extracted '' @ dec_int (exFiles res) @ '' essential GSI files ('' @ dec_int (exDirs res) @ '' directories, ''
     @ mb (exBytes res) @ '' MB) to '' @ dir @ ''/system''"

definition essential_dirs :: "string \<Rightarrow> host \<Rightarrow> host" where
  "essential_dirs dir h =
     foldl (\<lambda>h d. snd (ensureDir (dir @ d) 509 h)) h
       [''/system/bin'', ''/system/etc/init'', ''/system/lib64'', ''/bin'', ''/etc'', ''/lib64'']"

definition extractEssentialSystem ::
  "(u64 \<Rightarrow> string) \<Rightarrow> reader \<Rightarrow> nat \<Rightarrow> bool \<Rightarrow> string \<Rightarrow> host \<Rightarrow> fault + extraction" where
  "extractEssentialSystem mb r stk cb dir h =
     bnd (extractDirectoryRecursive r stk cb ''/system/bin'' (dir @ ''/system/bin'') 1 (essential_dirs dir h)) (\<lambda>(bin, h, tr).
     bnd (if \<not> exSuccess bin
          then bnd (extractDirectoryRecursive r stk cb ''/bin'' (dir @ ''/system/bin'') 1 h) (\<lambda>(bin, h, tr'). Inr (bin, h, tr @ tr'))
          else Inr (bin, h, tr)) (\<lambda>(bin, h, tr).
     bnd (mirror_binaries r stk dir vitalBinaries h) (\<lambda>h.
     bnd (extractDirectoryRecursive r stk cb ''/system/etc/init'' (dir @ ''/system/etc/init'') 1 h) (\<lambda>(ini, h, tr2).
     bnd (extractSingleFile r stk ''/system/build.prop'' (dir @ ''/system/build.prop'') 420 h) (\<lambda>(b1, h).
     bnd (extractSingleFile r stk ''/system/etc/init.rc'' (dir @ ''/system/etc/init.rc'') 420 h) (\<lambda>(b2, h).
     bnd (extractDirectoryRecursive r stk cb ''/system/lib64'' (dir @ ''/system/lib64'') 1 h) (\<lambda>(lib, h, tr3).
       let o1 = add_result (add_result no_result bin) ini;
           o2 = o1\<lparr>exFiles := exFiles o1 + (if b1 then 1 else 0) + (if b2 then 1 else 0)\<rparr>;
           o3 = add_result o2 lib;
           o4 = o3\<lparr>exSuccess := exFiles o3 > 0\<rparr>
       in Inr (o4\<lparr>exSummary := extract_summary mb dir o4\<rparr>, h, tr @ tr2 @ tr3))))))))"

section \<open>The sandbox manager\<close>

record sandbox =
  sbBasePath :: string
  sbBinDir :: string
  sbLibDir :: string
  sbDataDir :: string
  sbTmpDir :: string

definition createDirIfNotExists :: "string \<Rightarrow> host \<Rightarrow> bool \<times> host" where
  "createDirIfNotExists p h =
     (if host_exists h p then (is_dir (hNodes h p), h)
      else (case host_mkdir h p 493 of (h, ok) \<Rightarrow> (ok, h)))"

fun create_dirs :: "string list \<Rightarrow> host \<Rightarrow> bool \<times> host" where
  "create_dirs [] h = (True, h)"
| "create_dirs (p # ps) h = (case createDirIfNotExists p h of (ok, h) \<Rightarrow> if ok then create_dirs ps h else (False, h))"

definition initializeSandbox :: "string \<Rightarrow> host \<Rightarrow> bool \<times> sandbox \<times> host" where
  "initializeSandbox base h =
     (let s = \<lparr>sbBasePath = base, sbBinDir = base @ ''/bin'', sbLibDir = base @ ''/lib64'',
              sbDataDir = base @ ''/data'', sbTmpDir = base @ ''/tmp''\<rparr>;
          (ok, h) = create_dirs [sbBasePath s, sbBinDir s, sbLibDir s, sbDataDir s, sbTmpDir s] h
      in (ok, s, h))"

text \<open>The copy moves blocks of 4096 bytes until the source is read.\<close>

function copy_blocks :: "string \<Rightarrow> string" where
  "copy_blocks src = (if src = [] then [] else take 4096 src @ copy_blocks (drop 4096 src))"
  by pat_completeness auto
termination
  by (relation "measure length") auto

declare copy_blocks.simps [simp del]

text \<open>
  A directory opens for reading but yields no bytes, and so does the destination itself, which is cut
  before the first read.
\<close>

definition source_bytes :: "host \<Rightarrow> string \<Rightarrow> string \<Rightarrow> string option" where
  "source_bytes h src dst =
     (case hNodes h src of
        Some (File m c) \<Rightarrow> Some (if src = dst then [] else c)
      | Some (Dir m) \<Rightarrow> Some []
      | _ \<Rightarrow> None)"

definition deployHookLibrary :: "sandbox \<Rightarrow> string \<Rightarrow> host \<Rightarrow> bool \<times> host" where
  "deployHookLibrary s hostLibDir h =
     (let src = hostLibDir @ ''/libgsi_hook.so''; dst = sbLibDir s @ ''/libgsi_hook.so'' in
      case source_bytes h src dst of
        None \<Rightarrow> (False, h)
      | Some bytes \<Rightarrow>
          (case host_write h dst 493 (copy_blocks bytes) of (h, ok) \<Rightarrow>
             if \<not> ok then (False, h) else (True, host_chmod h dst 493)))"

definition extractBinaryFromVfs :: "sandbox \<Rightarrow> reader \<Rightarrow> nat \<Rightarrow> string \<Rightarrow> string \<Rightarrow> host \<Rightarrow> fault + (bool \<times> host)" where
  "extractBinaryFromVfs s r stk vfs target h = extractSingleFile r stk vfs (sbBinDir s @ ''/'' @ target) 493 h"

section \<open>Which paths an extraction touches\<close>

lemma in_mkdir_prefixes:
  "q \<in> set (mkdir_prefixes False p) \<longleftrightarrow>
     (\<exists>i < length p. (p ! i = CHR ''/'' \<or> i = length p - 1) \<and> q = norm_dir (take (Suc i) p))"
  by (auto simp: mkdir_prefixes_def)

lemma norm_dir_slash: "p \<noteq> [] \<Longrightarrow> norm_dir (p @ ''/'') = norm_dir p"
  by (cases p) (simp_all add: norm_dir_def Let_def)

lemma norm_dir_id: "p \<noteq> [] \<Longrightarrow> last p \<noteq> CHR ''/'' \<Longrightarrow> norm_dir p = p"
  by (cases p rule: rev_cases) (simp_all add: norm_dir_def Let_def)

lemma length_norm_dir: "length (norm_dir p) \<le> length p"
proof -
  have "length (dropWhile P xs) \<le> length xs" for P and xs :: string
    by (rule length_dropWhile_le)
  from this [of _ "rev p"] show ?thesis
    by (simp add: norm_dir_def Let_def)
qed

definition plain_name :: "string \<Rightarrow> bool" where
  "plain_name n \<longleftrightarrow> n \<noteq> [] \<and> CHR ''/'' \<notin> set n"

lemma mkdir_prefixes_child:
  assumes "dst \<noteq> []" "plain_name n" "q \<in> set (mkdir_prefixes False (dst @ ''/'' @ n))"
  shows "q = dst @ ''/'' @ n \<or> q \<in> set (mkdir_prefixes False dst)"
proof -
  let ?p = "dst @ ''/'' @ n"
  obtain i where i: "i < length ?p" "?p ! i = CHR ''/'' \<or> i = length ?p - 1" "q = norm_dir (take (Suc i) ?p)"
    using assms(3) by (auto simp: in_mkdir_prefixes)
  have n: "n \<noteq> []" "CHR ''/'' \<notin> set n" using assms(2) by (simp_all add: plain_name_def)
  consider "i < length dst" | "i = length dst" | "i > length dst" by linarith
  then show ?thesis
  proof cases
    case 1
    then have "dst ! i = CHR ''/''"
      using i(2) n(1) by (auto simp: nth_append)
    then show ?thesis using 1 i(3) by (auto simp: in_mkdir_prefixes)
  next
    case 2
    then have "q = norm_dir dst"
      using i(3) norm_dir_slash [OF assms(1)] by simp
    moreover have "norm_dir dst \<in> set (mkdir_prefixes False dst)"
      using assms(1) by (auto simp: in_mkdir_prefixes intro!: exI [of _ "length dst - 1"])
    ultimately show ?thesis by simp
  next
    case 3
    have "?p ! i = n ! (i - Suc (length dst))"
      using nth_append [of "dst @ ''/''" n i] 3 by simp
    moreover have "i - Suc (length dst) < length n"
      using i(1) 3 by simp
    ultimately have "?p ! i \<in> set n"
      by (simp only: nth_mem)
    then have "?p ! i \<noteq> CHR ''/''"
      using n(2) by metis
    then have "take (Suc i) ?p = ?p" using i(1,2) by simp
    moreover have "last ?p \<noteq> CHR ''/''"
    proof -
      have "last ?p = last n" using n(1) by simp
      then show ?thesis using n last_in_set [OF n(1)] by (simp only:) metis
    qed
    ultimately show ?thesis using i(3) norm_dir_id [of ?p] by simp
  qed
qed

text \<open>The part of the host an entry of a directory belongs to, and what handling the entry may touch.\<close>

definition entry_zone :: "string \<Rightarrow> string \<Rightarrow> string \<Rightarrow> bool" where
  "entry_zone dst n q \<longleftrightarrow> q = dst @ ''/'' @ n \<or> prefix (dst @ ''/'' @ n @ ''/'') q"

definition below :: "string \<Rightarrow> string \<Rightarrow> bool" where
  "below dst q \<longleftrightarrow> prefix (dst @ ''/'') q"

definition touches :: "string \<Rightarrow> string \<Rightarrow> bool" where
  "touches dst q \<longleftrightarrow> below dst q \<or> q \<in> set (mkdir_prefixes False dst)"

lemma slash_split:
  "CHR ''/'' \<notin> set m \<Longrightarrow> CHR ''/'' \<notin> set n \<Longrightarrow> m @ CHR ''/'' # x = n @ CHR ''/'' # y \<Longrightarrow> m = n"
proof (induction m arbitrary: n)
  case Nil
  then show ?case by (cases n) auto
next
  case (Cons c m)
  then show ?case by (cases n) auto
qed

lemma mkdir_prefixes_short: "q \<in> set (mkdir_prefixes False dst) \<Longrightarrow> length q \<le> length dst"
  by (metis mkdir_prefixes_prefix prefix_length_le)

lemma entry_zone_below: "entry_zone dst n q \<Longrightarrow> below dst q"
  by (auto simp: entry_zone_def below_def prefix_def)

lemma below_not_mkdir: "below dst q \<Longrightarrow> q \<notin> set (mkdir_prefixes False dst)"
  using mkdir_prefixes_short [of q dst] by (auto simp: below_def prefix_def)

lemma zone_untouched:
  assumes "dst \<noteq> []" "plain_name m" "plain_name n" "m \<noteq> n" "entry_zone dst m q"
  shows "q \<noteq> dst @ ''/'' @ n" and "\<not> touches (dst @ ''/'' @ n) q"
proof -
  have s: "CHR ''/'' \<notin> set m" "CHR ''/'' \<notin> set n" using assms(2,3) by (simp_all add: plain_name_def)
  show ne: "q \<noteq> dst @ ''/'' @ n"
    using assms(4,5) s by (auto simp: entry_zone_def prefix_def)
  have "\<not> prefix (dst @ ''/'' @ n @ ''/'') q"
  proof
    assume "prefix (dst @ ''/'' @ n @ ''/'') q"
    then obtain y where y: "q = dst @ CHR ''/'' # n @ CHR ''/'' # y"
      by (auto simp: prefix_def)
    then show False
      using assms(4,5) s slash_split [OF s(2,1)] by (auto simp: entry_zone_def prefix_def)
  qed
  moreover have "q \<notin> set (mkdir_prefixes False (dst @ ''/'' @ n))"
    using mkdir_prefixes_child [OF assms(1,3), of q] ne below_not_mkdir [OF entry_zone_below [OF assms(5)]] by metis
  ultimately show "\<not> touches (dst @ ''/'' @ n) q"
    by (simp add: touches_def below_def)
qed

lemma child_touches:
  assumes "dst \<noteq> []" "plain_name n"
  shows "touches dst (dst @ ''/'' @ n)" and "touches (dst @ ''/'' @ n) q \<Longrightarrow> touches dst q"
proof -
  show "touches dst (dst @ ''/'' @ n)"
    by (simp add: touches_def below_def)
  then show "touches (dst @ ''/'' @ n) q \<Longrightarrow> touches dst q"
    using mkdir_prefixes_child [OF assms, of q] by (auto simp: touches_def below_def prefix_def)
qed

text \<open>Two hosts that differ on touched paths only, and a target that takes files everywhere.\<close>

definition differs_in :: "(string \<Rightarrow> bool) \<Rightarrow> host \<Rightarrow> host \<Rightarrow> bool" where
  "differs_in P h h' \<longleftrightarrow> hDenied h' = hDenied h \<and> (\<forall>q. \<not> P q \<longrightarrow> hNodes h' q = hNodes h q)"

lemma differs_refl [simp]: "differs_in P h h"
  by (simp add: differs_in_def)

lemma differs_trans: "differs_in P h h' \<Longrightarrow> differs_in P h' h'' \<Longrightarrow> differs_in P h h''"
  by (simp add: differs_in_def)

lemma differs_mono: "differs_in P h h' \<Longrightarrow> (\<And>q. P q \<Longrightarrow> Q q) \<Longrightarrow> differs_in Q h h'"
  by (auto simp: differs_in_def)

lemma differs_writable: "differs_in P h h' \<Longrightarrow> \<not> P q \<Longrightarrow> writable h' q = writable h q"
  by (simp add: differs_in_def writable_def)

lemma differs_content: "differs_in P h h' \<Longrightarrow> \<not> P q \<Longrightarrow> file_content h' q = file_content h q"
  by (simp add: differs_in_def file_content_def)

lemma host_write_differs: "differs_in (\<lambda>q. q = p) h (fst (host_write h p m c))"
  by (auto simp: differs_in_def host_write_other host_write_def split: option.splits node.splits)

lemma host_chmod_differs: "differs_in (\<lambda>q. q = p) h (host_chmod h p m)"
  by (auto simp: differs_in_def host_chmod_def split: option.splits node.splits)

lemma host_chmod_content [simp]: "file_content (host_chmod h p m) q = file_content h q"
  by (auto simp: host_chmod_def file_content_def split: option.splits node.splits)

lemma ensureDir_differs: "differs_in (\<lambda>q. q \<in> set (mkdir_prefixes False p)) h (snd (ensureDir p m h))"
proof -
  have "differs_in (\<lambda>q. q \<in> set ps) h (foldl (\<lambda>h q. fst (host_mkdir h q m)) h ps)" for ps
  proof (induction ps arbitrary: h)
    case (Cons p ps)
    have "differs_in (\<lambda>q. q \<in> set (p # ps)) h (fst (host_mkdir h p m))"
      by (simp add: differs_in_def host_mkdir_def)
    then show ?case
      using Cons.IH [of "fst (host_mkdir h p m)"] by (auto intro: differs_trans elim: differs_mono)
  qed simp
  then show ?thesis by (simp add: ensureDir_def)
qed

lemma extractSingleFile_differs:
  assumes a: "extractSingleFile r stk vfs dst m h = Inr (ok, h')"
  shows "differs_in (\<lambda>q. q = dst) h h'"
proof -
  obtain d where d: "readFile r stk vfs = Inr d"
    using a by (auto simp: extractSingleFile_def fault_simps)
  show ?thesis
  proof (cases d)
    case None
    then show ?thesis using a d by (simp add: extractSingleFile_def)
  next
    case (Some bs)
    let ?w = "fst (host_write h dst m (bytes_to_string bs))"
    have "h' = h \<or> h' = ?w \<or> h' = host_chmod ?w dst m"
      using a by (auto simp: extractSingleFile_def d Some split: if_splits prod.splits)
    then show ?thesis
      using host_write_differs [of dst h m "bytes_to_string bs"] host_chmod_differs [of dst ?w m] differs_trans by auto
  qed
qed

lemma extractSingleFile_content:
  "extractSingleFile r stk vfs dst m h = Inr (ok, h') \<Longrightarrow> readFile r stk vfs = Inr (Some d) \<Longrightarrow> d \<noteq> [] \<Longrightarrow>
   writable h dst \<Longrightarrow> ok \<and> file_content h' dst = Some (bytes_to_string d)"
  using host_write_ok [of h dst m "bytes_to_string d"]
  by (auto simp: extractSingleFile_def split: prod.splits if_splits)

section \<open>An extraction copies every file of the tree\<close>

text \<open>
  The files of the image that a directory holds within a number of levels, by their relative path:
  the specification of the extraction.
\<close>

definition entry_file ::
  "(string \<Rightarrow> string \<Rightarrow> u8 list \<Rightarrow> bool) \<Rightarrow> reader \<Rightarrow> nat \<Rightarrow> string \<Rightarrow> FsFileEntry \<Rightarrow> string \<Rightarrow> u8 list \<Rightarrow> bool" where
  "entry_file sub r stk vfs e rel bs \<longleftrightarrow> feName e \<noteq> ''.'' \<and> feName e \<noteq> ''..'' \<and>
     (if feIsDirectory e then \<exists>rel'. rel = feName e @ ''/'' @ rel' \<and> sub (sub_path vfs (feName e)) rel' bs
      else rel = feName e \<and> readFile r stk (sub_path vfs (feName e)) = Inr (Some bs) \<and> bs \<noteq> [])"

primrec vfs_file :: "nat \<Rightarrow> reader \<Rightarrow> nat \<Rightarrow> string \<Rightarrow> string \<Rightarrow> u8 list \<Rightarrow> bool" where
  "vfs_file 0 r stk vfs rel bs = False"
| "vfs_file (Suc d) r stk vfs rel bs =
     (\<exists>es. listDirectory r stk vfs = Inr (Some es) \<and> (\<exists>e \<in> set es. entry_file (vfs_file d r stk) r stk vfs e rel bs))"

text \<open>Every directory within the levels lists distinct names without separators.\<close>

primrec plain_tree :: "nat \<Rightarrow> reader \<Rightarrow> nat \<Rightarrow> string \<Rightarrow> bool" where
  "plain_tree 0 r stk vfs = True"
| "plain_tree (Suc d) r stk vfs =
     (case listDirectory r stk vfs of
        Inr (Some es) \<Rightarrow> distinct (map feName es) \<and> (\<forall>e \<in> set es. plain_name (feName e)
          \<and> (feIsDirectory e \<longrightarrow> plain_tree d r stk (sub_path vfs (feName e))))
      | _ \<Rightarrow> True)"

definition copies_sub ::
  "(string \<Rightarrow> bool) \<Rightarrow> (string \<Rightarrow> string \<Rightarrow> u8 list \<Rightarrow> bool) \<Rightarrow> (string \<Rightarrow> string \<Rightarrow> host \<Rightarrow> fault + extraction) \<Rightarrow> bool" where
  "copies_sub ok files sub \<longleftrightarrow> (\<forall>vfs dst h res h' tr. ok vfs \<longrightarrow> dst \<noteq> [] \<longrightarrow> sub vfs dst h = Inr (res, h', tr) \<longrightarrow>
     differs_in (touches dst) h h' \<and>
     ((\<forall>q. below dst q \<longrightarrow> writable h q) \<longrightarrow>
      (\<forall>rel bs. files vfs rel bs \<longrightarrow> file_content h' (dst @ ''/'' @ rel) = Some (bytes_to_string bs))))"

definition entry_reach :: "string \<Rightarrow> string \<Rightarrow> string \<Rightarrow> bool" where
  "entry_reach dst n q \<longleftrightarrow> q = dst @ ''/'' @ n \<or> touches (dst @ ''/'' @ n) q"

lemma extract_entry:
  assumes sub: "copies_sub ok files sub" and "dst \<noteq> []"
    and okv: "feIsDirectory e \<Longrightarrow> ok (sub_path vfs (feName e))"
    and run: "extract_loop sub r stk cb vfs dst (e # es) (res, h, tr) = Inr out"
  obtains res1 h1 tr1 where "extract_loop sub r stk cb vfs dst es (res1, h1, tr1) = Inr out"
    and "differs_in (entry_reach dst (feName e)) h h1"
    and "(\<forall>q. entry_zone dst (feName e) q \<longrightarrow> writable h q) \<Longrightarrow>
      \<forall>rel bs. entry_file files r stk vfs e rel bs \<longrightarrow> file_content h1 (dst @ ''/'' @ rel) = Some (bytes_to_string bs)"
proof (cases "feName e = ''.'' \<or> feName e = ''..''")
  case True
  then show thesis
    using run by (intro that [of res h tr]) (auto simp: entry_file_def)
next
  case False
  let ?v = "sub_path vfs (feName e)" and ?t = "dst @ ''/'' @ feName e"
  show thesis
  proof (cases "feIsDirectory e")
    case True
    obtain s h1 tr' where s: "sub ?v ?t h = Inr (s, h1, tr')"
      using run False True by (auto simp: fault_simps)
    have c: "differs_in (touches ?t) h h1"
      "(\<forall>q. below ?t q \<longrightarrow> writable h q) \<longrightarrow>
       (\<forall>rel bs. files ?v rel bs \<longrightarrow> file_content h1 (?t @ ''/'' @ rel) = Some (bytes_to_string bs))"
      using sub s assms(2) okv [OF True] unfolding copies_sub_def by blast+
    show thesis
    proof (rule that)
      show "extract_loop sub r stk cb vfs dst es
          (res\<lparr>exFiles := exFiles res + exFiles s, exDirs := exDirs res + 1 + exDirs s,
               exBytes := exBytes res + exBytes s\<rparr>, h1, tr @ tr') = Inr out"
        using run False True s by simp
      show "differs_in (entry_reach dst (feName e)) h h1"
        using c(1) by (rule differs_mono) (simp add: entry_reach_def)
      assume "\<forall>q. entry_zone dst (feName e) q \<longrightarrow> writable h q"
      then have "\<forall>rel bs. files ?v rel bs \<longrightarrow> file_content h1 (?t @ ''/'' @ rel) = Some (bytes_to_string bs)"
        using c(2) by (simp add: entry_zone_def below_def)
      then show "\<forall>rel bs. entry_file files r stk vfs e rel bs \<longrightarrow> file_content h1 (dst @ ''/'' @ rel) = Some (bytes_to_string bs)"
        using True by (auto simp: entry_file_def)
    qed
  next
    case isfile: False
    let ?m = "if is_executable_dir vfs then 493 else 420 :: nat"
    obtain ok h1 where x: "extractSingleFile r stk ?v ?t ?m h = Inr (ok, h1)"
      using run False isfile by (auto simp: fault_simps Let_def)
    show thesis
    proof (rule that)
      show "extract_loop sub r stk cb vfs dst es
          (if ok then res\<lparr>exFiles := exFiles res + 1, exBytes := exBytes res + feSize e\<rparr> else res, h1,
           if ok \<and> cb then tr @ [(exFiles res + 1, ?v)] else tr) = Inr out"
        using run False isfile x by (auto split: if_splits)
      show "differs_in (entry_reach dst (feName e)) h h1"
        using extractSingleFile_differs [OF x] by (rule differs_mono) (simp add: entry_reach_def)
      assume "\<forall>q. entry_zone dst (feName e) q \<longrightarrow> writable h q"
      then have "writable h ?t"
        by (simp add: entry_zone_def)
      then show "\<forall>rel bs. entry_file files r stk vfs e rel bs \<longrightarrow> file_content h1 (dst @ ''/'' @ rel) = Some (bytes_to_string bs)"
        using isfile extractSingleFile_content [OF x] by (auto simp: entry_file_def)
    qed
  qed
qed

lemma entry_file_zone:
  "entry_file files r stk vfs e rel bs \<Longrightarrow> entry_zone dst (feName e) (dst @ ''/'' @ rel)"
  by (auto simp: entry_file_def entry_zone_def prefix_def split: if_splits)

lemma zone_not_reached:
  "dst \<noteq> [] \<Longrightarrow> plain_name m \<Longrightarrow> plain_name n \<Longrightarrow> m \<noteq> n \<Longrightarrow> entry_zone dst m q \<Longrightarrow> \<not> entry_reach dst n q"
  using zone_untouched [of dst m n q] by (simp add: entry_reach_def)

lemma extract_loop_copies:
  assumes sub: "copies_sub ok files sub" and dst: "dst \<noteq> []"
  shows "extract_loop sub r stk cb vfs dst es (res, h, tr) = Inr (res', h', tr') \<Longrightarrow>
    distinct (map feName es) \<Longrightarrow>
    \<forall>e \<in> set es. plain_name (feName e) \<and> (feIsDirectory e \<longrightarrow> ok (sub_path vfs (feName e))) \<Longrightarrow>
    differs_in (\<lambda>q. \<exists>e \<in> set es. entry_reach dst (feName e) q) h h' \<and>
    ((\<forall>e \<in> set es. \<forall>q. entry_zone dst (feName e) q \<longrightarrow> writable h q) \<longrightarrow>
     (\<forall>e \<in> set es. \<forall>rel bs. entry_file files r stk vfs e rel bs \<longrightarrow>
        file_content h' (dst @ ''/'' @ rel) = Some (bytes_to_string bs)))"
proof (induction es arbitrary: res h tr)
  case (Cons e es)
  have okv: "feIsDirectory e \<Longrightarrow> ok (sub_path vfs (feName e))"
    using Cons.prems(3) by simp
  obtain res1 h1 tr1 where run: "extract_loop sub r stk cb vfs dst es (res1, h1, tr1) = Inr (res', h', tr')"
    and d1: "differs_in (entry_reach dst (feName e)) h h1"
    and c1: "(\<forall>q. entry_zone dst (feName e) q \<longrightarrow> writable h q) \<Longrightarrow>
      \<forall>rel bs. entry_file files r stk vfs e rel bs \<longrightarrow> file_content h1 (dst @ ''/'' @ rel) = Some (bytes_to_string bs)"
    using extract_entry [OF sub dst okv Cons.prems(1)] by blast
  note IH = Cons.IH [OF run]
  have names: "distinct (map feName es)"
    "\<forall>e \<in> set es. plain_name (feName e) \<and> (feIsDirectory e \<longrightarrow> ok (sub_path vfs (feName e)))"
    "plain_name (feName e)" "feName e \<notin> feName ` set es"
    using Cons.prems(2,3) by simp_all
  have d2: "differs_in (\<lambda>q. \<exists>e \<in> set es. entry_reach dst (feName e) q) h1 h'"
    using IH names by blast
  have "differs_in (\<lambda>q. \<exists>e \<in> set (e # es). entry_reach dst (feName e) q) h h'"
    using d1 d2 by (simp add: differs_in_def)
  moreover have "\<forall>f \<in> set (e # es). \<forall>rel bs. entry_file files r stk vfs f rel bs \<longrightarrow>
        file_content h' (dst @ ''/'' @ rel) = Some (bytes_to_string bs)"
    if clean: "\<forall>e \<in> set (e # es). \<forall>q. entry_zone dst (feName e) q \<longrightarrow> writable h q"
  proof -
    have "writable h1 q" if "f \<in> set es" "entry_zone dst (feName f) q" for f q
    proof -
      have "feName f \<noteq> feName e"
        using that(1) names(4) image_eqI by metis
      then have "\<not> entry_reach dst (feName e) q"
        using that(1) names by (intro zone_not_reached [OF dst _ _ _ that(2)]) auto
      then show ?thesis
        using clean that by (simp add: differs_writable [OF d1])
    qed
    then have tail: "\<forall>f \<in> set es. \<forall>rel bs. entry_file files r stk vfs f rel bs \<longrightarrow>
        file_content h' (dst @ ''/'' @ rel) = Some (bytes_to_string bs)"
      using IH names by blast
    have "file_content h' (dst @ ''/'' @ rel) = Some (bytes_to_string bs)"
      if f: "entry_file files r stk vfs e rel bs" for rel bs
    proof -
      have "\<not> (\<exists>f \<in> set es. entry_reach dst (feName f) (dst @ ''/'' @ rel))"
        using names zone_not_reached [OF dst _ _ _ entry_file_zone [OF f]] by fastforce
      then have "file_content h' (dst @ ''/'' @ rel) = file_content h1 (dst @ ''/'' @ rel)"
        by (rule differs_content [OF d2])
      then show ?thesis
        using c1 clean f by simp
    qed
    with tail show ?thesis by simp
  qed
  ultimately show ?case by blast
qed simp

lemma ensureDir_below: "below dst q \<Longrightarrow> writable (snd (ensureDir dst m h)) q = writable h q"
  by (rule differs_writable [OF ensureDir_differs below_not_mkdir])

lemma extract_dir_copies:
  "copies_sub (plain_tree d r stk) (vfs_file d r stk) (extract_dir d r stk cb)"
proof (induction d)
  case (Suc d)
  have "differs_in (touches dst) h h' \<and> ((\<forall>q. below dst q \<longrightarrow> writable h q) \<longrightarrow>
      (\<forall>rel bs. vfs_file (Suc d) r stk vfs rel bs \<longrightarrow> file_content h' (dst @ ''/'' @ rel) = Some (bytes_to_string bs)))"
    if plain: "plain_tree (Suc d) r stk vfs" and dst: "dst \<noteq> []" and run: "extract_dir (Suc d) r stk cb vfs dst h = Inr (res, h', tr)" for vfs dst h res h' tr
  proof -
    let ?h = "snd (ensureDir dst 509 h)"
    have e: "differs_in (touches dst) h ?h"
      using ensureDir_differs by (rule differs_mono) (simp add: touches_def)
    obtain l where l: "listDirectory r stk vfs = Inr l"
      using run by (auto simp: fault_simps Let_def)
    show ?thesis
    proof (cases l)
      case None
      then show ?thesis using run e l by (simp add: Let_def)
    next
      case (Some es)
      obtain res0 where lp: "extract_loop (extract_dir d r stk cb) r stk cb vfs dst es (no_result, ?h, []) = Inr (res0, h', tr)"
        using run l Some by (auto simp: fault_simps Let_def)
      have names: "distinct (map feName es)"
        "\<forall>e \<in> set es. plain_name (feName e) \<and> (feIsDirectory e \<longrightarrow> plain_tree d r stk (sub_path vfs (feName e)))"
        using plain l Some by simp_all
      note c = extract_loop_copies [OF Suc.IH dst lp names]
      have "touches dst q" if "\<exists>e \<in> set es. entry_reach dst (feName e) q" for q
        using that names(2) child_touches [OF dst] by (auto simp: entry_reach_def)
      with conjunct1 [OF c] have "differs_in (touches dst) ?h h'"
        by (rule differs_mono)
      then have "differs_in (touches dst) h h'"
        by (rule differs_trans [OF e])
      moreover have "\<forall>e \<in> set es. \<forall>q. entry_zone dst (feName e) q \<longrightarrow> writable ?h q"
        if "\<forall>q. below dst q \<longrightarrow> writable h q"
        using that entry_zone_below ensureDir_below by blast
      ultimately show ?thesis
        using c l Some by auto
    qed
  qed
  then show ?case by (simp only: copies_sub_def) blast
qed (simp add: copies_sub_def)


definition demo_host :: host where
  "demo_host = \<lparr>hNodes = (\<lambda>p. None), hDenied = (\<lambda>p. False)\<rparr>"

lemma demo_root_list:
  "\<exists>d f. listDirectory demo_reader 1 ''/'' = Inr (Some [d, f]) \<and> feName d = ''d'' \<and> feIsDirectory d
     \<and> feName f = ''f'' \<and> \<not> feIsDirectory f"
proof -
  let ?d = "item_entry ''/'' demo_child \<lparr>di_inode = 2, di_rec_len = 104, di_name = ''d'', di_type = 2\<rparr>"
    and ?f = "item_entry ''/'' demo_child \<lparr>di_inode = 1, di_rec_len = 12, di_name = ''f'', di_type = 1\<rparr>"
  have n: "feName ?d = ''d'' \<and> feIsDirectory ?d" "feName ?f = ''f'' \<and> \<not> feIsDirectory ?f"
    by (simp_all add: item_entry_def mk_entry_def item_dirent_def)
  then have "sort_key entry_key (map (item_entry ''/'' demo_child) (filter listed demo_root_items)) = [?d, ?f]"
    by (simp add: demo_root_items_def listed_def entry_key_def)
  then show ?thesis
    using n by (simp only: listDirectory_eq [OF demo_root_read demo_root_items_ok]) blast
qed

lemma demo_read_f: "readFile demo_reader 1 ''/f'' = Inr (Some (replicate 128 7 @ [1, 2]))"
  by code_simp


text \<open>
  An empty file of the image is not created, and a directory beyond the depth is counted but not made.
\<close>

lemma empty_file_refused: "readFile r stk vfs = Inr (Some []) \<Longrightarrow> extractSingleFile r stk vfs dst m h = Inr (False, h)"
  by (simp add: extractSingleFile_def)

lemma depth_exhausted: "maxDepth < 0 \<Longrightarrow> extractDirectoryRecursive r stk cb vfs dst maxDepth h = Inr (no_result, h, [])"
  by (simp add: extractDirectoryRecursive_def)

lemma copy_blocks_id: "copy_blocks s = s"
  by (induction s rule: copy_blocks.induct) (subst copy_blocks.simps, simp)

text \<open>The deployed library is the host's, byte for byte, unless source and destination are one file.\<close>

lemma deployHookLibrary_copies:
  assumes "hNodes h (hostLibDir @ ''/libgsi_hook.so'') = Some (File m c)" "hostLibDir \<noteq> sbLibDir s"
    and "writable h (sbLibDir s @ ''/libgsi_hook.so'')"
  shows "fst (deployHookLibrary s hostLibDir h)
    \<and> file_content (snd (deployHookLibrary s hostLibDir h)) (sbLibDir s @ ''/libgsi_hook.so'') = Some c"
  using assms host_write_ok [OF assms(3), of 493 c]
  by (simp add: deployHookLibrary_def source_bytes_def copy_blocks_id Let_def case_prod_beta)

text \<open>
  The mirror reads the image under \<^verbatim>\<open>/system/bin\<close> also when the files came from
  \<^verbatim>\<open>/bin\<close>: for an image without that directory it copies nothing.
\<close>

lemma mirror_ignores_fallback:
  "\<forall>b \<in> set bs. readFile r stk (''/system/bin/'' @ b) = Inr None \<Longrightarrow> mirror_binaries r stk dir bs h = Inr h"
  by (induction bs arbitrary: h) (simp_all add: extractSingleFile_def Let_def)

end
