(* ===== verification/Storage_Bridge.thy ===== *)
theory Storage_Bridge
  imports Bridge_Common
begin

text \<open>
  The virtual shared storage of \<^verbatim>\<open>storage_bridge.cpp\<close>: its directory tree, the sample files,
  the wipe, the scan of its size and the properties. The listing of a host directory, in the order
  of \<^verbatim>\<open>readdir\<close> and without the two dot entries, is a parameter; the nesting of the two recursive
  walks is bounded by the stack.
\<close>

type_synonym listing = "host \<Rightarrow> string \<Rightarrow> string list option"

record StorageStats =
  ssTotalBytes :: u64
  ssFreeBytes :: u64
  ssUsedBytes :: u64
  ssDirectoryCount :: u32
  ssFileCount :: u32
  ssIsMounted :: bool

record storage =
  stSandboxDir :: string
  stMediaDir :: string
  stInitialized :: bool

definition storage_new :: storage where
  "storage_new = \<lparr>stSandboxDir = [], stMediaDir = [], stInitialized = False\<rparr>"

definition GB :: u64 where "GB = 1024 * 1024 * 1024"

section \<open>Walking a tree\<close>

text \<open>
  Links are not part of the host model: a node is a directory or it is not. \<^verbatim>\<open>rmdir\<close> removes a
  directory whose listing is empty.
\<close>

definition host_rmdir :: "listing \<Rightarrow> host \<Rightarrow> string \<Rightarrow> host" where
  "host_rmdir ls h p = (if ls h p = Some [] then set_node h p None else h)"

fun remove_entries :: "listing \<Rightarrow> (string \<Rightarrow> host \<Rightarrow> fault + host) \<Rightarrow> string \<Rightarrow> string list \<Rightarrow> host \<Rightarrow> fault + host" where
  "remove_entries ls sub dir [] h = Inr h"
| "remove_entries ls sub dir (e # es) h =
     (let p = dir @ ''/'' @ e in
      if host_exists h p then
        if is_dir (hNodes h p) then
          bnd (sub p h) (\<lambda>h. remove_entries ls sub dir es (host_rmdir ls h p))
        else remove_entries ls sub dir es (host_unlink h p)
      else remove_entries ls sub dir es h)"

primrec removeDirRecursive :: "nat \<Rightarrow> listing \<Rightarrow> string \<Rightarrow> host \<Rightarrow> fault + host" where
  "removeDirRecursive 0 ls dir h = Inl StackExhausted"
| "removeDirRecursive (Suc stk) ls dir h =
     (case ls h dir of
        None \<Rightarrow> Inr h
      | Some es \<Rightarrow> remove_entries ls (\<lambda>p h. removeDirRecursive stk ls p h) dir es h)"

type_synonym metrics = "u32 \<times> u32 \<times> u64"

fun scan_entries :: "(string \<Rightarrow> metrics \<Rightarrow> fault + metrics) \<Rightarrow> host \<Rightarrow> string \<Rightarrow> string list \<Rightarrow> metrics \<Rightarrow> fault + metrics" where
  "scan_entries sub h dir [] m = Inr m"
| "scan_entries sub h dir (e # es) (d, f, b) =
     (let p = dir @ ''/'' @ e in
      case hNodes h p of
        None \<Rightarrow> scan_entries sub h dir es (d, f, b)
      | Some (Dir mode) \<Rightarrow> bnd (sub p (d + 1, f, b)) (\<lambda>m. scan_entries sub h dir es m)
      | Some (File mode c) \<Rightarrow> scan_entries sub h dir es (d, f + 1, b + word_of_nat (length c))
      | Some (Sock mode) \<Rightarrow> scan_entries sub h dir es (d, f + 1, b))"

primrec scanStorageMetrics :: "nat \<Rightarrow> listing \<Rightarrow> host \<Rightarrow> string \<Rightarrow> metrics \<Rightarrow> fault + metrics" where
  "scanStorageMetrics 0 ls h dir m = Inl StackExhausted"
| "scanStorageMetrics (Suc stk) ls h dir m =
     (case ls h dir of
        None \<Rightarrow> Inr m
      | Some es \<Rightarrow> scan_entries (\<lambda>p m. scanStorageMetrics stk ls h p m) h dir es m)"

section \<open>Statistics\<close>

definition stats_of :: "metrics \<Rightarrow> StorageStats" where
  "stats_of = (\<lambda>(d, f, b).
     let total = 64 * GB; used = 8 * GB + b in
     \<lparr>ssTotalBytes = total, ssFreeBytes = (if used < total then total - used else 512 * 1024 * 1024),
      ssUsedBytes = used, ssDirectoryCount = d, ssFileCount = f, ssIsMounted = True\<rparr>)"

definition storage_getStats :: "nat \<Rightarrow> listing \<Rightarrow> host \<Rightarrow> storage \<Rightarrow> fault + StorageStats" where
  "storage_getStats stk ls h s = bnd (scanStorageMetrics stk ls h (stMediaDir s) (0, 0, 0)) (\<lambda>m. Inr (stats_of m))"

text \<open>
  A number of bytes below \<open>2^53\<close> divided by \<open>2^30\<close> is exact in double precision; it is printed with one
  decimal, ties to even.
\<close>

definition round_even :: "nat \<Rightarrow> nat \<Rightarrow> nat" where
  "round_even a b =
     (let q = a div b; r = 2 * (a mod b) in if r < b then q else if r > b then q + 1 else if even q then q else q + 1)"

definition gb_text :: "u64 \<Rightarrow> string" where
  "gb_text b = (let t = round_even (10 * unat b) (2 ^ 30) in dec (t div 10) @ ''.'' @ dec (t mod 10))"

definition getStorageStatsString :: "StorageStats \<Rightarrow> string" where
  "getStorageStatsString st =
     oline ''Storage: /storage/emulated/0 (FUSE/sdcardfs)''
     @ oline (''Capacity: '' @ gb_text (ssTotalBytes st) @ '' GB'')
     @ oline (''Used: '' @ gb_text (ssUsedBytes st) @ '' GB ('' @ dec (unat (ssDirectoryCount st)) @ '' dirs, ''
         @ dec (unat (ssFileCount st)) @ '' files)'')
     @ oline (''Available: '' @ gb_text (ssFreeBytes st) @ '' GB'')
     @ ''State: MOUNTED (RW)''"

definition storage_view :: "StorageStats \<Rightarrow> (string \<times> string) list" where
  "storage_view st =
     [(''persist.sys.storage.type'', ''fuse''),
      (''persist.sys.storage.total_gb'', ''64''),
      (''persist.sys.storage.avail_gb'', gb_text (ssFreeBytes st)),
      (''persist.sys.storage.state'', ''mounted''),
      (''persist.sys.storage.dirs'', dec (unat (ssDirectoryCount st))),
      (''persist.sys.storage.files'', dec (unat (ssFileCount st)))]"

definition updatePropertyCache :: "StorageStats \<Rightarrow> sys \<Rightarrow> sys" where
  "updatePropertyCache st sys = set_props (storage_view st) sys"

text \<open>The last steps of every operation that changes the tree.\<close>

definition refresh_stats :: "nat \<Rightarrow> listing \<Rightarrow> storage \<Rightarrow> sys \<Rightarrow> fault + sys" where
  "refresh_stats stk ls s sys = bnd (storage_getStats stk ls (snd sys) s) (\<lambda>st. Inr (updatePropertyCache st sys))"

section \<open>The operations\<close>

definition standard_dirs :: "string list" where
  "standard_dirs =
     [''/DCIM'', ''/DCIM/Camera'', ''/Pictures'', ''/Pictures/Screenshots'', ''/Download'', ''/Music'',
      ''/Movies'', ''/Documents'', ''/Android'', ''/Android/data'', ''/Android/obb'', ''/Android/media'']"

definition populateStandardFolders :: "storage \<Rightarrow> sys \<Rightarrow> sys" where
  "populateStandardFolders s sys = foldl (\<lambda>sys d. make_dirs False 509 (stMediaDir s @ d) sys) sys standard_dirs"

definition mounts_text :: string where
  "mounts_text =
     oline ''rootfs / rootfs ro,relatime 0 0''
     @ oline ''tmpfs /dev tmpfs rw,nosuid,relatime,mode=755 0 0''
     @ oline ''devpts /dev/pts devpts rw,relatime,mode=600 0 0''
     @ oline ''proc /proc proc rw,relatime 0 0''
     @ oline ''sysfs /sys sysfs rw,relatime 0 0''
     @ oline ''/dev/block/vfs_ext4 /system ext4 ro,nodev,relatime 0 0''
     @ oline ''/dev/block/vfs_ext4 /vendor ext4 ro,nodev,relatime 0 0''
     @ oline ''/dev/block/vfs_ext4 /data ext4 rw,nosuid,nodev,noatime 0 0''
     @ oline (''/dev/fuse /storage/emulated fuse rw,nosuid,nodev,noexec,relatime,user_id=0,group_id=0,''
         @ ''default_permissions,allow_other 0 0'')
     @ oline ''/data/media /storage/emulated/0 sdcardfs rw,nosuid,nodev,relatime,uid=1023,gid=1023 0 0''"

definition updateMountsFile :: "storage \<Rightarrow> sys \<Rightarrow> sys" where
  "updateMountsFile s sys = snd (sys_write (stSandboxDir s @ ''/proc/mounts'') 438 mounts_text sys)"

definition initialize_storage :: "nat \<Rightarrow> listing \<Rightarrow> storage \<Rightarrow> sys \<Rightarrow> string \<Rightarrow> fault + (bool \<times> storage \<times> sys)" where
  "initialize_storage stk ls s sys dir =
     (let s = s\<lparr>stSandboxDir := dir, stMediaDir := dir @ ''/data/media/0''\<rparr>;
          sys = foldl (\<lambda>sys d. make_dirs False 509 (dir @ d) sys) sys
            [''/tmp'', ''/proc'', ''/storage/emulated/0'', ''/data/media/0''];
          sys = sys_overwrite (dir @ ''/tmp/dev_fuse.raw'') 438 [] sys;
          sys = updateMountsFile s (populateStandardFolders s sys)
      in bnd (refresh_stats stk ls s sys) (\<lambda>sys. Inr (True, s\<lparr>stInitialized := True\<rparr>, sys)))"

definition shutdown_storage :: "storage \<Rightarrow> storage" where
  "shutdown_storage s = s\<lparr>stInitialized := False\<rparr>"

definition welcome_text :: string where
  "welcome_text =
     oline ''========================================================''
     @ oline ''  WELCOME TO GSI RUNTIME ENGINE (PILAR 8 - STORAGE VFS) ''
     @ oline ''========================================================''
     @ oline ''Environment: Zero-Root Unprivileged Android Sandbox''
     @ oline ''Storage Emulation: FUSE / sdcardfs multi-user simulation''
     @ oline ''Path: /storage/emulated/0 (linked to /data/media/0)''
     @ oline ''Standard Hierarchy: DCIM, Pictures, Download, Music, Documents''
     @ oline ''Generated at runtime successfully.''"

definition quoted :: "string \<Rightarrow> string" where
  "quoted s = [CHR 0x22] @ s @ [CHR 0x22]"

definition specs_text :: string where
  "specs_text =
     oline ''{''
     @ oline (''  '' @ quoted ''runtime'' @ '': '' @ quoted ''GsiRuntime-Engine'' @ '','')
     @ oline (''  '' @ quoted ''version'' @ '': '' @ quoted ''1.0.0-cyber'' @ '','')
     @ oline (''  '' @ quoted ''storage'' @ '': {'')
     @ oline (''    '' @ quoted ''type'' @ '': '' @ quoted ''fuse_emulated'' @ '','')
     @ oline (''    '' @ quoted ''capacity_gb'' @ '': 64,'')
     @ oline (''    '' @ quoted ''mount_point'' @ '': '' @ quoted ''/storage/emulated/0'')
     @ oline ''  }''
     @ oline ''}''"

definition generateSampleFiles :: "nat \<Rightarrow> listing \<Rightarrow> storage \<Rightarrow> sys \<Rightarrow> fault + (bool \<times> sys)" where
  "generateSampleFiles stk ls s sys =
     (let sys = populateStandardFolders s sys;
          m = stMediaDir s;
          sys = snd (sys_write (m @ ''/Download/welcome_gsi.txt'') 438 welcome_text sys);
          sys = snd (sys_write (m @ ''/Documents/system_specs.json'') 438 specs_text sys);
          sys = snd (sys_write (m @ ''/DCIM/Camera/IMG_20260905_001.raw'') 436 (replicate 32768 (CHR 0xAA)) sys)
      in bnd (refresh_stats stk ls s sys) (\<lambda>sys. Inr (True, sys)))"

definition wipeStorage :: "nat \<Rightarrow> listing \<Rightarrow> storage \<Rightarrow> sys \<Rightarrow> fault + (bool \<times> sys)" where
  "wipeStorage stk ls s sys =
     bnd (removeDirRecursive stk ls (stMediaDir s) (snd sys)) (\<lambda>h.
     bnd (refresh_stats stk ls s (populateStandardFolders s (fst sys, h))) (\<lambda>sys. Inr (True, sys)))"

section \<open>Correctness\<close>

interpretation storage: publisher storage_view
  by unfold_locales (simp add: storage_view_def)

text \<open>Below the capacity the three sizes add up; at the capacity the free size is reported as 512 MB.\<close>

lemma stats_sum:
  "ssUsedBytes (stats_of m) < 64 * GB \<Longrightarrow> ssFreeBytes (stats_of m) + ssUsedBytes (stats_of m) = ssTotalBytes (stats_of m)"
  "\<not> ssUsedBytes (stats_of m) < 64 * GB \<Longrightarrow> ssFreeBytes (stats_of m) = 512 * 1024 * 1024"
  by (auto simp: stats_of_def Let_def split: prod.splits)

lemma refresh_publishes:
  assumes "refresh_stats stk ls s sys = Inr sys'"
  shows "\<exists>st. storage_getStats stk ls (snd sys) s = Inr st
    \<and> find_prop (fst sys') ''persist.sys.storage.files'' = Some (dec (unat (ssFileCount st)))
    \<and> find_prop (fst sys') ''persist.sys.storage.avail_gb'' = Some (gb_text (ssFreeBytes st))"
proof -
  obtain st where st: "storage_getStats stk ls (snd sys) s = Inr st" "sys' = updatePropertyCache st sys"
    using assms by (auto simp: refresh_stats_def fault_simps)
  moreover have "find_prop (fst (set_props (storage_view st) sys)) ''persist.sys.storage.files'' = Some (dec (unat (ssFileCount st)))"
    "find_prop (fst (set_props (storage_view st) sys)) ''persist.sys.storage.avail_gb'' = Some (gb_text (ssFreeBytes st))"
    by (rule storage.published, simp add: storage_view_def)+
  ultimately show ?thesis
    by (simp add: updatePropertyCache_def)
qed

text \<open>The wipe removes entries below the directory it is given and nothing else.\<close>

lemma remove_entries_frame:
  assumes "\<And>p h h'. prefix (dir @ ''/'') p \<Longrightarrow> sub p h = Inr h' \<Longrightarrow> \<forall>q. \<not> prefix (dir @ ''/'') q \<longrightarrow> hNodes h' q = hNodes h q"
  shows "remove_entries ls sub dir es h = Inr h' \<Longrightarrow> \<not> prefix (dir @ ''/'') q \<Longrightarrow> hNodes h' q = hNodes h q"
proof (induction es arbitrary: h)
  case (Cons e es)
  let ?p = "dir @ ''/'' @ e"
  have p: "prefix (dir @ ''/'') ?p" "q \<noteq> ?p" using Cons.prems(2) by auto
  show ?case
  proof (cases "host_exists h ?p \<and> is_dir (hNodes h ?p)")
    case True
    then obtain h1 where "sub ?p h = Inr h1" "remove_entries ls sub dir es (host_rmdir ls h1 ?p) = Inr h'"
      using Cons.prems(1) by (auto simp: fault_simps Let_def)
    then show ?thesis
      using Cons.IH [of "host_rmdir ls h1 ?p"] assms [OF p(1), of h h1] Cons.prems(2) p(2)
      by (simp add: host_rmdir_def split: if_splits)
  next
    case False
    then show ?thesis
      using Cons.IH [of h] Cons.IH [of "host_unlink h ?p"] Cons.prems p(2)
      by (auto simp: host_unlink_def Let_def split: if_splits)
  qed
qed simp

lemma removeDirRecursive_frame:
  "removeDirRecursive stk ls dir h = Inr h' \<Longrightarrow> \<not> prefix (dir @ ''/'') q \<Longrightarrow> hNodes h' q = hNodes h q"
proof (induction stk arbitrary: dir h h' q)
  case (Suc stk)
  have sub: "\<forall>q. \<not> prefix (dir @ ''/'') q \<longrightarrow> hNodes h' q = hNodes h q"
    if "prefix (dir @ ''/'') p" "removeDirRecursive stk ls p h = Inr h'" for p h h'
    using Suc.IH [OF that(2)] that(1) by (meson prefixI prefix_order.trans)
  show ?case
    using Suc.prems remove_entries_frame [where sub = "\<lambda>p h. removeDirRecursive stk ls p h", OF sub]
    by (auto split: option.splits)
qed simp

end
