(* ===== verification/Virtual_Framebuffer.thy ===== *)
theory Virtual_Framebuffer
  imports Prelude
begin

text \<open>
  The shared frame buffer of \<^verbatim>\<open>virtual_framebuffer.cpp\<close>: its header and pixels, their
  mapping, the copy into a window buffer and the drawing operations. The pixels are a list and every access through the
  mapped pointer is checked against it; the arithmetic of the indices is that of the code, unsigned
  where a \<^verbatim>\<open>uint32_t\<close> takes part. The file behind the mapping is not modelled.
\<close>

definition VFB_MAGIC :: u32 where "VFB_MAGIC = 0x56464230"

record VfbHeader =
  vhMagic :: u32
  vhWidth :: u32
  vhHeight :: u32
  vhStride :: u32
  vhFormat :: u32
  vhFrameSequence :: u32

record vfb =
  vfFdOpen :: bool
  vfMmap :: "(VfbHeader \<times> u32 list) option"
  vfTotalSize :: u64
  vfWidth :: u32
  vfHeight :: u32
  vfStride :: u32
  vfFilePath :: string

definition vfb_new :: vfb where
  "vfb_new = \<lparr>vfFdOpen = False, vfMmap = None, vfTotalSize = 0, vfWidth = 0, vfHeight = 0, vfStride = 0, vfFilePath = []\<rparr>"

section \<open>Mapping\<close>

definition close_vfb :: "vfb \<Rightarrow> vfb" where
  "close_vfb v = v\<lparr>vfMmap := None, vfFdOpen := False, vfTotalSize := 0, vfWidth := 0, vfHeight := 0, vfStride := 0\<rparr>"

text \<open>
  The product of stride and height is formed in 32 bits, for the size of the mapping and for the
  number of pixels alike. The results of \<^verbatim>\<open>open\<close>, \<^verbatim>\<open>ftruncate\<close> and
  \<^verbatim>\<open>mmap\<close> are parameters.
\<close>

definition initialize_vfb :: "bool \<Rightarrow> bool \<Rightarrow> bool \<Rightarrow> vfb \<Rightarrow> u32 \<Rightarrow> u32 \<Rightarrow> string \<Rightarrow> bool \<times> vfb" where
  "initialize_vfb open_ok trunc_ok mmap_ok v width height dir =
     (let v = close_vfb v;
          v = v\<lparr>vfWidth := width, vfHeight := height, vfStride := width\<rparr>;
          pixels = vfStride v * vfHeight v;
          v = v\<lparr>vfTotalSize := 64 + ucast pixels * 4, vfFilePath := dir @ ''/tmp/vfb0''\<rparr>
      in if \<not> open_ok then (False, v)
         else if \<not> trunc_ok then (False, v)
         else if \<not> mmap_ok then (False, v)
         else (True, v\<lparr>vfFdOpen := True,
           vfMmap := Some (\<lparr>vhMagic = VFB_MAGIC, vhWidth = vfWidth v, vhHeight = vfHeight v, vhStride = vfStride v,
             vhFormat = 1, vhFrameSequence = 1\<rparr>, replicate (unat pixels) 0xFF141721)\<rparr>))"

definition vfb_isInitialized :: "vfb \<Rightarrow> bool" where
  "vfb_isInitialized v \<longleftrightarrow> vfMmap v \<noteq> None"

definition getFrameSequence :: "vfb \<Rightarrow> u32" where
  "getFrameSequence v = (case vfMmap v of None \<Rightarrow> 0 | Some (hdr, px) \<Rightarrow> vhFrameSequence hdr)"

definition getPixelBuffer :: "vfb \<Rightarrow> u32 list option" where
  "getPixelBuffer v = map_option snd (vfMmap v)"

definition next_frame :: "VfbHeader \<Rightarrow> VfbHeader" where
  "next_frame hdr = hdr\<lparr>vhFrameSequence := vhFrameSequence hdr + 1\<rparr>"

definition notifyFrameUpdated :: "vfb \<Rightarrow> vfb" where
  "notifyFrameUpdated v = v\<lparr>vfMmap := map_option (\<lambda>(hdr, px). (next_frame hdr, px)) (vfMmap v)\<rparr>"

section \<open>Access through a pointer\<close>

definition px_read :: "u32 list \<Rightarrow> int \<Rightarrow> fault + u32" where
  "px_read px i = (if 0 \<le> i \<and> i < int (length px) then Inr (px ! nat i) else Inl OutOfBounds)"

definition px_write :: "u32 list \<Rightarrow> int \<Rightarrow> u32 \<Rightarrow> fault + u32 list" where
  "px_write px i c = (if 0 \<le> i \<and> i < int (length px) then Inr (px[nat i := c]) else Inl OutOfBounds)"

section \<open>The copy to a window\<close>

text \<open>The source coordinate of a target coordinate: an unsigned product and quotient, read as an \<^verbatim>\<open>int\<close> and clipped.\<close>

definition sample_index :: "u32 \<Rightarrow> int \<Rightarrow> int \<Rightarrow> int" where
  "sample_index dim dst i =
     (let s = sint ((word_of_int i * dim) div word_of_int dst :: u32) in if s \<ge> sint dim then sint (dim - 1) else s)"

definition row_offset :: "int \<Rightarrow> u32 \<Rightarrow> int" where
  "row_offset y stride = uint (word_of_int y * stride :: u32)"

definition copy_row :: "vfb \<Rightarrow> u32 list \<Rightarrow> int \<Rightarrow> int \<Rightarrow> int \<Rightarrow> int \<Rightarrow> u32 list \<Rightarrow> fault + u32 list" where
  "copy_row v src dstWidth dstHeight dstStride y dst =
     (let srcRow = row_offset (sample_index (vfHeight v) dstHeight y) (vfStride v) in
      bnd (int_mul y dstStride) (\<lambda>dstRow.
        for_each [0..dstWidth - 1] (\<lambda>x dst.
          bnd (px_read src (srcRow + sample_index (vfWidth v) dstWidth x)) (\<lambda>c. px_write dst (dstRow + x) c)) dst))"

definition copyToTargetBuffer :: "vfb \<Rightarrow> u32 list option \<Rightarrow> int \<Rightarrow> int \<Rightarrow> int \<Rightarrow> fault + u32 list option" where
  "copyToTargetBuffer v dst dstWidth dstHeight dstStride =
     (case (getPixelBuffer v, dst) of
        (Some src, Some d) \<Rightarrow>
          bnd (for_each [0..dstHeight - 1] (copy_row v src dstWidth dstHeight dstStride) d) (\<lambda>d. Inr (Some d))
      | _ \<Rightarrow> Inr dst)"

section \<open>Drawing\<close>

definition disc_pixel :: "int \<Rightarrow> u32 \<Rightarrow> int \<Rightarrow> int \<Rightarrow> int \<Rightarrow> int \<Rightarrow> u32 list \<Rightarrow> fault + u32 list" where
  "disc_pixel x color rSquared row dy px_x px =
     bnd (int_ret (px_x - x)) (\<lambda>dx.
     bnd (int_mul dx dx) (\<lambda>dx2.
     bnd (int_mul dy dy) (\<lambda>dy2.
     bnd (int_ret (dx2 + dy2)) (\<lambda>d2.
       if d2 \<le> rSquared then px_write px (row + px_x) color else Inr px))))"

definition drawTouchCircle :: "vfb \<Rightarrow> int \<Rightarrow> int \<Rightarrow> u32 \<Rightarrow> int \<Rightarrow> fault + vfb" where
  "drawTouchCircle v x y color radius =
     (case vfMmap v of
        None \<Rightarrow> Inr v
      | Some (hdr, px) \<Rightarrow>
          bnd (int_mul radius radius) (\<lambda>rSquared.
          bnd (int_ret (x - radius)) (\<lambda>x0.
          bnd (int_ret (x + radius)) (\<lambda>x1.
          bnd (int_ret (y - radius)) (\<lambda>y0.
          bnd (int_ret (y + radius)) (\<lambda>y1.
            let minX = max 0 x0; maxX = min (sint (vfWidth v) - 1) x1;
                minY = max 0 y0; maxY = min (sint (vfHeight v) - 1) y1
            in bnd (for_each [minY..maxY] (\<lambda>py px.
                 bnd (int_ret (py - y)) (\<lambda>dy.
                   for_each [minX..maxX] (disc_pixel x color rSquared (row_offset py (vfStride v)) dy) px)) px)
               (\<lambda>px. Inr (v\<lparr>vfMmap := Some (next_frame hdr, px)\<rparr>))))))))"

text \<open>The count is again the 32-bit product, and the loop stores that many pixels.\<close>

definition clearScreen :: "vfb \<Rightarrow> u32 \<Rightarrow> fault + vfb" where
  "clearScreen v color =
     (case vfMmap v of
        None \<Rightarrow> Inr v
      | Some (hdr, px) \<Rightarrow>
          (let n = unat (vfStride v * vfHeight v) in
           if n \<le> length px
           then Inr (v\<lparr>vfMmap := Some (next_frame hdr, replicate n color @ drop n px)\<rparr>) else Inl OutOfBounds))"

section \<open>The mapped buffer\<close>

text \<open>What the initialization establishes when the screen has fewer than \<open>2^31\<close> pixels and is not empty.\<close>

definition vfb_ok :: "vfb \<Rightarrow> nat \<Rightarrow> nat \<Rightarrow> bool" where
  "vfb_ok v w h \<longleftrightarrow> 0 < w \<and> 0 < h \<and> w * h < 2 ^ 31 \<and> unat (vfWidth v) = w \<and> unat (vfHeight v) = h
     \<and> vfStride v = vfWidth v \<and> (\<exists>hdr px. vfMmap v = Some (hdr, px) \<and> length px = w * h)"

lemma uint_small: "unat (u :: u32) < k \<Longrightarrow> uint u < int k"
  by (simp only: uint_nat of_nat_less_iff)

lemma sint_u32: "unat (u :: u32) < 2 ^ 31 \<Longrightarrow> sint u = int (unat u)"
proof -
  assume "unat u < 2 ^ 31"
  then have "uint u < 2 ^ 31"
    using uint_small [of u "2 ^ 31"] by simp
  moreover have "- (2 ^ 31) \<le> uint u"
    by (rule order_trans [OF _ unsigned_greater_eq]) simp
  ultimately have "sint u = uint u"
    by (simp add: sint_uint signed_take_bit_int_eq_self)
  then show ?thesis
    by (simp only: uint_nat)
qed

lemma vfb_dims:
  assumes "vfb_ok v w h"
  shows "w < 2 ^ 31" and "h < 2 ^ 31" and "sint (vfWidth v) = int w" and "sint (vfHeight v) = int h"
proof -
  have "w \<le> w * h" "h \<le> w * h"
    using assms by (simp_all add: vfb_ok_def)
  then show l: "w < 2 ^ 31" "h < 2 ^ 31"
    using assms unfolding vfb_ok_def by linarith+
  then show "sint (vfWidth v) = int w" "sint (vfHeight v) = int h"
    using assms by (simp_all add: vfb_ok_def sint_u32)
qed

lemma initialize_vfb_ok:
  assumes "0 < width" "0 < height" "unat width * unat height < 2 ^ 31"
  shows "fst (initialize_vfb True True True v width height dir)
    \<and> vfb_ok (snd (initialize_vfb True True True v width height dir)) (unat width) (unat height)"
proof -
  have "unat (width * height) = unat width * unat height"
    using assms(3) by (simp add: unat_word_ariths(2))
  then show ?thesis
    using assms by (simp add: initialize_vfb_def vfb_ok_def Let_def close_vfb_def word_less_nat_alt)
qed

lemma unat_prod:
  assumes "k < 2 ^ 32" "k * unat d < 2 ^ 32"
  shows "unat (word_of_int (int k) * d :: u32) = k * unat d"
  using assms by (simp add: unat_word_ariths(2) unat_of_nat)

lemma row_offset_ok:
  assumes "vfb_ok v w h" "y < h"
  shows "row_offset (int y) (vfStride v) = int (y * w)"
proof -
  have wh: "w * h < 2 ^ 31" "0 < w" "unat (vfStride v) = w"
    using assms(1) by (simp_all add: vfb_ok_def)
  have "y * w < 2 ^ 31"
    using wh(1) assms(2) by (metis (no_types, lifting) le_less_trans less_imp_le_nat mult.commute mult_le_mono2)
  then have "unat (word_of_int (int y) * vfStride v :: u32) = y * w"
    using wh vfb_dims(2) [OF assms(1)] assms(2) by (subst unat_prod) simp_all
  then show ?thesis
    by (simp only: row_offset_def uint_nat)
qed

lemma sample_index_ok:
  assumes d: "unat d = n" "0 < n" "n < 2 ^ 31" and k: "k < m" and m: "m < 2 ^ 31" "m * n \<le> 2 ^ 32"
  shows "sample_index d (int m) (int k) = int (k * n div m)" and "k * n div m < n"
proof -
  have "k * n < m * n"
    using d(2) k by simp
  then have "k * unat d < 2 ^ 32"
    unfolding d(1) using m(2) by (rule less_le_trans)
  moreover have "k < 2 ^ 32"
    using k m(1) by simp
  ultimately have p: "unat (word_of_int (int k) * d :: u32) = k * n"
    using unat_prod d(1) by metis
  show q: "k * n div m < n"
    using \<open>k * n < m * n\<close> k by (simp add: div_less_iff_less_mult mult.commute)
  have u: "unat ((word_of_int (int k) * d) div word_of_int (int m) :: u32) = k * n div m"
    using p m(1) by (simp add: unat_div unat_of_nat)
  then have "sint ((word_of_int (int k) * d) div word_of_int (int m) :: u32) = int (k * n div m)"
    using q d(3) sint_u32 by (metis order.strict_trans)
  moreover have "sint d = int n"
    using d sint_u32 by metis
  ultimately show "sample_index d (int m) (int k) = int (k * n div m)"
    using q by (simp only: sample_index_def Let_def) (simp del: of_nat_mult)
qed

lemma px_ok:
  "i < length px \<Longrightarrow> px_read px (int i) = Inr (px ! i)"
  "i < length px \<Longrightarrow> px_write px (int i) c = Inr (px[i := c])"
  by (simp_all add: px_read_def px_write_def)

lemma cell_index:
  fixes i y x n :: nat
  assumes "x < n"
  shows "i = y * n + x \<longleftrightarrow> i div n = y \<and> i mod n = x"
proof
  assume "i = y * n + x"
  then show "i div n = y \<and> i mod n = x"
    using assms by simp
next
  assume "i div n = y \<and> i mod n = x"
  then show "i = y * n + x"
    using div_mult_mod_eq [of i n] by simp
qed

lemma nth_write_cell:
  assumes "x < n" "j < length d"
  shows "d[y * n + x := c] ! j = (if j div n = y \<and> j mod n = x then c else d ! j)"
proof (cases "j div n = y \<and> j mod n = x")
  case True
  then have "y * n + x = j"
    using cell_index [OF assms(1), of j y] by metis
  with True assms(2) show ?thesis by simp
next
  case False
  then have "y * n + x \<noteq> j"
    using cell_index [OF assms(1), of j y] by metis
  then have "d[y * n + x := c] ! j = d ! j"
    by (rule nth_list_update_neq)
  with False show ?thesis by (simp only: if_False)
qed

lemma cell_bound:
  fixes y x n h :: nat
  assumes "y < h" "x < n"
  shows "y * n + x < h * n"
proof -
  have "Suc y * n \<le> h * n"
    using assms(1) by (intro mult_le_mono1) simp
  then show ?thesis
    using assms(2) by simp
qed

section \<open>The copy samples the nearest pixel\<close>

definition nearest :: "u32 list \<Rightarrow> nat \<Rightarrow> nat \<Rightarrow> nat \<Rightarrow> nat \<Rightarrow> nat \<Rightarrow> nat \<Rightarrow> u32" where
  "nearest px w h dw dh y x = px ! ((y * h div dh) * w + x * w div dw)"

lemma copy_row_ok:
  assumes v: "vfb_ok v w h" and px: "length px = w * h"
    and dims: "dw < 2 ^ 31" "dh < 2 ^ 31" "dw * w \<le> 2 ^ 32" "dh * h \<le> 2 ^ 32" "dw \<le> ds"
    and dst: "dh * ds \<le> length dst" "length dst < 2 ^ 31" and y: "y < dh"
  shows "\<exists>d'. copy_row v px (int dw) (int dh) (int ds) (int y) dst = Inr d' \<and> length d' = length dst
    \<and> (\<forall>i < length dst. d' ! i = (if i div ds = y \<and> i mod ds < dw then nearest px w h dw dh y (i mod ds) else dst ! i))"
proof -
  have w: "unat (vfWidth v) = w" "0 < w" "unat (vfHeight v) = h" "0 < h"
    using v by (simp_all add: vfb_ok_def)
  let ?sy = "y * h div dh"
  note sy = sample_index_ok [OF w(3,4) vfb_dims(2) [OF v] y dims(2,4)]
  have row: "row_offset (sample_index (vfHeight v) (int dh) (int y)) (vfStride v) = int (?sy * w)"
    unfolding sy(1) by (rule row_offset_ok [OF v sy(2)])
  have "y * ds \<le> dh * ds"
    using y by simp
  then have "y * ds < 2 ^ 31"
    using dst by linarith
  then have dr: "int_mul (int y) (int ds) = Inr (int (y * ds))"
    by (simp add: int_mul_def int_ret_def int_range_def flip: of_nat_mult)
  let ?body = "\<lambda>x d. bnd (px_read px (int (?sy * w) + sample_index (vfWidth v) (int dw) x)) (\<lambda>c. px_write d (int (y * ds) + x) c)"
  let ?P = "\<lambda>S d. length d = length dst \<and> (\<forall>i < length dst.
    d ! i = (if i div ds = y \<and> int (i mod ds) \<in> S then nearest px w h dw dh y (i mod ds) else dst ! i))"
  have "\<exists>d'. for_each [0..int dw - 1] ?body dst = Inr d' \<and> ?P (set [0..int dw - 1]) d'"
  proof (rule for_each_set [where P = ?P])
    fix i S d
    assume "i \<in> set [0..int dw - 1]" and P: "?P S d"
    then obtain x where x: "i = int x" "x < dw"
      by (metis atLeastAtMost_iff int_ops(6) int_ops(2) nonneg_int_cases of_nat_less_iff set_upto zle_diff1_eq)
    note sx = sample_index_ok [OF w(1,2) vfb_dims(1) [OF v] x(2) dims(1,3)]
    have "?sy * w + x * w div dw < length px"
      using cell_bound [OF sy(2) sx(2)] by (simp add: px mult.commute)
    then have r: "px_read px (int (?sy * w) + sample_index (vfWidth v) (int dw) i) = Inr (nearest px w h dw dh y x)"
      unfolding x(1) sx(1) by (simp only: nearest_def of_nat_add [symmetric] px_ok(1))
    have "y * ds + x < length d"
      using cell_bound [OF y, of x ds] x(2) dims(5) dst(1) P by linarith
    then have "px_write d (int (y * ds) + i) (nearest px w h dw dh y x) = Inr (d[y * ds + x := nearest px w h dw dh y x])"
      unfolding x(1) by (simp only: of_nat_add [symmetric] px_ok(2))
    then have "?body i d = Inr (d[y * ds + x := nearest px w h dw dh y x])"
      by (simp only: r bnd.simps)
    moreover have "?P (insert i S) (d[y * ds + x := nearest px w h dw dh y x])"
    proof -
      have "x < ds" using x(2) dims(5) by simp
      then show ?thesis
        using P x(1) by (auto simp: nth_write_cell)
    qed
    ultimately show "\<exists>s'. ?body i d = Inr s' \<and> ?P (insert i S) s'"
      by blast
  qed simp
  then show ?thesis
    by (auto simp: copy_row_def Let_def row dr)
qed

text \<open>C31: For an initialized screen of \<open>w\<close> times \<open>h\<close> pixels, fewer than \<open>2^31\<close>, and a window whose
  products with the screen's sides stay within \<open>2^32\<close>: the copy stays in both buffers, every window
  pixel gets the screen pixel nearest to it from above and left, and the padding behind each row keeps
  its content.\<close>

theorem copyToTargetBuffer_nearest:
  assumes "vfb_ok v w h" "vfMmap v = Some (hdr, px)"
    and "dw < 2 ^ 31" "dh < 2 ^ 31" "dw * w \<le> 2 ^ 32" "dh * h \<le> 2 ^ 32" "dw \<le> ds"
    and "dh * ds \<le> length dst" "length dst < 2 ^ 31"
  shows "\<exists>d'. copyToTargetBuffer v (Some dst) (int dw) (int dh) (int ds) = Inr (Some d') \<and> length d' = length dst
    \<and> (\<forall>i < length dst. d' ! i = (if i div ds < dh \<and> i mod ds < dw
         then nearest px w h dw dh (i div ds) (i mod ds) else dst ! i))"
proof -
  have px: "length px = w * h"
    using assms(1,2) by (simp add: vfb_ok_def)
  let ?body = "copy_row v px (int dw) (int dh) (int ds)"
  let ?P = "\<lambda>S d. length d = length dst \<and> (\<forall>i < length dst.
    d ! i = (if int (i div ds) \<in> S \<and> i mod ds < dw then nearest px w h dw dh (i div ds) (i mod ds) else dst ! i))"
  have "\<exists>d'. for_each [0..int dh - 1] ?body dst = Inr d' \<and> ?P (set [0..int dh - 1]) d'"
  proof (rule for_each_set [where P = ?P])
    fix i S d
    assume "i \<in> set [0..int dh - 1]" and P: "?P S d"
    then obtain y where y: "i = int y" "y < dh"
      by (metis atLeastAtMost_iff nonneg_int_cases of_nat_less_iff set_upto zle_diff1_eq)
    obtain d' where "?body (int y) d = Inr d'" "length d' = length d"
      "\<forall>i < length d. d' ! i = (if i div ds = y \<and> i mod ds < dw then nearest px w h dw dh y (i mod ds) else d ! i)"
      using copy_row_ok [OF assms(1) px assms(3-7) _ _ y(2), of d] assms(8,9) P by auto
    then show "\<exists>s'. ?body i d = Inr s' \<and> ?P (insert i S) s'"
      using P y(1) by auto
  qed simp
  then show ?thesis
    using assms(2) by (auto simp: copyToTargetBuffer_def getPixelBuffer_def)
qed

theorem copyToTargetBuffer_nearest_witness:
  "\<exists>d'. copyToTargetBuffer (snd (initialize_vfb True True True vfb_new 4 2 ''/sb'')) (Some (replicate 3 0)) 2 1 3 = Inr (Some d')
    \<and> d' ! 1 = 0xFF141721 \<and> d' ! 2 = 0"
proof -
  let ?v = "snd (initialize_vfb True True True vfb_new 4 2 ''/sb'')"
  have "vfb_ok ?v 4 2"
    using initialize_vfb_ok [of 4 2 vfb_new "''/sb''"] by simp
  moreover obtain hdr where hdr: "vfMmap ?v = Some (hdr, replicate 8 0xFF141721)"
    by (simp add: initialize_vfb_def Let_def close_vfb_def)
  ultimately obtain d' where d: "copyToTargetBuffer ?v (Some (replicate 3 0)) (int 2) (int 1) (int 3) = Inr (Some d')"
    "\<forall>i < 3. d' ! i = (if i div 3 < 1 \<and> i mod 3 < 2
       then nearest (replicate 8 0xFF141721) 4 2 2 1 (i div 3) (i mod 3) else replicate 3 0 ! i)"
    using copyToTargetBuffer_nearest [of ?v 4 2 hdr "replicate 8 0xFF141721" 2 1 3 "replicate 3 0"] by auto
  from d(2) have "d' ! 1 = 0xFF141721" "d' ! 2 = 0"
    by (simp_all add: nearest_def)
  with d(1) show ?thesis by auto
qed

section \<open>The touch circle is a disc\<close>

definition in_disc :: "int \<Rightarrow> int \<Rightarrow> int \<Rightarrow> int \<Rightarrow> int \<Rightarrow> bool" where
  "in_disc x y r px py \<longleftrightarrow> (px - x) * (px - x) + (py - y) * (py - y) \<le> r * r"

lemma square_small:
  fixes d :: int
  assumes "\<bar>d\<bar> \<le> r" "r \<le> 32767"
  shows "d * d \<le> 1073676289" and "0 \<le> d * d"
proof -
  have "\<bar>d\<bar> * \<bar>d\<bar> \<le> 32767 * 32767"
    using assms by (intro mult_mono) simp_all
  then show "d * d \<le> 1073676289"
    by simp
qed simp

lemma int_range_iff: "int_range i \<longleftrightarrow> - 2147483648 \<le> i \<and> i < 2147483648"
  by (simp add: int_range_def)

lemma int_range_small: "\<bar>d\<bar> \<le> r \<Longrightarrow> r \<le> 32767 \<Longrightarrow> int_range d"
  by (simp add: int_range_def) linarith

lemma disc_pixel_ok:
  assumes "\<bar>p - x\<bar> \<le> r" "\<bar>dy\<bar> \<le> r" "r \<le> 32767"
  shows "disc_pixel x color (r * r) row dy p px =
    (if (p - x) * (p - x) + dy * dy \<le> r * r then px_write px (row + p) color else Inr px)"
proof -
  note s = square_small [OF assms(1,3)] square_small [OF assms(2,3)]
  have "int_range (p - x)"
    using assms(1,3) by (rule int_range_small)
  then have "int_ret (p - x) = Inr (p - x)"
    by (rule int_ret_ok)
  moreover have "int_mul (p - x) (p - x) = Inr ((p - x) * (p - x))" "int_mul dy dy = Inr (dy * dy)"
    "int_ret ((p - x) * (p - x) + dy * dy) = Inr ((p - x) * (p - x) + dy * dy)"
    using s unfolding int_mul_def by (intro int_ret_ok, unfold int_range_iff, linarith)+
  ultimately show ?thesis
    by (simp only: disc_pixel_def bnd.simps)
qed

lemma disc_row_ok:
  assumes v: "vfb_ok v w h" and d: "length d = w * h" and r: "r \<le> 32767" and q: "q < h" "\<bar>int q - y\<bar> \<le> r"
    and X: "\<And>p. p \<in> set ps \<Longrightarrow> 0 \<le> p \<and> p < int w \<and> \<bar>p - x\<bar> \<le> r"
  shows "\<exists>d'. for_each ps (disc_pixel x color (r * r) (row_offset (int q) (vfStride v)) (int q - y)) d = Inr d'
    \<and> length d' = w * h \<and> (\<forall>i < w * h. d' ! i =
        (if i div w = q \<and> int (i mod w) \<in> set ps \<and> in_disc x y r (int (i mod w)) (int q) then color else d ! i))"
proof -
  let ?body = "disc_pixel x color (r * r) (row_offset (int q) (vfStride v)) (int q - y)"
  let ?P = "\<lambda>S d'. length d' = w * h \<and> (\<forall>i < w * h. d' ! i =
    (if i div w = q \<and> int (i mod w) \<in> S \<and> in_disc x y r (int (i mod w)) (int q) then color else d ! i))"
  have "\<exists>d'. for_each ps ?body d = Inr d' \<and> ?P (set ps) d'"
  proof (rule for_each_set [where P = ?P])
    fix p S s
    assume p: "p \<in> set ps" and P: "?P S s"
    obtain n where n: "p = int n" "n < w"
      using X [OF p] nonneg_int_cases [of p] by auto
    have lt: "q * w + n < length s"
      using cell_bound [OF q(1) n(2)] P by (simp add: mult.commute)
    have wr: "px_write s (row_offset (int q) (vfStride v) + p) color = Inr (s[q * w + n := color])"
      unfolding row_offset_ok [OF v q(1)] n(1) by (simp only: of_nat_add [symmetric] px_ok(2) [OF lt])
    have dp: "?body p s = (if in_disc x y r p (int q) then Inr (s[q * w + n := color]) else Inr s)"
      using disc_pixel_ok [of p x r "int q - y" color] X [OF p] q(2) r
      by (simp only: wr in_disc_def)
    show "\<exists>s'. ?body p s = Inr s' \<and> ?P (insert p S) s'"
    proof (cases "in_disc x y r p (int q)")
      case True
      then show ?thesis
        using dp P n by (auto simp: nth_write_cell)
    next
      case False
      then show ?thesis
        using dp P n(1) by auto
    qed
  qed (simp add: d)
  then show ?thesis by blast
qed

text \<open>C32: A touch circle of radius at most 32767 is drawn without a fault on an initialized screen: exactly
  the pixels of the screen within the radius take the colour, all others keep theirs, and the
  frame counter moves on by one.\<close>

theorem drawTouchCircle_disc:
  assumes "vfb_ok v w h" "vfMmap v = Some (hdr, px)" "\<bar>x\<bar> \<le> 2 ^ 30" "\<bar>y\<bar> \<le> 2 ^ 30" "0 \<le> r" "r \<le> 32767"
  shows "\<exists>px'. drawTouchCircle v x y color r = Inr (v\<lparr>vfMmap := Some (next_frame hdr, px')\<rparr>) \<and> length px' = w * h
    \<and> (\<forall>i < w * h. px' ! i = (if in_disc x y r (int (i mod w)) (int (i div w)) then color else px ! i))"
proof -
  have len: "length px = w * h" and w0: "0 < w"
    using assms(1,2) by (simp_all add: vfb_ok_def)
  let ?xs = "[max 0 (x - r)..min (int w - 1) (x + r)]" and ?ys = "[max 0 (y - r)..min (int h - 1) (y + r)]"
  let ?body = "\<lambda>q px. bnd (int_ret (q - y)) (\<lambda>dy.
    for_each ?xs (disc_pixel x color (r * r) (row_offset q (vfStride v)) dy) px)"
  let ?P = "\<lambda>S d'. length d' = w * h \<and> (\<forall>i < w * h. d' ! i =
    (if int (i div w) \<in> S \<and> int (i mod w) \<in> set ?xs \<and> in_disc x y r (int (i mod w)) (int (i div w)) then color else px ! i))"
  have "\<exists>d'. for_each ?ys ?body px = Inr d' \<and> ?P (set ?ys) d'"
  proof (rule for_each_set [where P = ?P])
    fix q S s
    assume q: "q \<in> set ?ys" and P: "?P S s"
    then have q': "0 \<le> q" "q < int h" "\<bar>q - y\<bar> \<le> r" by auto
    then obtain n where n: "q = int n" "n < h"
      using nonneg_int_cases [of q] by auto
    have "int_ret (q - y) = Inr (q - y)"
      using q'(3) assms(6) by (intro int_ret_ok int_range_small)
    moreover have "\<exists>d'. for_each ?xs (disc_pixel x color (r * r) (row_offset (int n) (vfStride v)) (int n - y)) s = Inr d'
      \<and> length d' = w * h \<and> (\<forall>i < w * h. d' ! i =
        (if i div w = n \<and> int (i mod w) \<in> set ?xs \<and> in_disc x y r (int (i mod w)) (int n) then color else s ! i))"
      using P q'(3) n by (intro disc_row_ok [OF assms(1) _ assms(6)]) auto
    ultimately show "\<exists>s'. ?body q s = Inr s' \<and> ?P (insert q S) s'"
      using P n(1) by auto
  qed (simp add: len)
  then obtain d' where d: "for_each ?ys ?body px = Inr d'" "length d' = w * h" "\<forall>i < w * h. d' ! i =
    (if int (i div w) \<in> set ?ys \<and> int (i mod w) \<in> set ?xs \<and> in_disc x y r (int (i mod w)) (int (i div w)) then color else px ! i)"
    by blast
  have "int_mul r r = Inr (r * r)"
    using square_small [of r r] assms(5,6) unfolding int_mul_def by (intro int_ret_ok, unfold int_range_iff) linarith
  moreover have b: "\<bar>x\<bar> \<le> 1073741824" "\<bar>y\<bar> \<le> 1073741824"
    using assms(3,4) by simp_all
  moreover have "int_ret (x - r) = Inr (x - r)" "int_ret (x + r) = Inr (x + r)"
    "int_ret (y - r) = Inr (y - r)" "int_ret (y + r) = Inr (y + r)"
    using b assms(5,6) by (intro int_ret_ok, unfold int_range_iff, linarith)+
  ultimately have run: "drawTouchCircle v x y color r = Inr (v\<lparr>vfMmap := Some (next_frame hdr, d')\<rparr>)"
    using d(1) assms(2) by (simp add: drawTouchCircle_def vfb_dims(3,4) [OF assms(1)] Let_def)
  have near: "\<bar>p - x\<bar> \<le> r \<and> \<bar>q - y\<bar> \<le> r" if "in_disc x y r p q" for p q
  proof -
    have "(p - x) * (p - x) \<le> r * r" "(q - y) * (q - y) \<le> r * r"
      using that zero_le_square [of "p - x"] zero_le_square [of "q - y"] unfolding in_disc_def by linarith+
    then show ?thesis
      using abs_le_square_iff [of "p - x" r] abs_le_square_iff [of "q - y" r] assms(5) by (simp add: power2_eq_square)
  qed
  have "int (i div w) \<in> set ?ys \<and> int (i mod w) \<in> set ?xs"
    if "i < w * h" "in_disc x y r (int (i mod w)) (int (i div w))" for i
  proof -
    have "i div w < h" "i mod w < w"
      using that(1) w0 by (simp_all add: less_mult_imp_div_less mult.commute)
    then show ?thesis
      using near [OF that(2)] by auto
  qed
  then show ?thesis
    using run d(2,3) by auto
qed

theorem drawTouchCircle_disc_witness:
  "\<exists>v'. drawTouchCircle (snd (initialize_vfb True True True vfb_new 4 2 ''/sb'')) 1 0 7 1 = Inr v' \<and> getFrameSequence v' = 2"
proof -
  let ?v = "snd (initialize_vfb True True True vfb_new 4 2 ''/sb'')"
  have ok: "vfb_ok ?v 4 2"
    using initialize_vfb_ok [of 4 2 vfb_new "''/sb''"] by simp
  obtain hdr px where m: "vfMmap ?v = Some (hdr, px)" "vhFrameSequence hdr = 1"
    by (simp add: initialize_vfb_def Let_def close_vfb_def)
  obtain px' where "drawTouchCircle ?v 1 0 7 1 = Inr (?v\<lparr>vfMmap := Some (next_frame hdr, px')\<rparr>)"
    using drawTouchCircle_disc [OF ok m(1), of 1 0 1 7] by auto
  then show ?thesis
    by (simp add: getFrameSequence_def next_frame_def m(2))
qed

text \<open>Clearing colours every pixel of the mapping.\<close>

lemma clearScreen_all:
  assumes "vfb_ok v w h" "vfMmap v = Some (hdr, px)"
  shows "clearScreen v color = Inr (v\<lparr>vfMmap := Some (next_frame hdr, replicate (w * h) color)\<rparr>)"
proof -
  have "unat (vfStride v * vfHeight v) = w * h"
    using assms(1) by (auto simp: vfb_ok_def unat_word_ariths(2))
  then show ?thesis
    using assms by (simp add: clearScreen_def vfb_ok_def Let_def)
qed

text \<open>
  When the product of the sides reaches \<open>2^32\<close> the mapping is smaller than the screen it claims to hold, and
  the copy of its last row reads outside; a screen of height zero makes every copy do so.
\<close>

lemma vfb_size_wraps:
  "fst (initialize_vfb True True True v 65536 65536 dir)
   \<and> getPixelBuffer (snd (initialize_vfb True True True v 65536 65536 dir)) = Some []
   \<and> copyToTargetBuffer (snd (initialize_vfb True True True v 65536 65536 dir)) (Some [0]) 1 1 1 = Inl OutOfBounds"
  by (simp add: initialize_vfb_def Let_def getPixelBuffer_def copyToTargetBuffer_def copy_row_def int_mul_def
    int_ret_def int_range_def sample_index_def row_offset_def px_read_def close_vfb_def)

lemma vfb_height_zero:
  "copyToTargetBuffer (snd (initialize_vfb True True True v 16 0 dir)) (Some [0]) 1 1 1 = Inl OutOfBounds"
  by (simp add: initialize_vfb_def Let_def getPixelBuffer_def copyToTargetBuffer_def copy_row_def int_mul_def
    int_ret_def int_range_def sample_index_def row_offset_def px_read_def close_vfb_def)

section \<open>Painting a grid\<close>

text \<open>Two nested loops that write one cell per pair paint exactly the cells of the pairs.\<close>

definition painted :: "nat \<Rightarrow> (int \<Rightarrow> int \<Rightarrow> bool) \<Rightarrow> (int \<Rightarrow> int \<Rightarrow> u32) \<Rightarrow> u32 list \<Rightarrow> u32 list \<Rightarrow> bool" where
  "painted n m c p p' \<longleftrightarrow> length p' = length p \<and>
     (\<forall>i < length p. p' ! i = (if m (int (i div n)) (int (i mod n)) then c (int (i div n)) (int (i mod n)) else p ! i))"

lemma paint_row:
  assumes xs: "\<forall>x \<in> set xs. 0 \<le> x \<and> x < int n" and y: "0 \<le> y"
    and body: "\<And>x p'. x \<in> set xs \<Longrightarrow> length p' = length p \<Longrightarrow> body x p' = Inr (p'[nat y * n + nat x := c y x])"
  shows "\<exists>p'. for_each xs body p = Inr p' \<and> painted n (\<lambda>j x. j = y \<and> x \<in> set xs) c p p'"
  unfolding painted_def
proof (rule for_each_set [where P = "\<lambda>S p'. length p' = length p \<and> (\<forall>i < length p. p' ! i =
    (if int (i div n) = y \<and> int (i mod n) \<in> S then c (int (i div n)) (int (i mod n)) else p ! i))"], goal_cases)
  case (1 x S p')
  have x: "0 \<le> x" "nat x < n"
    using xs 1(1) by auto
  have "p'[nat y * n + nat x := c y x] ! i =
      (if int (i div n) = y \<and> int (i mod n) \<in> insert x S then c (int (i div n)) (int (i mod n)) else p ! i)"
    if "i < length p" for i
    using nth_write_cell [OF x(2), where c = "c y x" and j = i and d = p' and y = "nat y"] 1(2) that x(1) y by (auto simp: nat_eq_iff2)
  then show ?case
    using body [OF 1(1)] 1(2) by simp
qed simp

lemma paint_grid:
  assumes ys: "\<forall>y \<in> set ys. 0 \<le> y" and xs: "\<forall>y \<in> set ys. \<forall>x \<in> set (xs y). 0 \<le> x \<and> x < int n"
    and body: "\<And>y x p'. y \<in> set ys \<Longrightarrow> x \<in> set (xs y) \<Longrightarrow> length p' = length p \<Longrightarrow>
      body y x p' = Inr (p'[nat y * n + nat x := c y x])"
  shows "\<exists>p'. for_each ys (\<lambda>y. for_each (xs y) (body y)) p = Inr p'
    \<and> painted n (\<lambda>y x. y \<in> set ys \<and> x \<in> set (xs y)) c p p'"
  unfolding painted_def
proof (rule for_each_set [where P = "\<lambda>S p'. length p' = length p \<and> (\<forall>i < length p. p' ! i =
    (if int (i div n) \<in> S \<and> int (i mod n) \<in> set (xs (int (i div n))) then c (int (i div n)) (int (i mod n)) else p ! i))"], goal_cases)
  case (1 y S p')
  have y: "0 \<le> y"
    using ys 1(1) by auto
  from paint_row [OF bspec [OF xs 1(1)] y, where body = "body y" and c = c and p = p']
  obtain q where q: "for_each (xs y) (body y) p' = Inr q" "painted n (\<lambda>j x. j = y \<and> x \<in> set (xs y)) c p' q"
    using body [OF 1(1)] 1(2) by auto
  then show ?case
    using 1(2) by (auto simp: painted_def)
qed simp

text \<open>Drawing changes pixels to opaque colours only, and no cell beside the buffer.\<close>

definition drawn_over :: "u32 list \<Rightarrow> u32 list \<Rightarrow> bool" where
  "drawn_over px px' \<longleftrightarrow> length px' = length px
     \<and> (\<forall>i < length px. px' ! i = px ! i \<or> px' ! i AND 0xFF000000 = 0xFF000000)"

lemma drawn_over_refl: "drawn_over px px"
  by (simp add: drawn_over_def)

end
