(* ===== verification/Gralloc_Bridge.thy ===== *)
theory Gralloc_Bridge
  imports Virtual_Framebuffer Host_Files Float_Ops
begin

text \<open>
  The virtual graphic buffers of \<^verbatim>\<open>gralloc_bridge.cpp\<close> and the cells its boot animation
  writes in the frame buffer. The results of \<^verbatim>\<open>open\<close>, \<^verbatim>\<open>ftruncate\<close> and
  \<^verbatim>\<open>mmap\<close> and the descriptor are parameters, and so is the arithmetic in single precision
  from which the animation takes its colours.
\<close>

record VirtualGraphicBuffer =
  gbId :: u32
  gbWidth :: u32
  gbHeight :: u32
  gbStride :: u32
  gbFormat :: u32
  gbUsage :: u32
  gbSize :: u64
  gbFd :: int

record gralloc =
  grSandboxDir :: string
  grNextBufferId :: u32
  grBuffers :: "VirtualGraphicBuffer list"
  grAnimRunning :: bool

definition gralloc_new :: gralloc where
  "gralloc_new = \<lparr>grSandboxDir = [], grNextBufferId = 1, grBuffers = [], grAnimRunning = False\<rparr>"

definition initialize_gralloc :: "gralloc \<Rightarrow> string \<Rightarrow> bool \<times> gralloc" where
  "initialize_gralloc g dir = (True, g\<lparr>grSandboxDir := dir\<rparr>)"

definition startBootAnimation :: "gralloc \<Rightarrow> gralloc" where
  "startBootAnimation g = (if grAnimRunning g then g else g\<lparr>grAnimRunning := True\<rparr>)"

definition stopBootAnimation :: "gralloc \<Rightarrow> gralloc" where
  "stopBootAnimation g = (if \<not> grAnimRunning g then g else g\<lparr>grAnimRunning := False\<rparr>)"

text \<open>The backing files stay.\<close>

definition close_gralloc :: "gralloc \<Rightarrow> gralloc" where
  "close_gralloc g = (stopBootAnimation g)\<lparr>grBuffers := []\<rparr>"

section \<open>Buffers\<close>

definition align16 :: "u32 \<Rightarrow> u32" where
  "align16 width = (width + 15) AND NOT 15"

text \<open>The size is formed in 32 bits before it becomes a \<^verbatim>\<open>size_t\<close>.\<close>

definition buffer_size :: "u32 \<Rightarrow> u32 \<Rightarrow> u32" where
  "buffer_size width height = align16 width * height * 4"

definition buffer_path :: "gralloc \<Rightarrow> u32 \<Rightarrow> string" where
  "buffer_path g i = grSandboxDir g @ ''/tmp/gralloc_'' @ dec (unat i) @ ''.raw''"

definition allocateBuffer ::
  "bool \<Rightarrow> bool \<Rightarrow> int \<Rightarrow> gralloc \<Rightarrow> host \<Rightarrow> u32 \<Rightarrow> u32 \<Rightarrow> u32 \<Rightarrow> u32
    \<Rightarrow> VirtualGraphicBuffer option \<times> gralloc \<times> host" where
  "allocateBuffer trunc_ok mmap_ok fd g h width height format usage =
     (let i = grNextBufferId g;
          g = g\<lparr>grNextBufferId := i + 1\<rparr>;
          size = buffer_size width height;
          path = buffer_path g i;
          (h, open_ok) = host_write h path 438 []
      in if \<not> open_ok then (None, g, h)
         else if \<not> trunc_ok then (None, g, host_unlink h path)
         else if \<not> mmap_ok then (None, g, host_unlink h path)
         else
           let h = fst (host_write h path 438 (replicate (unat size) nul));
               b = \<lparr>gbId = i, gbWidth = width, gbHeight = height, gbStride = align16 width, gbFormat = format,
                    gbUsage = usage, gbSize = ucast size, gbFd = fd\<rparr>
           in (Some b, g\<lparr>grBuffers := grBuffers g @ [b]\<rparr>, h))"

fun remove_buffer :: "u32 \<Rightarrow> VirtualGraphicBuffer list \<Rightarrow> VirtualGraphicBuffer list" where
  "remove_buffer i [] = []"
| "remove_buffer i (b # bs) = (if gbId b = i then bs else b # remove_buffer i bs)"

definition freeBuffer :: "gralloc \<Rightarrow> host \<Rightarrow> u32 \<Rightarrow> gralloc \<times> host" where
  "freeBuffer g h i =
     (if i \<in> gbId ` set (grBuffers g)
      then (g\<lparr>grBuffers := remove_buffer i (grBuffers g)\<rparr>, host_unlink h (buffer_path g i)) else (g, h))"

definition getActiveBufferCount :: "gralloc \<Rightarrow> nat" where
  "getActiveBufferCount g = length (grBuffers g)"

definition getGraphicsStats :: "gralloc \<Rightarrow> string" where
  "getGraphicsStats g =
     ''Gralloc Buffers: '' @ dec (length (grBuffers g)) @ '' | VFB: 720x1280 RGBA8888'' @ '' | BootAnim: ''
     @ (if grAnimRunning g then ''ACTIVE (60 FPS)'' else ''IDLE'')"

section \<open>A frame of the boot animation\<close>

text \<open>The cell of a coordinate: the sum is formed in 32 bits.\<close>

definition cell :: "u32 \<Rightarrow> int \<Rightarrow> int \<Rightarrow> int" where
  "cell stride y x = uint (word_of_int y * stride + word_of_int x :: u32)"

definition f_dist :: "'f float_ops \<Rightarrow> 'f \<Rightarrow> 'f \<Rightarrow> 'f" where
  "f_dist F dx dy = fSqrt F (fAdd F (fMul F dx dx) (fMul F dy dy))"

text \<open>The shape of the robot, in coordinates relative to the middle: head without eyes, antennae, torso, arms, legs.\<close>

definition f_between :: "'f float_ops \<Rightarrow> 'f \<Rightarrow> int \<Rightarrow> int \<Rightarrow> bool" where
  "f_between F d lo hi \<longleftrightarrow> fLeq F (fDec F lo 0) d \<and> fLeq F d (fDec F hi 0)"

definition near :: "'f float_ops \<Rightarrow> 'f \<Rightarrow> int \<Rightarrow> bool" where
  "near F d r \<longleftrightarrow> fLeq F (fAbs F d) (fDec F r 0)"

definition is_robot :: "'f float_ops \<Rightarrow> 'f \<Rightarrow> 'f \<Rightarrow> bool" where
  "is_robot F dx dy \<longleftrightarrow>
     (let head = fAdd F dy (fDec F 25 0);
          slant = fMul F (fSub F (fDec F (- 95) 0) dy) (fDec F 6 1)
      in (fLeq F (f_dist F dx head) (fDec F 75 0) \<and> fLeq F head (fDec F 0 0)
            \<and> fLess F (fDec F 8 0) (f_dist F (fAdd F dx (fDec F 30 0)) (fAdd F dy (fDec F 65 0)))
            \<and> fLess F (fDec F 8 0) (f_dist F (fSub F dx (fDec F 30 0)) (fAdd F dy (fDec F 65 0))))
         \<or> (f_between F dy (- 135) (- 95)
            \<and> (near F (fSub F dx (fSub F (fDec F (- 30) 0) slant)) 4 \<or> near F (fSub F dx (fAdd F (fDec F 30 0) slant)) 4))
         \<or> (near F dx 75 \<and> f_between F dy (- 15) 75)
         \<or> (f_between F dy (- 10) 60 \<and> (near F (fAdd F dx (fDec F 95 0)) 12 \<or> near F (fSub F dx (fDec F 95 0)) 12))
         \<or> (f_between F dy 80 125 \<and> (near F (fAdd F dx (fDec F 30 0)) 14 \<or> near F (fSub F dx (fDec F 30 0)) 14)))"

definition rgb :: "u8 \<Rightarrow> u8 \<Rightarrow> u8 \<Rightarrow> u32" where
  "rgb r g b = 0xFF000000 OR push_bit 16 (ucast b) OR push_bit 8 (ucast g) OR ucast r"

text \<open>A falling-off brightness: one at no distance, zero from the given distance on.\<close>

definition falloff :: "'f float_ops \<Rightarrow> 'f \<Rightarrow> int \<Rightarrow> 'f" where
  "falloff F d r = f_max F (fDec F 0 0) (fSub F (fDec F 1 0) (fDiv F d (fDec F r 0)))"

definition ramp :: "'f float_ops \<Rightarrow> int \<Rightarrow> int \<Rightarrow> 'f \<Rightarrow> fault + u8" where
  "ramp F base gain v = f_to_u8 F (fAdd F (fDec F base 0) (fMul F (fDec F gain 0) v))"

definition rgb_ramps :: "'f float_ops \<Rightarrow> int \<times> int \<Rightarrow> int \<times> int \<Rightarrow> int \<times> int \<Rightarrow> 'f \<Rightarrow> fault + u32" where
  "rgb_ramps F cr cg cb v =
     bnd (ramp F (fst cr) (snd cr) v) (\<lambda>r. bnd (ramp F (fst cg) (snd cg) v) (\<lambda>g.
     bnd (ramp F (fst cb) (snd cb) v) (\<lambda>b. Inr (rgb r g b))))"

text \<open>The background colour is computed for every pixel and used outside the robot.\<close>

definition boot_pixel :: "'f float_ops \<Rightarrow> 'f \<Rightarrow> 'f \<Rightarrow> int \<Rightarrow> int \<Rightarrow> int \<Rightarrow> int \<Rightarrow> fault + u32" where
  "boot_pixel F pulse sweep cx cy x y =
     (let dx = fInt F (x - cx); dy = fInt F (y - cy);
          aura = fMul F (falloff F (f_dist F dx dy) 450) pulse
      in bnd (rgb_ramps F (10, 5) (13, 25) (20, 45) aura) (\<lambda>bg.
           if is_robot F dx dy
           then rgb_ramps F (0, 220) (230, 25) (118, 137) (falloff F (fAbs F (fSub F (fInt F (x + y)) sweep)) 60)
           else Inr bg))"

definition render_background ::
  "(int \<Rightarrow> int \<Rightarrow> fault + u32) \<Rightarrow> u32 \<Rightarrow> u32 \<Rightarrow> u32 \<Rightarrow> u32 list \<Rightarrow> fault + u32 list" where
  "render_background shade width height stride px =
     for_each [0..sint height - 1] (\<lambda>y px.
       for_each [0..sint width - 1] (\<lambda>x px. bnd (shade x y) (\<lambda>c. px_write px (cell stride y x) c)) px) px"

text \<open>Division by two rounds toward zero.\<close>

definition half :: "u32 \<Rightarrow> int" where
  "half u = sgn (sint u) * (\<bar>sint u\<bar> div 2)"

definition bar_pixel :: "'f float_ops \<Rightarrow> int \<Rightarrow> int \<Rightarrow> fault + u32" where
  "bar_pixel F activeX x =
     bnd (f_to_u8 F (fMul F (falloff F (fInt F \<bar>x - activeX\<bar>) 30) (fDec F 255 0))) (\<lambda>glow.
       Inr (rgb glow (max glow 60) (max glow 90)))"

text \<open>The pulse bar checks its rows against the screen and not its columns.\<close>

definition render_pulse_bar :: "(int \<Rightarrow> fault + u32) \<Rightarrow> u32 \<Rightarrow> u32 \<Rightarrow> u32 \<Rightarrow> u32 list \<Rightarrow> fault + u32 list" where
  "render_pulse_bar glow width height stride px =
     (let cx = half width; cy = half height - 40;
          barY = cy + 220; barLeft = cx - 130; barRight = cx + 130
      in for_each [barY..barY + 3] (\<lambda>y px.
           if y < 0 \<or> y \<ge> sint height then Inr px
           else for_each [barLeft..barRight - 1] (\<lambda>x px. bnd (glow x) (\<lambda>c. px_write px (cell stride y x) c)) px) px)"

definition renderBootAnimationFrame ::
  "'f float_ops \<Rightarrow> u32 \<Rightarrow> u32 \<Rightarrow> u32 \<Rightarrow> 'f \<Rightarrow> u32 list \<Rightarrow> fault + u32 list" where
  "renderBootAnimationFrame F width height stride timeSec px =
     (if width = 0 \<or> height = 0 then Inr px
      else
        let cx = half width; cy = half height - 40;
            pulse = fAdd F (fDec F 85 2) (fMul F (fDec F 15 2) (fSin F (fMul F timeSec (fDec F 3 0))));
            sweep = fSub F (fMod F (fMul F timeSec (fDec F 450 0)) (fInt F (uint (width + height + 200)))) (fDec F 100 0)
        in bnd (render_background (boot_pixel F pulse sweep cx cy) width height stride px) (\<lambda>px.
             let barProgress = fMod F (fMul F timeSec (fDec F 7 1)) (fDec F 1 0) in
             bnd (f_to_int F (fMul F barProgress (fInt F 260))) (\<lambda>k.
             bnd (int_ret (cx - 130 + k)) (\<lambda>activeX.
               render_pulse_bar (bar_pixel F activeX) width height stride px))))"

definition boot_animation_round :: "'f float_ops \<Rightarrow> 'f \<Rightarrow> gralloc \<Rightarrow> vfb \<Rightarrow> fault + vfb" where
  "boot_animation_round F timeSec g v =
     (if \<not> grAnimRunning g then Inr v
      else case vfMmap v of
        None \<Rightarrow> Inr v
      | Some (hdr, px) \<Rightarrow>
          bnd (renderBootAnimationFrame F (vfWidth v) (vfHeight v) (vfStride v) timeSec px)
            (\<lambda>px. Inr (v\<lparr>vfMmap := Some (hdr, px)\<rparr>)))"

section \<open>Correctness\<close>

text \<open>The identifiers of the live buffers are distinct as long as the counter has not wrapped.\<close>

definition gralloc_ok :: "gralloc \<Rightarrow> bool" where
  "gralloc_ok g \<longleftrightarrow> distinct (map gbId (grBuffers g)) \<and> (\<forall>b \<in> set (grBuffers g). unat (gbId b) < unat (grNextBufferId g))"

lemma set_remove_buffer: "set (remove_buffer i bs) \<subseteq> set bs"
  by (induction bs) auto

lemma distinct_remove_buffer: "distinct (map gbId bs) \<Longrightarrow> distinct (map gbId (remove_buffer i bs)) \<and> i \<notin> gbId ` set (remove_buffer i bs)"
proof (induction bs)
  case (Cons b bs)
  then show ?case
    using set_remove_buffer [of i bs] by (auto simp: image_iff)
qed simp

lemma allocate_ok:
  assumes "gralloc_ok g" "unat (grNextBufferId g) < 2 ^ 32 - 1"
  shows "gralloc_ok (fst (snd (allocateBuffer t m fd g h w ht fmt u)))"
proof -
  have "unat (grNextBufferId g + 1) = unat (grNextBufferId g) + 1"
    using assms(2) by (simp add: unat_word_ariths(1))
  then show ?thesis
    using assms(1) by (auto simp: gralloc_ok_def allocateBuffer_def Let_def less_Suc_eq split: prod.splits)
qed

lemma free_ok: "gralloc_ok g \<Longrightarrow> gralloc_ok (fst (freeBuffer g h i)) \<and> i \<notin> gbId ` set (grBuffers (fst (freeBuffer g h i)))"
  using distinct_remove_buffer [of "grBuffers g" i] set_remove_buffer [of i "grBuffers g"]
  by (auto simp: gralloc_ok_def freeBuffer_def)

lemma and_not_mask: "w AND NOT (mask n) = push_bit n (drop_bit n (w :: u32))"
  by (rule bit_eqI) (auto simp: bit_simps)

lemma align16_value:
  assumes "unat width + 15 < 2 ^ 32"
  shows "unat (align16 width) = (unat width + 15) div 16 * 16"
proof -
  have "unat (width + 15) = unat width + 15"
    using assms by (simp add: unat_word_ariths(1))
  moreover have "w AND NOT 15 = push_bit 4 (drop_bit 4 w)" for w :: u32
    using and_not_mask [of w 4] by (simp add: mask_eq_exp_minus_1)
  ultimately have "unat (align16 width) = unat (push_bit 4 (drop_bit 4 (width + 15)))"
    by (simp only: align16_def)
  also have "\<dots> = unat (width + 15) div 16 * 16"
  proof -
    have "unat (drop_bit 4 (width + 15)) = unat (width + 15) div 16"
      by (simp only: unsigned_drop_bit_eq take_bit_nat_eq_self [OF unsigned_less]) (simp add: drop_bit_eq_div)
    moreover have "unat (width + 15) div 16 * 16 < 2 ^ 32"
      using unat_u32_less [of "width + 15"] by (meson div_times_less_eq_dividend le_less_trans)
    ultimately show ?thesis
      by (simp add: push_bit_eq_mult unat_word_ariths(2))
  qed
  also have "\<dots> = (unat width + 15) div 16 * 16"
    using assms by (simp add: unat_word_ariths(1))
  finally show ?thesis .
qed

text \<open>A buffer holds its pixels when the sides are small enough for 32 bits.\<close>

lemma buffer_size_value:
  assumes "unat width + 15 < 2 ^ 32" "(unat width + 15) * unat height * 4 < 2 ^ 32"
  shows "unat (buffer_size width height) = (unat width + 15) div 16 * 16 * unat height * 4"
    and "unat width * unat height * 4 \<le> unat (buffer_size width height)"
proof -
  let ?s = "(unat width + 15) div 16 * 16"
  have "?s \<le> unat width + 15" by simp
  then have "?s * unat height * 4 \<le> (unat width + 15) * unat height * 4"
    by (intro mult_le_mono1)
  then have lt: "?s * unat height * 4 < 2 ^ 32"
    using assms(2) by linarith
  have "unat (align16 width * height) = ?s * unat height"
    using lt align16_value [OF assms(1)] by (simp add: unat_word_ariths(2))
  then show e: "unat (buffer_size width height) = ?s * unat height * 4"
    using lt by (simp add: buffer_size_def unat_word_ariths(2))
  have "unat width \<le> ?s"
    by linarith
  then show "unat width * unat height * 4 \<le> unat (buffer_size width height)"
    unfolding e by (intro mult_le_mono1)
qed

text \<open>A buffer of 32768 times 32769 pixels gets 131072 bytes.\<close>

lemma buffer_size_wraps: "unat (buffer_size 32768 32769) = 131072"
proof -
  have "unat (align16 32768) = 32768"
    using align16_value [of 32768] by simp
  then show ?thesis
    by (simp add: buffer_size_def unat_word_ariths(2))
qed

text \<open>
  On a screen of 362 rows, which puts the bar on its last row, and of at most 258 columns, the bar
  writes behind the end of the buffer.
\<close>

lemma for_each_stuck:
  assumes "i \<in> set is" "\<And>s. Q s \<Longrightarrow> \<exists>e. body i s = Inl e" "\<And>j s s'. Q s \<Longrightarrow> body j s = Inr s' \<Longrightarrow> Q s'"
  shows "Q s \<Longrightarrow> \<exists>e. for_each is body s = Inl e"
  using assms(1)
proof (induction "is" arbitrary: s)
  case (Cons k ks)
  show ?case
  proof (cases "body k s")
    case (Inl e)
    then show ?thesis by simp
  next
    case (Inr s')
    then have "i \<in> set ks"
      using Cons.prems assms(2) [OF Cons.prems(1)] by auto
    then show ?thesis
      using Inr Cons.IH [OF assms(3) [OF Cons.prems(1) Inr]] by simp
  qed
qed simp

lemma px_write_length: "px_write px i c = Inr px' \<Longrightarrow> length px' = length px"
  by (auto simp: px_write_def split: if_splits)

lemma pulse_bar_leaves_screen:
  assumes "unat width = n" "0 < n" "n \<le> 258" "length px = n * 362"
  shows "\<exists>e. render_pulse_bar glow width 362 width px = Inl e"
proof -
  let ?cx = "half width"
  let ?bar = "\<lambda>y px. for_each [?cx - 130..?cx + 130 - 1] (\<lambda>x px. bnd (glow x) (\<lambda>c. px_write px (cell width y x) c)) px"
  let ?Q = "\<lambda>p. length p = n * 362"
  have w: "sint width = int n"
    using assms(1,3) sint_u32 [of width] by simp
  then have mem: "int n \<in> set [?cx - 130..?cx + 130 - 1]"
  proof -
    have "int n div 2 - 130 \<le> int n" "int n \<le> 129 + int n div 2"
      using assms(2,3) by presburger+
    then show ?thesis
      using w assms(2) by (simp add: half_def)
  qed
  have "unat (word_of_int 361 * width + word_of_int (int n) :: u32) = 362 * n"
    using assms(1,3) by (simp add: unat_word_ariths(1,2) unat_of_nat)
  then have "cell width 361 (int n) = int (362 * n)"
    by (simp only: cell_def uint_nat)
  then have "\<exists>e. px_write p (cell width 361 (int n)) c = Inl e" if "?Q p" for p c
    using that by (simp add: px_write_def)
  then have "\<exists>e. bnd (glow (int n)) (\<lambda>c. px_write p (cell width 361 (int n)) c) = Inl e" if "?Q p" for p
    using that by (cases "glow (int n)") auto
  then have "\<exists>e. ?bar 361 px = Inl e"
    using assms(4) by (intro for_each_stuck [OF mem, where Q = ?Q]) (auto simp: bnd_Inr_iff px_write_length)
  then obtain e where e: "?bar 361 px = Inl e" ..
  have h: "sint (362 :: u32) = 362"
    using sint_u32 [of 362] by simp
  then have "half 362 - 40 + 220 = 361" "[361..361 + 3] = [361, 362, 363, 364 :: int]"
    by (simp_all add: upto.simps half_def)
  then show ?thesis
    unfolding render_pulse_bar_def Let_def h by (simp only: for_each.simps e) simp
qed

section \<open>A frame on a screen wide enough for the bar\<close>

lemma f_to_u8_cases: "f_to_u8 F x = Inl FloatRange \<or> (\<exists>c. f_to_u8 F x = Inr c \<and> True)"
  using f_to_u8_fault by (metis sum.exhaust)

lemma rgb_opaque: "rgb r g b AND 0xFF000000 = 0xFF000000"
  by (simp add: rgb_def word_ao_absorbs or.assoc)

definition opaque_or_range :: "fault + u32 \<Rightarrow> bool" where
  "opaque_or_range r \<longleftrightarrow> r = Inl FloatRange \<or> (\<exists>c. r = Inr c \<and> c AND 0xFF000000 = 0xFF000000)"

lemma rgb_ramps_opaque: "opaque_or_range (rgb_ramps F cr cg cb v)"
  unfolding rgb_ramps_def ramp_def
  by (rule bnd_allows [OF f_to_u8_cases, where Q = opaque_or_range],
      rule bnd_allows [OF f_to_u8_cases, where Q = opaque_or_range],
      rule bnd_allows [OF f_to_u8_cases, where Q = opaque_or_range])
    (simp_all add: opaque_or_range_def rgb_opaque)

lemma boot_pixel_opaque: "opaque_or_range (boot_pixel F pulse sweep cx cy x y)"
proof -
  have "opaque_or_range (bnd (rgb_ramps F cr cg cb v) (\<lambda>bg. if P then rgb_ramps F cr' cg' cb' u else Inr bg))"
    for cr cg cb cr' cg' cb' u v P
    using rgb_ramps_opaque [of F cr cg cb v] rgb_ramps_opaque [of F cr' cg' cb' u]
    by (cases "rgb_ramps F cr cg cb v") (simp_all add: opaque_or_range_def)
  then show ?thesis
    unfolding boot_pixel_def Let_def .
qed

lemma bar_pixel_opaque: "opaque_or_range (bar_pixel F activeX x)"
  unfolding bar_pixel_def
  by (rule bnd_allows [OF f_to_u8_cases, where Q = opaque_or_range]) (simp_all add: opaque_or_range_def rgb_opaque)

text \<open>One cell of the screen, and what is known of the rows and columns already painted.\<close>

definition painted_opaque :: "nat \<Rightarrow> int set \<Rightarrow> u32 list \<Rightarrow> u32 list \<Rightarrow> bool" where
  "painted_opaque w S px p \<longleftrightarrow> length p = length px
     \<and> (\<forall>i < length px. int (i div w) \<in> S \<longrightarrow> p ! i AND 0xFF000000 = 0xFF000000)"

lemma cell_write:
  assumes "vfb_ok v w h" "y < h" "x < w" "length p = w * h"
  shows "px_write p (cell (vfStride v) (int y) (int x)) c = Inr (p[y * w + x := c])"
proof -
  have c: "y * w + x < h * w"
    using cell_bound assms(2,3) .
  have wh: "w * h < 2 ^ 31" "unat (vfStride v) = w"
    using assms(1) by (simp_all add: vfb_ok_def)
  have b: "y * w + x < 2 ^ 32"
    using c wh(1) by (simp add: mult.commute)
  have "word_of_nat (unat (vfStride v)) = vfStride v"
    by simp
  then have "(word_of_int (int y) * vfStride v + word_of_int (int x) :: u32) = word_of_nat (y * w + x)"
    unfolding wh(2) by (metis of_int_of_nat_eq of_nat_add of_nat_mult)
  then have "cell (vfStride v) (int y) (int x) = int (y * w + x)"
    using b by (simp only: cell_def uint_nat unat_of_nat) simp
  then show ?thesis
    using c assms(4) by (simp only: px_ok(2) mult.commute)
qed

lemma nat_below: "i \<in> set [0..int n - 1] \<Longrightarrow> \<exists>k. i = int k \<and> k < n"
  by (metis atLeastAtMost_iff nonneg_int_cases of_nat_less_iff set_upto zle_diff1_eq)

lemma background_opaque:
  assumes v: "vfb_ok v w h" and px: "length px = w * h" and shade: "\<And>x y. opaque_or_range (shade x y)"
  shows "render_background shade (vfWidth v) (vfHeight v) (vfStride v) px = Inl FloatRange
    \<or> (\<exists>p. render_background shade (vfWidth v) (vfHeight v) (vfStride v) px = Inr p
         \<and> painted_opaque w (set [0..int h - 1]) px p)"
  unfolding render_background_def vfb_dims [OF v]
proof (rule for_each_set_allows [where P = "\<lambda>S. painted_opaque w S px"], goal_cases)
  case (1 y S p)
  then obtain m where m: "y = int m" "m < h"
    using nat_below by blast
  have l: "length p = w * h" and S: "painted_opaque w S px p"
    using 1(2) px by (simp_all add: painted_opaque_def)
  let ?body = "\<lambda>x p. bnd (shade x y) (\<lambda>c. px_write p (cell (vfStride v) y x) c)"
  let ?P = "\<lambda>T q. painted_opaque w S px q \<and> (\<forall>i < length px. i div w = m \<longrightarrow> int (i mod w) \<in> T \<longrightarrow>
    q ! i AND 0xFF000000 = 0xFF000000)"
  have "for_each [0..int w - 1] ?body p = Inl FloatRange
      \<or> (\<exists>q. for_each [0..int w - 1] ?body p = Inr q \<and> ?P (set [0..int w - 1]) q)"
  proof (rule for_each_set_allows [where P = ?P], goal_cases)
    case (1 x T q)
    then obtain n where n: "x = int n" "n < w"
      using nat_below by blast
    have lq: "length q = w * h"
      using 1(2) px by (simp add: painted_opaque_def)
    have upd: "q[k := c] ! i AND 0xFF000000 = 0xFF000000 \<longleftrightarrow> (if i = k then c else q ! i) AND 0xFF000000 = 0xFF000000"
      if "i < length px" for i k c
      using that lq px by (cases "i = k") simp_all
    have "i \<noteq> m * w + n" if "i div w = m" "i mod w \<noteq> n" for i
      using that cell_index [OF n(2), of i m] by simp
    then have P: "?P (insert x T) (q[m * w + n := c])" if "c AND 0xFF000000 = 0xFF000000" for c
      using 1(2) that n(1) by (auto simp: painted_opaque_def upd)
    show ?case
      using shade [of x y] P cell_write [OF v m(2) n(2) lq] unfolding m(1) n(1) opaque_or_range_def by auto
  qed (use S in simp)
  moreover have "painted_opaque w (insert y S) px q" if q: "?P (set [0..int w - 1]) q" for q
  proof -
    have "int (i mod w) \<in> set [0..int w - 1]" for i
      using v by (simp add: vfb_ok_def)
    then show ?thesis
      using q m(1) by (auto simp: painted_opaque_def)
  qed
  ultimately show ?case by blast
qed (simp add: painted_opaque_def)

lemma bar_opaque:
  assumes v: "vfb_ok v w h" "260 \<le> w" and px: "length px = w * h" "\<forall>i < length px. px ! i AND 0xFF000000 = 0xFF000000"
    and glow: "\<And>x. opaque_or_range (glow x)"
  shows "render_pulse_bar glow (vfWidth v) (vfHeight v) (vfStride v) px = Inl FloatRange
    \<or> (\<exists>p. render_pulse_bar glow (vfWidth v) (vfHeight v) (vfStride v) px = Inr p
         \<and> length p = length px \<and> (\<forall>i < length px. p ! i AND 0xFF000000 = 0xFF000000))"
proof -
  let ?P = "\<lambda>p. length p = length px \<and> (\<forall>i < length px. p ! i AND 0xFF000000 = 0xFF000000)"
  have hw: "half (vfWidth v) = int w div 2"
    using vfb_dims(3) [OF v(1)] v(2) by (simp add: half_def)
  have pixel: "bnd (glow x) (\<lambda>c. px_write p (cell (vfStride v) y x) c) = Inl FloatRange
      \<or> (\<exists>q. bnd (glow x) (\<lambda>c. px_write p (cell (vfStride v) y x) c) = Inr q \<and> ?P q)"
    if yx: "0 \<le> y" "y < int h" "x \<in> set [int w div 2 - 130..int w div 2 + 130 - 1]" and P: "?P p" for x y p
  proof -
    have "0 \<le> x" "x < int w"
      using yx(3) v(2) by auto
    then obtain m n where mn: "y = int m" "x = int n" "m < h" "n < w"
      using yx(1,2) by (metis nonneg_int_cases of_nat_less_iff)
    have lp: "length p = w * h" using P px(1) by simp
    have "?P (p[k := c])" if "c AND 0xFF000000 = 0xFF000000" for k c
    proof -
      have "p[k := c] ! i AND 0xFF000000 = 0xFF000000" if "i < length px" for i
        using that P \<open>c AND 0xFF000000 = 0xFF000000\<close> by (cases "i = k") simp_all
      then show ?thesis using P by simp
    qed
    then show ?thesis
      using glow [of x] cell_write [OF v(1) mn(3,4) lp] unfolding mn(1,2) opaque_or_range_def by auto
  qed
  show ?thesis
    unfolding render_pulse_bar_def Let_def hw vfb_dims(4) [OF v(1)]
  proof (rule for_each_allows [where P = ?P], goal_cases)
    case (1 y p)
    show ?case
    proof (cases "y < 0 \<or> y \<ge> int h")
      case False
      then have "for_each [int w div 2 - 130..int w div 2 + 130 - 1]
            (\<lambda>x px. bnd (glow x) (\<lambda>c. px_write px (cell (vfStride v) y x) c)) p = Inl FloatRange
          \<or> (\<exists>q. for_each [int w div 2 - 130..int w div 2 + 130 - 1]
            (\<lambda>x px. bnd (glow x) (\<lambda>c. px_write px (cell (vfStride v) y x) c)) p = Inr q \<and> ?P q)"
        using pixel by (intro for_each_allows [where P = ?P] 1(2)) auto
      then show ?thesis
        using False by simp
    qed (use 1(2) in simp)
  qed (use px(2) in simp)
qed

text \<open>C35: On a screen of at least 260 columns and fewer than \<open>2^31\<close> pixels a round of the boot
  animation, whatever the floating-point unit computes, leaves neither the buffer nor the screen:
  unless a value does not fit its integer type, it returns and has painted every pixel with an opaque
  colour. It does not mark the frame as new.\<close>

theorem boot_animation_paints_screen:
  assumes "vfb_ok v w h" "vfMmap v = Some (hdr, px)" "260 \<le> w" "grAnimRunning g"
  shows "boot_animation_round F timeSec g v \<in> {Inl FloatRange, Inl SignedOverflow}
    \<or> (\<exists>px'. boot_animation_round F timeSec g v = Inr (v\<lparr>vfMmap := Some (hdr, px')\<rparr>)
         \<and> length px' = length px \<and> (\<forall>i < length px. px' ! i AND 0xFF000000 = 0xFF000000))"
proof -
  have px: "length px = w * h" and nz: "vfWidth v \<noteq> 0" "vfHeight v \<noteq> 0"
    using assms(1,2) by (auto simp: vfb_ok_def)
  let ?Q = "\<lambda>r. r \<in> {Inl FloatRange, Inl SignedOverflow}
    \<or> (\<exists>px'. r = Inr px' \<and> length px' = length px \<and> (\<forall>i < length px. px' ! i AND 0xFF000000 = 0xFF000000))"
  let ?all = "\<lambda>p. length p = length px \<and> (\<forall>i < length px. p ! i AND 0xFF000000 = 0xFF000000)"
  have bg: "render_background (boot_pixel F pulse sweep cx cy) (vfWidth v) (vfHeight v) (vfStride v) px = Inl FloatRange
      \<or> (\<exists>p. render_background (boot_pixel F pulse sweep cx cy) (vfWidth v) (vfHeight v) (vfStride v) px = Inr p \<and> ?all p)"
    for pulse sweep cx cy
  proof -
    have all: "?all p" if "painted_opaque w (set [0..int h - 1]) px p" for p
    proof -
      have "i div w < h" if "i < length px" for i
        using that px by (simp add: less_mult_imp_div_less mult.commute)
      then show ?thesis
        using that by (simp add: painted_opaque_def)
    qed
    from background_opaque [OF assms(1) px, where shade = "boot_pixel F pulse sweep cx cy", OF boot_pixel_opaque]
    show ?thesis
      by (rule disj_forward) (use all in \<open>simp, meson\<close>)
  qed
  have bar: "?Q (bnd (f_to_int F a) (\<lambda>k. bnd (int_ret (j + k)) (\<lambda>activeX.
      render_pulse_bar (bar_pixel F activeX) (vfWidth v) (vfHeight v) (vfStride v) p)))" if "?all p" for a j p
  proof -
    have b: "?Q (render_pulse_bar (bar_pixel F activeX) (vfWidth v) (vfHeight v) (vfStride v) p)" for activeX
      using bar_opaque [OF assms(1,3), where glow = "bar_pixel F activeX" and px = p, OF _ _ bar_pixel_opaque] that px by auto
    have fi: "f_to_int F a = Inl FloatRange \<or> (\<exists>k. f_to_int F a = Inr k \<and> True)"
      using f_to_int_fault by (metis sum.exhaust)
    have ir: "int_ret k = Inl SignedOverflow \<or> (\<exists>i. int_ret k = Inr i \<and> True)" for k
      by (simp add: int_ret_def)
    show ?thesis
      by (rule bnd_allows [OF fi, where Q = ?Q], rule bnd_allows [OF ir, where Q = ?Q]) (use b in auto)
  qed
  have "?Q (renderBootAnimationFrame F (vfWidth v) (vfHeight v) (vfStride v) timeSec px)"
    unfolding renderBootAnimationFrame_def Let_def
    by (simp only: nz if_False simp_thms, rule bnd_allows [OF bg, where Q = ?Q], rule bar, assumption, simp)
  then show ?thesis
    using assms(2,4) unfolding boot_animation_round_def by auto
qed

theorem boot_animation_paints_screen_witness:
  "\<exists>r. boot_animation_round milli_ops 2500 (gralloc_new\<lparr>grAnimRunning := True\<rparr>) (snd (initialize_vfb True True True vfb_new 260 2 ''/sb'')) = r
    \<and> r \<noteq> Inl OutOfBounds"
proof -
  let ?v = "snd (initialize_vfb True True True vfb_new 260 2 ''/sb'')"
  have ok: "vfb_ok ?v 260 2"
    using initialize_vfb_ok [of 260 2 vfb_new "''/sb''"] by simp
  obtain hdr px where "vfMmap ?v = Some (hdr, px)"
    by (simp add: initialize_vfb_def Let_def close_vfb_def)
  from boot_animation_paints_screen [OF ok this, where F = milli_ops and timeSec = 2500 and g = "gralloc_new\<lparr>grAnimRunning := True\<rparr>"]
  show ?thesis by auto
qed

end
