(* ===== verification/Display_Pipeline.thy ===== *)
theory Display_Pipeline
  imports Gralloc_Bridge
begin

text \<open>
  The display pipeline of \<^verbatim>\<open>display_pipeline.cpp\<close>: the window it holds, its render thread
  and a round of the render loop, which copies the frame buffer into the window or draws a gradient.
  A window is its size, its row length and its pixels; whether a surface gives a window and whether
  it can be locked are parameters, and so is single-precision arithmetic.
\<close>

record window =
  wnWidth :: int
  wnHeight :: int
  wnStride :: int
  wnPixels :: "u32 list"

record display =
  dpWindow :: "window option"
  dpRunning :: bool
  dpJoinable :: bool
  dpVfbMode :: bool
  dpFrameCount :: u32
  dpStep :: u32

definition display_new :: display where
  "display_new = \<lparr>dpWindow = None, dpRunning = False, dpJoinable = False, dpVfbMode = False,
     dpFrameCount = 0, dpStep = 0\<rparr>"

section \<open>Surface and thread\<close>

text \<open>The argument is the window of the surface, where there is a surface and it has one.\<close>

definition setSurface :: "window option option \<Rightarrow> display \<Rightarrow> display" where
  "setSurface surface d =
     (let d = d\<lparr>dpWindow := None\<rparr> in
      case surface of None \<Rightarrow> d | Some win \<Rightarrow> d\<lparr>dpWindow := win\<rparr>)"

definition clearSurface :: "display \<Rightarrow> display" where
  "clearSurface d = d\<lparr>dpWindow := None\<rparr>"

definition isSurfaceReady :: "display \<Rightarrow> bool" where
  "isSurfaceReady d \<longleftrightarrow> dpWindow d \<noteq> None"

text \<open>The loop of a new thread starts with step 0. A thread assigned to a joinable object ends the program.\<close>

definition startTestRender :: "display \<Rightarrow> fault + display" where
  "startTestRender d =
     (if dpRunning d then Inr d
      else if dpJoinable d then Inl Terminated
      else Inr (d\<lparr>dpRunning := True, dpFrameCount := 0, dpJoinable := True, dpStep := 0\<rparr>))"

definition stopTestRender :: "display \<Rightarrow> display" where
  "stopTestRender d = (if \<not> dpRunning d then d else d\<lparr>dpRunning := False, dpJoinable := False\<rparr>)"

definition setVfbMode :: "bool \<Rightarrow> display \<Rightarrow> display" where
  "setVfbMode b d = d\<lparr>dpVfbMode := b\<rparr>"

definition isVfbMode :: "display \<Rightarrow> bool" where
  "isVfbMode d = dpVfbMode d"

definition getRenderedFrames :: "display \<Rightarrow> int" where
  "getRenderedFrames d = sint (dpFrameCount d)"

section \<open>A round\<close>

definition gradient_pixel :: "'f float_ops \<Rightarrow> 'f \<Rightarrow> int \<Rightarrow> int \<Rightarrow> int \<Rightarrow> int \<Rightarrow> int \<Rightarrow> fault + u32" where
  "gradient_pixel F phase width height scanY y x =
     (let yNorm = fDiv F (fInt F y) (fInt F height); xNorm = fDiv F (fInt F x) (fInt F width);
          a = fAdd F (fMul F xNorm (fDec F 314 2)) phase
      in bnd (int_ret (y - scanY)) (\<lambda>dist.
         bnd (ramp F 20 30 (fSin F a)) (\<lambda>r.
         bnd (ramp F 30 60 yNorm) (\<lambda>g.
         bnd (ramp F 70 80 (fCos F a)) (\<lambda>b.
           Inr (if \<bar>dist\<bar> \<le> 3 then rgb 0 240 255 else rgb r g b))))))"

definition draw_gradient :: "'f float_ops \<Rightarrow> u32 \<Rightarrow> window \<Rightarrow> fault + u32 list" where
  "draw_gradient F step win =
     (let phase = fMul F (fInt F (uint step)) (fDec F 5 2); width = wnWidth win; height = wnHeight win;
          wave = fAdd F (fMul F (fSin F (fMul F phase (fDec F 5 1))) (fDec F 5 1)) (fDec F 5 1)
      in bnd (f_to_int F (fMul F wave (fInt F height))) (\<lambda>scanY.
           for_each [0..height - 1] (\<lambda>y. for_each [0..width - 1] (\<lambda>x px.
             bnd (gradient_pixel F phase width height scanY y x) (\<lambda>c.
             bnd (int_mul y (wnStride win)) (\<lambda>r. bnd (int_ret (r + x)) (\<lambda>i. px_write px i c))))) (wnPixels win)))"

definition render_round :: "'f float_ops \<Rightarrow> bool \<Rightarrow> vfb \<Rightarrow> display \<Rightarrow> fault + display" where
  "render_round F lock_ok v d =
     (if \<not> dpRunning d then Inr d
      else case dpWindow d of
        None \<Rightarrow> Inr d
      | Some win \<Rightarrow>
          if \<not> lock_ok then Inr d
          else bnd (if dpVfbMode d \<and> vfb_isInitialized v
                    then bnd (copyToTargetBuffer v (Some (wnPixels win)) (wnWidth win) (wnHeight win) (wnStride win))
                           (\<lambda>px. Inr (case px of Some p \<Rightarrow> p | None \<Rightarrow> wnPixels win))
                    else draw_gradient F (dpStep d) win) (\<lambda>px.
               Inr (d\<lparr>dpWindow := Some (win\<lparr>wnPixels := px\<rparr>), dpFrameCount := dpFrameCount d + 1, dpStep := dpStep d + 1\<rparr>)))"

fun renderLoop :: "'f float_ops \<Rightarrow> (bool \<times> vfb) list \<Rightarrow> display \<Rightarrow> fault + display" where
  "renderLoop F [] d = Inr d"
| "renderLoop F ((lock_ok, v) # rounds) d = bnd (render_round F lock_ok v d) (renderLoop F rounds)"

section \<open>Correctness\<close>

text \<open>A thread object is joinable exactly while the loop runs, so every start is safe.\<close>

lemma display_threads:
  assumes "dpJoinable d = dpRunning d"
  shows "\<exists>d'. startTestRender d = Inr d' \<and> dpRunning d' \<and> dpJoinable d'"
    and "\<not> dpRunning (stopTestRender d) \<and> \<not> dpJoinable (stopTestRender d)"
  using assms by (auto simp: startTestRender_def stopTestRender_def)

text \<open>Every round on a window that can be locked counts one frame; without a window none is counted.\<close>

lemma render_round_counts:
  "render_round F lock_ok v d = Inr d' \<Longrightarrow>
   dpFrameCount d' = dpFrameCount d + (if dpRunning d \<and> dpWindow d \<noteq> None \<and> lock_ok then 1 else 0)"
  by (auto simp: render_round_def bnd_Inr_iff split: option.splits if_splits)

text \<open>
  The gradient takes \<^verbatim>\<open>20 + 30 sin\<close> to a \<^verbatim>\<open>uint8_t\<close>: where the sine is low enough for
  the value to be -1 or less, the conversion is undefined. The same holds for \<^verbatim>\<open>70 + 80 cos\<close>.
\<close>

lemma gradient_leaves_byte:
  assumes "fTrunc F (fAdd F (fDec F 20 0) (fMul F (fDec F 30 0)
      (fSin F (fAdd F (fMul F (fDiv F (fInt F x) (fInt F width)) (fDec F 314 2)) phase)))) = Some k" "k < 0"
  shows "\<exists>e. gradient_pixel F phase width height scanY y x = Inl e"
  using assms by (cases "int_ret (y - scanY)") (simp_all add: gradient_pixel_def ramp_def f_to_u8_def Let_def)

end
