(* ===== verification/Gpu_Bridge.thy ===== *)
theory Gpu_Bridge
  imports Bridge_Common Virtual_Framebuffer Float_Ops
begin

text \<open>
  The virtual GPU of \<^verbatim>\<open>gpu_bridge.cpp\<close>: its state, its device nodes and properties, and the
  software rasterizer that draws a test triangle into the frame buffer. The pointer to the pixels is
  checked at every access; indices are \<^verbatim>\<open>int\<close> arithmetic, coordinates and weights are
  single precision.
\<close>

record VirtualGpuStats =
  gsEglVendor :: string
  gsEglVersion :: string
  gsGlRenderer :: string
  gsGlVersion :: string
  gsGlExtensions :: string
  gsActiveContexts :: u32
  gsTotalFrames :: u64
  gsAccelerated :: bool

record gpu =
  gpSandboxDir :: string
  gpInitialized :: bool
  gpStats :: VirtualGpuStats

definition gpu_new :: gpu where
  "gpu_new = \<lparr>gpSandboxDir = [], gpInitialized = False,
     gpStats = \<lparr>gsEglVendor = [], gsEglVersion = [], gsGlRenderer = [], gsGlVersion = [], gsGlExtensions = [],
       gsActiveContexts = 0, gsTotalFrames = 0, gsAccelerated = True\<rparr>\<rparr>"

section \<open>Start and stop\<close>

definition gpu_header :: string where
  "gpu_header = oline ''CYBER_GSI_GPU_MOCK_DEVICE_NODE_V1'' @ oline ''DRIVER=PASSTHROUGH_ACTIVE''"

definition createMockGpuNodes :: "string \<Rightarrow> sys \<Rightarrow> sys" where
  "createMockGpuNodes dir sys =
     (let t = dir @ ''/tmp'' in
      write_files 438
        [(t @ ''/dev_kgsl_3d0.raw'', gpu_header), (t @ ''/dev_mali0.raw'', gpu_header),
         (t @ ''/dev_dri_card0.raw'', gpu_header), (t @ ''/dev_dri_renderD128.raw'', gpu_header)]
        (sys_mkdir t 493 sys))"

definition gpu_view :: "gpu \<Rightarrow> (string \<times> string) list" where
  "gpu_view g =
     [(''ro.hardware.egl'', ''cyber_egl''),
      (''ro.opengles.version'', ''196610''),
      (''debug.sf.nobootanimation'', ''0''),
      (''debug.sf.showfps'', ''1''),
      (''debug.sf.enable_hwc_vds'', ''0''),
      (''vendor.gpu.egl.vendor'', ''Google DeepMind GSI Engine''),
      (''vendor.gpu.egl.renderer'', ''CyberGSI Virtual OpenGL ES 3.2 (Passthrough)''),
      (''vendor.gpu.egl.version'', ''OpenGL ES 3.2 (Virtual GLES / Host Blit)''),
      (''vendor.gpu.status'', ''ONLINE'')]"

definition gpu_registerSystemProperties :: "gpu \<Rightarrow> sys \<Rightarrow> sys" where
  "gpu_registerSystemProperties g sys = set_props (gpu_view g) sys"

definition gpu_initial_stats :: VirtualGpuStats where
  "gpu_initial_stats =
     \<lparr>gsEglVendor = ''Google DeepMind GSI Engine'',
      gsEglVersion = ''1.4 CyberGSI-EGL'',
      gsGlRenderer = ''CyberGSI Virtual OpenGL ES 3.2 (Adreno/Mali Passthrough)'',
      gsGlVersion = ''OpenGL ES 3.2 CyberGL v1.0'',
      gsGlExtensions = ''GL_OES_EGL_image GL_OES_EGL_image_base GL_OES_texture_npot ''
        @ ''GL_EXT_texture_format_BGRA8888 GL_OES_compressed_ETC1_RGB8_texture ''
        @ ''GL_EXT_color_buffer_half_float GL_OES_vertex_array_object'',
      gsActiveContexts = 1, gsTotalFrames = 0, gsAccelerated = True\<rparr>"

definition initialize_gpu :: "gpu \<Rightarrow> sys \<Rightarrow> string \<Rightarrow> bool \<times> gpu \<times> sys" where
  "initialize_gpu g sys dir =
     (if gpInitialized g then (True, g, sys)
      else
        let g = g\<lparr>gpSandboxDir := dir\<rparr>;
            sys = gpu_registerSystemProperties g (createMockGpuNodes dir sys)
        in (True, g\<lparr>gpStats := gpu_initial_stats, gpInitialized := True\<rparr>, sys))"

definition shutdown_gpu :: "gpu \<Rightarrow> gpu" where
  "shutdown_gpu g = (if \<not> gpInitialized g then g else g\<lparr>gpInitialized := False\<rparr>)"

section \<open>The test triangle\<close>

definition edgeFunction :: "'f float_ops \<Rightarrow> 'f \<times> 'f \<Rightarrow> 'f \<times> 'f \<Rightarrow> 'f \<times> 'f \<Rightarrow> 'f" where
  "edgeFunction F a b c =
     fSub F (fMul F (fSub F (fst c) (fst a)) (fSub F (snd b) (snd a)))
            (fMul F (fSub F (snd c) (snd a)) (fSub F (fst b) (fst a)))"

record 'f triangle =
  trTop :: "'f \<times> 'f"
  trLeft :: "'f \<times> 'f"
  trRight :: "'f \<times> 'f"

definition triangle_of :: "'f float_ops \<Rightarrow> int \<Rightarrow> int \<Rightarrow> 'f triangle" where
  "triangle_of F width height =
     \<lparr>trTop = (fMul F (fInt F width) (fDec F 5 1), fMul F (fInt F height) (fDec F 32 2)),
      trLeft = (fMul F (fInt F width) (fDec F 22 2), fMul F (fInt F height) (fDec F 65 2)),
      trRight = (fMul F (fInt F width) (fDec F 78 2), fMul F (fInt F height) (fDec F 65 2))\<rparr>"

definition clip_low :: "'f float_ops \<Rightarrow> 'f \<Rightarrow> 'f \<Rightarrow> 'f \<Rightarrow> fault + int" where
  "clip_low F a b c = bnd (f_to_int F (fFloor F (f_min3 F a b c))) (\<lambda>i. Inr (max 0 i))"

definition clip_high :: "'f float_ops \<Rightarrow> int \<Rightarrow> 'f \<Rightarrow> 'f \<Rightarrow> 'f \<Rightarrow> fault + int" where
  "clip_high F side a b c =
     bnd (int_ret (side - 1)) (\<lambda>last. bnd (f_to_int F (fCeil F (f_max3 F a b c))) (\<lambda>i. Inr (min last i)))"

definition channel :: "'f float_ops \<Rightarrow> 'f \<Rightarrow> fault + int" where
  "channel F v = f_to_int F (f_clamp F v (fDec F 0 0) (fDec F 255 0))"

definition mix :: "'f float_ops \<Rightarrow> 'f \<times> 'f \<times> 'f \<Rightarrow> int \<Rightarrow> int \<Rightarrow> int \<Rightarrow> 'f" where
  "mix F b c0 c1 c2 =
     fAdd F (fAdd F (fMul F (fst b) (fDec F c0 0)) (fMul F (fst (snd b)) (fDec F c1 0))) (fMul F (snd (snd b)) (fDec F c2 0))"

definition triangle_color :: "'f float_ops \<Rightarrow> 'f \<times> 'f \<times> 'f \<Rightarrow> fault + u32" where
  "triangle_color F bary =
     bnd (channel F (mix F bary 0 0 255)) (\<lambda>r.
     bnd (channel F (mix F bary 229 230 0)) (\<lambda>g.
     bnd (channel F (mix F bary 255 118 127)) (\<lambda>b.
       Inr (0xFF000000 OR push_bit 16 (word_of_int r) OR push_bit 8 (word_of_int g) OR word_of_int b))))"

text \<open>The colour of a pixel, \<open>None\<close> outside the triangle.\<close>

definition triangle_pixel :: "'f float_ops \<Rightarrow> 'f triangle \<Rightarrow> 'f \<Rightarrow> int \<Rightarrow> int \<Rightarrow> fault + u32 option" where
  "triangle_pixel F t area y x =
     (let p = (fAdd F (fInt F x) (fDec F 5 1), fAdd F (fInt F y) (fDec F 5 1));
          w0 = edgeFunction F (trLeft t) (trRight t) p;
          w1 = edgeFunction F (trRight t) (trTop t) p;
          w2 = edgeFunction F (trTop t) (trLeft t) p;
          zero = fInt F 0
      in if (fLeq F zero w0 \<and> fLeq F zero w1 \<and> fLeq F zero w2) \<or> (fLeq F w0 zero \<and> fLeq F w1 zero \<and> fLeq F w2 zero)
         then bnd (triangle_color F (fDiv F w0 area, fDiv F w1 area, fDiv F w2 area)) (\<lambda>c. Inr (Some c))
         else Inr None)"

definition fb_write :: "int \<Rightarrow> int \<Rightarrow> int \<Rightarrow> u32 \<Rightarrow> u32 list \<Rightarrow> fault + u32 list" where
  "fb_write width y x c px = bnd (int_mul y width) (\<lambda>r. bnd (int_ret (r + x)) (\<lambda>i. px_write px i c))"

definition backdrop :: "int \<Rightarrow> int \<Rightarrow> int \<Rightarrow> int \<Rightarrow> int \<Rightarrow> int \<Rightarrow> u32 list \<Rightarrow> fault + u32 list" where
  "backdrop width height minX maxX minY maxY px =
     bnd (int_ret (maxY + 20)) (\<lambda>y1. bnd (int_ret (maxX + 20)) (\<lambda>x1.
       for_each [minY - 20..y1] (\<lambda>y px.
         if y < 0 \<or> y \<ge> height then Inr px
         else for_each [minX - 20..x1] (\<lambda>x px.
           if x < 0 \<or> x \<ge> width then Inr px else fb_write width y x 0xFF0D1B2A px) px) px))"

definition rasterize ::
  "'f float_ops \<Rightarrow> 'f triangle \<Rightarrow> 'f \<Rightarrow> int \<Rightarrow> int \<Rightarrow> int \<Rightarrow> int \<Rightarrow> int \<Rightarrow> u32 list \<Rightarrow> fault + u32 list" where
  "rasterize F t area width minX maxX minY maxY px =
     for_each [minY..maxY] (\<lambda>y. for_each [minX..maxX] (\<lambda>x px.
       bnd (triangle_pixel F t area y x) (\<lambda>c.
         case c of Some c \<Rightarrow> fb_write width y x c px | None \<Rightarrow> Inr px))) px"

definition count_frame :: "gpu \<Rightarrow> gpu" where
  "count_frame g = g\<lparr>gpStats := (gpStats g)\<lparr>gsTotalFrames := gsTotalFrames (gpStats g) + 1\<rparr>\<rparr>"

definition renderTestTriangleToVfb :: "'f float_ops \<Rightarrow> gpu \<Rightarrow> vfb \<Rightarrow> fault + (bool \<times> gpu \<times> vfb)" where
  "renderTestTriangleToVfb F g v =
     (case vfMmap v of
        None \<Rightarrow> Inr (False, g, v)
      | Some (hdr, px) \<Rightarrow>
          (let width = sint (vfWidth v); height = sint (vfHeight v);
               t = triangle_of F width height;
               x0 = fst (trTop t); x1 = fst (trLeft t); x2 = fst (trRight t);
               y0 = snd (trTop t); y1 = snd (trLeft t); y2 = snd (trRight t);
               area = edgeFunction F (trTop t) (trLeft t) (trRight t)
           in bnd (clip_low F x0 x1 x2) (\<lambda>minX.
              bnd (clip_high F width x0 x1 x2) (\<lambda>maxX.
              bnd (clip_low F y0 y1 y2) (\<lambda>minY.
              bnd (clip_high F height y0 y1 y2) (\<lambda>maxY.
                if fLess F (fAbs F area) (fDec F 1 4) then Inr (False, g, v)
                else bnd (backdrop width height minX maxX minY maxY px) (\<lambda>px.
                     bnd (rasterize F t area width minX maxX minY maxY px) (\<lambda>px.
                       Inr (True, count_frame g, notifyFrameUpdated (v\<lparr>vfMmap := Some (hdr, px)\<rparr>))))))))))"

definition clearVfbColor :: "u32 \<Rightarrow> gpu \<Rightarrow> vfb \<Rightarrow> fault + (bool \<times> gpu \<times> vfb)" where
  "clearVfbColor color g v =
     (if \<not> vfb_isInitialized v then Inr (False, g, v)
      else bnd (clearScreen v color) (\<lambda>v. Inr (True, count_frame g, v)))"

section \<open>Reports\<close>

definition runGpuSelfTest :: "'f float_ops \<Rightarrow> gpu \<Rightarrow> vfb \<Rightarrow> fault + (string \<times> gpu \<times> vfb)" where
  "runGpuSelfTest F g v =
     bnd (renderTestTriangleToVfb F g v) (\<lambda>(ok, g, v).
       Inr (oline ''=== VIRTUAL GPU & EGL PASSTHROUGH SELF-TEST ===''
         @ oline (''Result: '' @ (if ok then ''PASS (100% Render Verified)'' else ''FAIL''))
         @ oline (''EGL Version: '' @ gsEglVersion (gpStats g))
         @ oline (''GLES Renderer: '' @ gsGlRenderer (gpStats g))
         @ oline ''VFB Resolution: 720 x 1280 (RGBA_8888)''
         @ oline ''Rasterizer: Barycentric GLES Primitive Pipeline''
         @ oline ''Blit Target: $SANDBOX/tmp/vfb0 -> ANativeWindow (60 FPS)''
         @ ''Total Frames: '' @ dec (unat (gsTotalFrames (gpStats g))), g, v))"

definition getGpuStatsString :: "gpu \<Rightarrow> string" where
  "getGpuStatsString g =
     (let s = gpStats g in
      oline ''=== VIRTUAL GPU & EGL SUBSYSTEM ===''
      @ oline (''Status: '' @ (if gpInitialized g then ''ONLINE (Operational)'' else ''OFFLINE''))
      @ oline (''EGL Vendor: '' @ gsEglVendor s)
      @ oline (''EGL Version: '' @ gsEglVersion s)
      @ oline (''GLES Renderer: '' @ gsGlRenderer s)
      @ oline (''GLES Version: '' @ gsGlVersion s)
      @ oline (''Active Contexts: '' @ dec (unat (gsActiveContexts s)))
      @ oline (''Frames Rendered: '' @ dec (unat (gsTotalFrames s)))
      @ oline ''GPU Nodes:''
      @ oline (''  - /dev/kgsl-3d0 -> '' @ gpSandboxDir g @ ''/tmp/dev_kgsl_3d0.raw'')
      @ oline (''  - /dev/mali0    -> '' @ gpSandboxDir g @ ''/tmp/dev_mali0.raw'')
      @ ''  - /dev/dri/*    -> '' @ gpSandboxDir g @ ''/tmp/dev_dri_renderD128.raw'')"

section \<open>Correctness\<close>

interpretation gpu: publisher gpu_view
  by unfold_locales (simp add: gpu_view_def)

lemma gpu_status_published:
  "\<not> gpInitialized g \<Longrightarrow> find_prop (fst (snd (snd (initialize_gpu g sys dir)))) ''vendor.gpu.status'' = Some ''ONLINE''"
  by (simp add: initialize_gpu_def Let_def gpu_registerSystemProperties_def gpu_view_def setProperty_look)

lemma fb_write_ok:
  assumes "0 \<le> y" "y < int h" "0 \<le> x" "x < int w" "w * h < 2 ^ 31" "length px = w * h"
  shows "fb_write (int w) y x c px = Inr (px[nat y * w + nat x := c])"
proof -
  obtain m n where mn: "y = int m" "x = int n"
    using assms(1,3) by (metis nonneg_int_cases)
  have cell: "m * w + n < h * w"
    using assms(2,4) unfolding mn by (intro cell_bound) simp_all
  then have b: "m * w + n < 2 ^ 31"
    using assms(5) by (simp add: mult.commute)
  then have "int_mul (int m) (int w) = Inr (int (m * w))" "int_ret (int (m * w) + int n) = Inr (int (m * w + n))"
    by (simp_all add: int_mul_def int_ret_def int_range_def flip: of_nat_mult of_nat_add)
  moreover have "px_write px (int (m * w + n)) c = Inr (px[m * w + n := c])"
    using cell assms(6) by (intro px_ok(2)) (simp add: mult.commute)
  ultimately show ?thesis
    by (simp only: fb_write_def mn bnd.simps nat_int)
qed

lemma fb_write_draws:
  assumes "0 \<le> y" "y < int h" "0 \<le> x" "x < int w" "w * h < 2 ^ 31" "length px = w * h"
    and "c AND 0xFF000000 = 0xFF000000" "drawn_over px p"
  shows "\<exists>p'. fb_write (int w) y x c p = Inr p' \<and> drawn_over px p'"
proof -
  have "p[k := c] ! i = (if i = k then c else p ! i)" if "i < length p" for i k
    using that by (cases "i = k") simp_all
  then show ?thesis
    using assms fb_write_ok [OF assms(1-5), of p c] by (auto simp: drawn_over_def)
qed

lemma opaque: "c = 0xFF000000 OR r OR g OR (b :: u32) \<Longrightarrow> c AND 0xFF000000 = 0xFF000000"
  by (simp add: word_ao_absorbs or.assoc)

lemma triangle_color_opaque: "triangle_color F b = Inr c \<Longrightarrow> c AND 0xFF000000 = 0xFF000000"
  by (auto simp: triangle_color_def bnd_Inr_iff intro: opaque)

lemma triangle_pixel_cases:
  "triangle_pixel F t area y x = Inl FloatRange \<or> triangle_pixel F t area y x = Inr None
   \<or> (\<exists>c. triangle_pixel F t area y x = Inr (Some c) \<and> c AND 0xFF000000 = 0xFF000000)"
proof -
  have ch: "channel F v = Inl FloatRange \<or> (\<exists>i. channel F v = Inr i \<and> True)" for v
    using f_to_int_fault unfolding channel_def by (metis sum.exhaust)
  let ?Q = "\<lambda>r :: fault + u32. r = Inl FloatRange \<or> (\<exists>c. r = Inr c)"
  have "?Q (triangle_color F b)" for b
    unfolding triangle_color_def
    by (rule bnd_allows [OF ch, where Q = ?Q], rule bnd_allows [OF ch, where Q = ?Q], rule bnd_allows [OF ch, where Q = ?Q])
      simp_all
  then have tc: "triangle_color F b = Inl FloatRange \<or> (\<exists>c. triangle_color F b = Inr c \<and> c AND 0xFF000000 = 0xFF000000)" for b
    using triangle_color_opaque by blast
  let ?R = "\<lambda>r :: fault + u32 option. r = Inl FloatRange \<or> r = Inr None
    \<or> (\<exists>c. r = Inr (Some c) \<and> c AND 0xFF000000 = 0xFF000000)"
  have "?R (bnd (triangle_color F b) (\<lambda>c. Inr (Some c)))" for b
    using tc [of b] by auto
  then have "?R (if P then bnd (triangle_color F b) (\<lambda>c. Inr (Some c)) else Inr None)" for P b
    by simp
  then show ?thesis
    unfolding triangle_pixel_def Let_def .
qed

lemma backdrop_draws:
  assumes wh: "w * h < 2 ^ 31" "w + 20 < 2 ^ 31" "h + 20 < 2 ^ 31" and px: "length px = w * h"
    and box: "int_range maxX" "maxX < int w" "int_range maxY" "maxY < int h"
  shows "\<exists>px'. backdrop (int w) (int h) minX maxX minY maxY px = Inr px' \<and> drawn_over px px'"
proof -
  have r: "int_ret (maxY + 20) = Inr (maxY + 20)" "int_ret (maxX + 20) = Inr (maxX + 20)"
    using wh(2,3) box by (auto simp: int_ret_def int_range_def)
  have row: "\<exists>q. for_each xs (\<lambda>x px. if x < 0 \<or> x \<ge> int w then Inr px else fb_write (int w) y x 0xFF0D1B2A px) p = Inr q
      \<and> drawn_over px q" if y: "0 \<le> y" "y < int h" and p: "drawn_over px p" for xs y p
    by (rule for_each_set [where P = "\<lambda>S. drawn_over px"])
      (use fb_write_draws [OF y _ _ wh(1) px] p in \<open>auto simp: not_le not_less\<close>)
  have "\<exists>q. for_each ys (\<lambda>y px. if y < 0 \<or> y \<ge> int h then Inr px
      else for_each xs (\<lambda>x px. if x < 0 \<or> x \<ge> int w then Inr px else fb_write (int w) y x 0xFF0D1B2A px) px) px = Inr q
      \<and> drawn_over px q" for ys xs
    by (rule for_each_set [where P = "\<lambda>S. drawn_over px"])
      (use row drawn_over_refl in \<open>auto simp: not_le not_less\<close>)
  then show ?thesis
    by (simp add: backdrop_def r)
qed

lemma rasterize_draws:
  assumes wh: "w * h < 2 ^ 31" and px: "length px = w * h" and p: "drawn_over px p"
    and box: "0 \<le> minX" "maxX < int w" "0 \<le> minY" "maxY < int h"
  shows "rasterize F t area (int w) minX maxX minY maxY p = Inl FloatRange
    \<or> (\<exists>q. rasterize F t area (int w) minX maxX minY maxY p = Inr q \<and> drawn_over px q)"
  unfolding rasterize_def
proof (rule for_each_allows [where P = "drawn_over px"], rule for_each_allows [where P = "drawn_over px"], goal_cases)
  case (1 y p x q)
  then have "0 \<le> y" "y < int h" "0 \<le> x" "x < int w"
    using box by auto
  note fb_write_draws [OF this wh px _ 1(4)]
  then show ?case
    using triangle_pixel_cases [of F t area y x] 1(4) by auto
qed (use p in simp_all)

text \<open>C34: Drawing the test triangle on a screen of \<open>w\<close> times \<open>h\<close> pixels, fewer than \<open>2^31\<close> and
  with sides 20 below that: whatever the floating-point unit computes, no access leaves the buffer.
  Either a value does not fit its integer type, or the call returns; then it has changed pixels to
  opaque colours only, and it counts the frame and marks it exactly when it reports success.\<close>

theorem triangle_stays_in_buffer:
  assumes "vfb_ok v w h" "vfMmap v = Some (hdr, px)" "w + 20 < 2 ^ 31" "h + 20 < 2 ^ 31"
  shows "renderTestTriangleToVfb F g v = Inl FloatRange
    \<or> renderTestTriangleToVfb F g v = Inr (False, g, v)
    \<or> (\<exists>px'. renderTestTriangleToVfb F g v = Inr (True, count_frame g, v\<lparr>vfMmap := Some (next_frame hdr, px')\<rparr>)
          \<and> drawn_over px px')"
proof -
  have wh: "w * h < 2 ^ 31" "length px = w * h" and sd: "sint (vfWidth v) = int w" "sint (vfHeight v) = int h"
    using assms(1,2) vfb_dims [OF assms(1)] by (auto simp: vfb_ok_def)
  define t where "t = triangle_of F (int w) (int h)"
  define area where "area = edgeFunction F (trTop t) (trLeft t) (trRight t)"
  have low: "clip_low F a b c = Inl FloatRange \<or> (\<exists>i. clip_low F a b c = Inr i \<and> 0 \<le> i)" for a b c
    using f_to_int_fault by (cases "f_to_int F (fFloor F (f_min3 F a b c))") (auto simp: clip_low_def)
  have high: "clip_high F (int n) a b c = Inl FloatRange
      \<or> (\<exists>i. clip_high F (int n) a b c = Inr i \<and> i < int n \<and> int_range i)" if "n + 20 < 2 ^ 31" for n a b c
  proof (cases "f_to_int F (fCeil F (f_max3 F a b c))")
    case (Inl e)
    then show ?thesis
      using that f_to_int_fault [OF Inl] by (simp add: clip_high_def int_ret_def int_range_def)
  next
    case (Inr i)
    then show ?thesis
      using that f_to_int_range [OF Inr] by (auto simp: clip_high_def int_ret_def int_range_def)
  qed
  let ?Q = "\<lambda>r. r = Inl FloatRange \<or> r = Inr (False, g, v)
    \<or> (\<exists>px'. r = Inr (True, count_frame g, v\<lparr>vfMmap := Some (next_frame hdr, px')\<rparr>) \<and> drawn_over px px')"
  have draw: "?Q (bnd (backdrop (int w) (int h) minX maxX minY maxY px) (\<lambda>p.
      bnd (rasterize F t area (int w) minX maxX minY maxY p) (\<lambda>p.
        Inr (True, count_frame g, notifyFrameUpdated (v\<lparr>vfMmap := Some (hdr, p)\<rparr>)))))"
    if box: "0 \<le> minX" "maxX < int w" "0 \<le> minY" "maxY < int h" "int_range maxX" "int_range maxY" for minX maxX minY maxY
  proof -
    obtain p where p: "backdrop (int w) (int h) minX maxX minY maxY px = Inr p" "drawn_over px p"
      using backdrop_draws [OF wh(1) assms(3,4) wh(2) box(5,2,6,4), of minX minY] by blast
    show ?thesis
      using rasterize_draws [OF wh p(2) box(1-4), of F t area] p(1) by (auto simp: notifyFrameUpdated_def)
  qed
  have "renderTestTriangleToVfb F g v =
      bnd (clip_low F (fst (trTop t)) (fst (trLeft t)) (fst (trRight t))) (\<lambda>minX.
      bnd (clip_high F (int w) (fst (trTop t)) (fst (trLeft t)) (fst (trRight t))) (\<lambda>maxX.
      bnd (clip_low F (snd (trTop t)) (snd (trLeft t)) (snd (trRight t))) (\<lambda>minY.
      bnd (clip_high F (int h) (snd (trTop t)) (snd (trLeft t)) (snd (trRight t))) (\<lambda>maxY.
        if fLess F (fAbs F area) (fDec F 1 4) then Inr (False, g, v)
        else bnd (backdrop (int w) (int h) minX maxX minY maxY px) (\<lambda>p.
          bnd (rasterize F t area (int w) minX maxX minY maxY p) (\<lambda>p.
            Inr (True, count_frame g, notifyFrameUpdated (v\<lparr>vfMmap := Some (hdr, p)\<rparr>))))))))"
    unfolding renderTestTriangleToVfb_def assms(2) t_def area_def by (simp only: option.case prod.case Let_def sd)
  moreover have "?Q \<dots>"
    by (rule bnd_allows [OF low], rule bnd_allows [OF high [OF assms(3)]], rule bnd_allows [OF low],
        rule bnd_allows [OF high [OF assms(4)]]) (use draw in auto)
  ultimately show ?thesis by simp
qed

theorem triangle_stays_in_buffer_witness:
  "\<exists>v' px'. renderTestTriangleToVfb milli_ops gpu_new (snd (initialize_vfb True True True vfb_new 8 8 ''/sb''))
      = Inr (True, count_frame gpu_new, v')
    \<and> getPixelBuffer v' = Some px' \<and> drawn_over (replicate 64 0xFF141721) px'"
proof -
  let ?v = "snd (initialize_vfb True True True vfb_new 8 8 ''/sb'')"
  have ok: "vfb_ok ?v 8 8"
    using initialize_vfb_ok [of 8 8 vfb_new "''/sb''"] by simp
  obtain hdr where hdr: "vfMmap ?v = Some (hdr, replicate 64 0xFF141721)"
    by (simp add: initialize_vfb_def Let_def close_vfb_def)
  have "case renderTestTriangleToVfb milli_ops gpu_new ?v of Inr (True, g, v) \<Rightarrow> True | _ \<Rightarrow> False"
    by code_simp
  then show ?thesis
    using triangle_stays_in_buffer [where F = milli_ops and g = gpu_new, OF ok hdr]
    by (auto simp: getPixelBuffer_def)
qed

end
