(* ===== verification/Camera_Bridge.thy ===== *)
theory Camera_Bridge
  imports Bridge_Common Virtual_Framebuffer
begin

text \<open>
  The two virtual cameras of \<^verbatim>\<open>camera_bridge.cpp\<close>: their state, the streams with their
  generator threads, the test pattern and the node a frame is written to. A thread object is a flag
  that tells whether it is joinable; the rounds of a generator are a list, each with the measured
  rate where a second has passed. The rate is a parameter type, with zero and its printed form.
\<close>

record 'f CameraDevice =
  cdId :: int
  cdName :: string
  cdWidth :: u32
  cdHeight :: u32
  cdNodePath :: string
  cdStreaming :: bool
  cdFrameCount :: u64
  cdFps :: 'f

record 'f camera =
  cmSandboxDir :: string
  cmInitialized :: bool
  cmCameras :: "'f CameraDevice list"
  cmRunning :: "bool list"
  cmJoinable :: "bool list"

definition camera_device_new :: "'f \<Rightarrow> 'f CameraDevice" where
  "camera_device_new zero = \<lparr>cdId = 0, cdName = [], cdWidth = 1280, cdHeight = 720, cdNodePath = [],
     cdStreaming = False, cdFrameCount = 0, cdFps = zero\<rparr>"

definition camera_new :: "'f \<Rightarrow> 'f camera" where
  "camera_new zero = \<lparr>cmSandboxDir = [], cmInitialized = False,
     cmCameras = [camera_device_new zero, camera_device_new zero],
     cmRunning = [False, False], cmJoinable = [False, False]\<rparr>"

section \<open>The test pattern\<close>

definition SMPTE_COLORS :: "u32 list" where
  "SMPTE_COLORS = [0xFFFFFFFF, 0xFF00FFFF, 0xFFFFFF00, 0xFF00FF00, 0xFFFF00FF, 0xFF0000FF, 0xFFFF0000, 0xFF000000]"

definition gradient :: "u32 \<Rightarrow> u32 \<Rightarrow> u32" where
  "gradient width x =
     (let grad = ((x * 255) div width) AND 0xFF in 0xFF000000 OR push_bit 8 grad OR (grad div 2))"

definition pattern_pixel :: "u32 \<Rightarrow> u32 \<Rightarrow> u32 \<Rightarrow> u32 \<Rightarrow> u32 \<Rightarrow> fault + u32" where
  "pattern_pixel width bottomBarY scanX y x =
     (if y < bottomBarY
      then (if width div 8 = 0 then Inl DivideByZero
            else Inr (SMPTE_COLORS ! unat (min (x div (width div 8)) 7)))
      else Inr (if scanX \<le> x \<and> x < scanX + 16 then 0xFF00E5FF else gradient width x))"

definition generateTestPattern :: "u32 list \<Rightarrow> u32 \<Rightarrow> u32 \<Rightarrow> u64 \<Rightarrow> fault + u32 list" where
  "generateTestPattern pixels width height frameIndex =
     (let bottomBarY = (height * 3) div 4 in
      if width = 0 then Inl DivideByZero
      else
        let scanX = ucast ((frameIndex * 8) mod ucast width) :: u32 in
        for_each [0..uint height - 1] (\<lambda>y.
          for_each [0..uint width - 1] (\<lambda>x pixels.
            let idx = word_of_int y * width + word_of_int x :: u32 in
            bnd (pattern_pixel width bottomBarY scanX (word_of_int y) (word_of_int x)) (\<lambda>c.
              px_write pixels (uint idx) c))) pixels)"

section \<open>Frames\<close>

text \<open>The size of a frame is formed in 32 bits; a pixel takes four bytes, least significant first.\<close>

definition frame_size :: "u32 \<Rightarrow> u32 \<Rightarrow> u32" where
  "frame_size width height = width * height * 4"

definition frame_buffer :: "u32 \<Rightarrow> u32 \<Rightarrow> u32 list" where
  "frame_buffer width height = replicate (unat (frame_size width height) div 4) 0"

definition frame_text :: "u32 list \<Rightarrow> string" where
  "frame_text pixels = bytes_to_string (concat (map u32_bytes pixels))"

text \<open>A write at the start of an existing file; a node that cannot be opened stays.\<close>

definition write_node :: "string \<Rightarrow> string \<Rightarrow> host \<Rightarrow> host" where
  "write_node p content h =
     (case file_content h p of
        Some old \<Rightarrow> fst (host_write h p 0 (content @ drop (length content) old))
      | None \<Rightarrow> h)"

text \<open>\<^verbatim>\<open>open\<close> with \<^verbatim>\<open>O_CREAT | O_TRUNC\<close> and \<^verbatim>\<open>ftruncate\<close> to the size of a frame.\<close>

definition create_node :: "'f CameraDevice \<Rightarrow> host \<Rightarrow> host" where
  "create_node c h =
     fst (host_write h (cdNodePath c) 438 (replicate (unat (frame_size (cdWidth c) (cdHeight c))) nul))"

definition upd_cam :: "nat \<Rightarrow> ('f CameraDevice \<Rightarrow> 'f CameraDevice) \<Rightarrow> 'f camera \<Rightarrow> 'f camera" where
  "upd_cam i f c = c\<lparr>cmCameras := (cmCameras c)[i := f (cmCameras c ! i)]\<rparr>"

definition setup_cam :: "int \<Rightarrow> string \<Rightarrow> u32 \<Rightarrow> u32 \<Rightarrow> string \<Rightarrow> 'f CameraDevice \<Rightarrow> 'f CameraDevice" where
  "setup_cam i name w h p d =
     d\<lparr>cdId := i, cdName := name, cdWidth := w, cdHeight := h, cdNodePath := p, cdFrameCount := 0, cdStreaming := False\<rparr>"

section \<open>Start and stop\<close>

definition initialize_camera :: "'f camera \<Rightarrow> sys \<Rightarrow> string \<Rightarrow> fault + (bool \<times> 'f camera \<times> sys)" where
  "initialize_camera c sys dir =
     (let c = c\<lparr>cmSandboxDir := dir\<rparr>;
          c = upd_cam 0 (setup_cam 0 ''Virtual Back Camera (HAL3)'' 1280 720 (dir @ ''/tmp/v4l2_video0.raw'')) c;
          c = upd_cam 1 (setup_cam 1 ''Virtual Front Camera (HAL3)'' 640 480 (dir @ ''/tmp/v4l2_video1.raw'')) c;
          h = create_node (cmCameras c ! 1) (create_node (cmCameras c ! 0) (snd sys));
          c = c\<lparr>cmInitialized := True\<rparr>;
          back = cmCameras c ! 0
      in bnd (generateTestPattern (frame_buffer (cdWidth back) (cdHeight back)) (cdWidth back) (cdHeight back) 0)
           (\<lambda>pixels.
             let h = write_node (cdNodePath back) (frame_text pixels) h in
             Inr (True, c, set_props [(''camera.gsi.status'', ''ready''), (''camera.gsi.count'', ''2'')] (fst sys, h))))"

definition valid_cam :: "int \<Rightarrow> bool" where
  "valid_cam i \<longleftrightarrow> \<not> (i < 0 \<or> i > 1)"

definition stopStream :: "'f \<Rightarrow> int \<Rightarrow> 'f camera \<Rightarrow> sys \<Rightarrow> 'f camera \<times> sys" where
  "stopStream zero i c sys =
     (if \<not> valid_cam i then (c, sys)
      else
        let n = nat i;
            c = (if cmRunning c ! n
                 then c\<lparr>cmRunning := (cmRunning c)[n := False], cmJoinable := (cmJoinable c)[n := False]\<rparr> else c);
            c = upd_cam n (\<lambda>d. d\<lparr>cdStreaming := False, cdFps := zero\<rparr>) c
        in (c, set_props [(''camera.gsi.status'', ''idle'')] sys))"

text \<open>The assignment of a thread to an object that is still joinable ends the program.\<close>

definition startStream :: "'f \<Rightarrow> int \<Rightarrow> u32 \<Rightarrow> u32 \<Rightarrow> 'f camera \<Rightarrow> sys \<Rightarrow> fault + (bool \<times> 'f camera \<times> sys)" where
  "startStream zero i width height c sys =
     (if \<not> valid_cam i then Inr (False, c, sys)
      else
        let (c, sys) = stopStream zero i c sys; n = nat i in
        if \<not> cmInitialized c then Inr (False, c, sys)
        else
          let c = (if width > 0 \<and> height > 0 then upd_cam n (\<lambda>d. d\<lparr>cdWidth := width, cdHeight := height\<rparr>) c else c);
              c = upd_cam n (\<lambda>d. d\<lparr>cdStreaming := True\<rparr>) c;
              c = c\<lparr>cmRunning := (cmRunning c)[n := True]\<rparr>
          in if cmJoinable c ! n then Inl Terminated
             else Inr (True, c\<lparr>cmJoinable := (cmJoinable c)[n := True]\<rparr>,
                    set_props [(''camera.active'', dec_int i), (''camera.gsi.status'', ''streaming'')] sys))"

definition shutdown_camera :: "'f \<Rightarrow> 'f camera \<Rightarrow> sys \<Rightarrow> 'f camera \<times> sys" where
  "shutdown_camera zero c sys =
     (let (c, sys) = stopStream zero 0 c sys; (c, sys) = stopStream zero 1 c sys
      in (c\<lparr>cmInitialized := False\<rparr>, sys))"

definition getFrameCount :: "int \<Rightarrow> 'f camera \<Rightarrow> u64" where
  "getFrameCount i c = (if \<not> valid_cam i then 0 else cdFrameCount (cmCameras c ! nat i))"

section \<open>The generator\<close>

text \<open>The rounds while the stream runs; every round draws and writes one frame.\<close>

fun generator_rounds ::
  "nat \<Rightarrow> u32 \<Rightarrow> u32 \<Rightarrow> string \<Rightarrow> u64 \<Rightarrow> 'f option list \<Rightarrow> u32 list \<Rightarrow> 'f camera \<times> host \<Rightarrow> fault + ('f camera \<times> host)" where
  "generator_rounds i width height p localFrames [] buf (c, h) = Inr (c, h)"
| "generator_rounds i width height p localFrames (fps # rounds) buf (c, h) =
     bnd (generateTestPattern buf width height localFrames) (\<lambda>buf.
       let h = write_node p (frame_text buf) h;
           localFrames = localFrames + 1;
           c = (case fps of
                  None \<Rightarrow> c
                | Some r \<Rightarrow> upd_cam i (\<lambda>d. d\<lparr>cdFrameCount := localFrames, cdFps := r\<rparr>) c)
       in generator_rounds i width height p localFrames rounds buf (c, h))"

definition generatorLoop :: "nat \<Rightarrow> 'f option list \<Rightarrow> 'f camera \<times> host \<Rightarrow> fault + ('f camera \<times> host)" where
  "generatorLoop i rounds ch =
     (let d = cmCameras (fst ch) ! i in
      if file_content (snd ch) (cdNodePath d) = None \<or> hDenied (snd ch) (cdNodePath d) then Inr ch
      else generator_rounds i (cdWidth d) (cdHeight d) (cdNodePath d) 0 rounds (frame_buffer (cdWidth d) (cdHeight d)) ch)"

definition camera_text :: "('f \<Rightarrow> string) \<Rightarrow> 'f camera \<Rightarrow> nat \<Rightarrow> string" where
  "camera_text show_f c i =
     (let d = cmCameras c ! i in
      oline (''Camera '' @ dec i @ '' ['' @ cdName d @ '']'')
      @ oline (''  Resolution: '' @ dec (unat (cdWidth d)) @ ''x'' @ dec (unat (cdHeight d)) @ '' (RGBA/NV21)'')
      @ oline (''  Status    : '' @ (if cdStreaming d then ''STREAMING'' else ''IDLE''))
      @ oline (''  FPS       : '' @ show_f (cdFps d))
      @ oline (''  Frames    : '' @ dec (unat (cdFrameCount d)))
      @ oline (''  V4L2 Node : '' @ cdNodePath d))"

definition getCameraStatsString :: "('f \<Rightarrow> string) \<Rightarrow> 'f camera \<Rightarrow> string" where
  "getCameraStatsString show_f c =
     oline ''=== VIRTUAL CAMERA & V4L2 HAL SUBSYSTEM ===''
     @ concat (map (camera_text show_f c) [0, 1])
     @ ''============================================''"

section \<open>The picture\<close>

text \<open>The test picture in plain arithmetic: eight bars over three quarters of the height, and below them the scan mark on the gradient.\<close>

definition test_picture :: "nat \<Rightarrow> nat \<Rightarrow> nat \<Rightarrow> nat \<Rightarrow> nat \<Rightarrow> u32" where
  "test_picture w h k y x =
     (if y < 3 * h div 4 then SMPTE_COLORS ! min (x div (w div 8)) 7
      else if 8 * k mod w \<le> x \<and> x < 8 * k mod w + 16 then 0xFF00E5FF
      else gradient (word_of_nat w) (word_of_nat x))"

definition picture_list :: "nat \<Rightarrow> nat \<Rightarrow> nat \<Rightarrow> u32 list" where
  "picture_list w h k = map (\<lambda>i. test_picture w h k (i div w) (i mod w)) [0..<w * h]"

lemma unat_of_small: "n < 2 ^ 32 \<Longrightarrow> unat (word_of_nat n :: u32) = n"
  by (simp add: unat_of_nat)

lemma pattern_pixel_ok:
  assumes w: "8 \<le> w" "w < 2 ^ 31" and h: "3 * h < 2 ^ 32" and k: "8 * k < 2 ^ 64" and yx: "y < h" "x < w"
  shows "pattern_pixel (word_of_nat w) ((word_of_nat h * 3) div 4)
      (ucast ((word_of_nat k * 8 :: u64) mod ucast (word_of_nat w :: u32))) (word_of_nat y) (word_of_nat x)
    = Inr (test_picture w h k y x)"
proof -
  have b: "unat ((word_of_nat h * 3) div 4 :: u32) = 3 * h div 4"
    using h by (simp add: unat_div unat_word_ariths(2) unat_of_nat mult.commute)
  have y: "unat (word_of_nat y :: u32) = y" and x: "unat (word_of_nat x :: u32) = x" and ww: "unat (word_of_nat w :: u32) = w"
    using yx w h by (simp_all add: unat_of_nat)
  have s64: "unat ((word_of_nat k * 8 :: u64) mod ucast (word_of_nat w :: u32)) = 8 * k mod w"
    using k w by (simp add: unat_mod unat_word_ariths(2) unat_of_nat mult.commute)
  have "8 * k mod w < w"
    using w(1) by simp
  then have s: "unat (ucast ((word_of_nat k * 8 :: u64) mod ucast (word_of_nat w :: u32)) :: u32) = 8 * k mod w"
    using w(2) by (simp add: unsigned_ucast_eq take_bit_eq_mod s64)
  then have s16: "unat (ucast ((word_of_nat k * 8 :: u64) mod ucast (word_of_nat w :: u32)) + 16 :: u32) = 8 * k mod w + 16"
    using w(2) \<open>8 * k mod w < w\<close> by (simp add: unat_word_ariths(1))
  have d: "unat (word_of_nat w div 8 :: u32) = w div 8"
    by (simp add: unat_div ww)
  have "word_of_nat w div 8 \<noteq> (0 :: u32)"
    using w(1) d by (metis div_eq_0_iff not_less unat_eq_0 zero_neq_numeral)
  moreover have "unat (min (word_of_nat x div (word_of_nat w div 8)) 7 :: u32) = min (x div (w div 8)) 7"
    by (simp add: min_def word_le_nat_alt unat_div d x ww)
  ultimately show ?thesis
    by (simp add: pattern_pixel_def test_picture_def word_less_nat_alt word_le_nat_alt b y x s s16)
qed

lemma pattern_drawn:
  assumes w: "8 \<le> w" "w < 2 ^ 30" and wh: "w * h < 2 ^ 30" and k: "8 * k < 2 ^ 64" and px: "length px = w * h"
  shows "generateTestPattern px (word_of_nat w) (word_of_nat h) (word_of_nat k) = Inr (picture_list w h k)"
proof -
  have "8 * h \<le> w * h"
    using w by simp
  then have "8 * h < 2 ^ 30"
    using wh by linarith
  then have w31: "w < 2 ^ 30" "3 * h < 2 ^ 32" "h < 2 ^ 30"
    using w by simp_all
  have u: "uint (word_of_nat w :: u32) = int w" "uint (word_of_nat h :: u32) = int h"
    using w31 by (simp_all add: uint_nat unat_of_nat)
  have w0: "(word_of_nat w :: u32) \<noteq> 0"
    using w w31(1) u(1) by (metis of_nat_eq_0_iff not_numeral_le_zero uint_0_eq)
  let ?body = "\<lambda>y x pixels. let idx = word_of_int y * word_of_nat w + word_of_int x :: u32 in
      bnd (pattern_pixel (word_of_nat w) ((word_of_nat h * 3) div 4)
        (ucast ((word_of_nat k * 8 :: u64) mod ucast (word_of_nat w :: u32))) (word_of_int y) (word_of_int x))
      (\<lambda>c. px_write pixels (uint idx) c)"
  have body: "?body y x p = Inr (p[nat y * w + nat x := test_picture w h k (nat y) (nat x)])"
    if yx: "y \<in> set [0..int h - 1]" "x \<in> set [0..int w - 1]" and p: "length p = length px" for y x p
  proof -
    obtain m n where mn: "y = int m" "x = int n" "m < h" "n < w"
      using yx by (metis atLeastAtMost_iff nonneg_int_cases of_nat_less_iff set_upto zle_diff1_eq)
    have cell: "m * w + n < h * w"
      using cell_bound mn(3,4) .
    then have "unat (word_of_nat m * word_of_nat w + word_of_nat n :: u32) = m * w + n"
      using wh by (simp add: unat_of_nat mult.commute flip: of_nat_mult of_nat_add)
    then have i: "uint (word_of_nat m * word_of_nat w + word_of_nat n :: u32) = int (m * w + n)"
      by (simp only: uint_nat)
    have "pattern_pixel (word_of_nat w) ((word_of_nat h * 3) div 4)
        (ucast ((word_of_nat k * 8 :: u64) mod ucast (word_of_nat w :: u32))) (word_of_nat m) (word_of_nat n)
        = Inr (test_picture w h k m n)"
      using w w31 k mn(3,4) by (intro pattern_pixel_ok) simp_all
    moreover have "px_write p (int (m * w + n)) c = Inr (p[m * w + n := c])" for c
      using cell p px by (intro px_ok(2)) (simp add: mult.commute)
    ultimately show ?thesis
      by (simp only: mn(1,2) of_int_of_nat_eq Let_def i bnd.simps nat_int)
  qed
  have "\<exists>p'. for_each [0..int h - 1] (\<lambda>y. for_each [0..int w - 1] (?body y)) px = Inr p'
      \<and> painted w (\<lambda>y x. y \<in> set [0..int h - 1] \<and> x \<in> set [0..int w - 1]) (\<lambda>y x. test_picture w h k (nat y) (nat x)) px p'"
    using body by (intro paint_grid) auto
  then obtain p' where p': "generateTestPattern px (word_of_nat w) (word_of_nat h) (word_of_nat k) = Inr p'"
    "length p' = w * h" "\<forall>i < w * h. i div w < h \<longrightarrow> p' ! i = test_picture w h k (i div w) (i mod w)"
    using w w0 by (auto simp: generateTestPattern_def u painted_def px Let_def)
  have "p' = picture_list w h k"
    using p'(2,3) by (intro nth_equalityI) (auto simp: picture_list_def less_mult_imp_div_less mult.commute)
  then show ?thesis
    using p'(1) by simp
qed

section \<open>Streams\<close>

text \<open>A thread object is joinable exactly while its stream runs, so no start assigns to a running one.\<close>

definition camera_ok :: "'f camera \<Rightarrow> bool" where
  "camera_ok c \<longleftrightarrow> length (cmCameras c) = 2 \<and> length (cmRunning c) = 2 \<and> cmJoinable c = cmRunning c
     \<and> (\<forall>i < 2. cdStreaming (cmCameras c ! i) \<longrightarrow> cmRunning c ! i)"

lemma valid_cam_nat: "valid_cam i \<Longrightarrow> nat i < 2"
  by (auto simp: valid_cam_def)

lemma upd_cam_simps [simp]:
  "cmRunning (upd_cam i f c) = cmRunning c" "cmJoinable (upd_cam i f c) = cmJoinable c"
  "cmInitialized (upd_cam i f c) = cmInitialized c" "length (cmCameras (upd_cam i f c)) = length (cmCameras c)"
  "i < length (cmCameras c) \<Longrightarrow> cmCameras (upd_cam i f c) ! j = (if j = i then f (cmCameras c ! i) else cmCameras c ! j)"
  by (auto simp: upd_cam_def nth_list_update)

lemma camera_new_ok: "camera_ok (camera_new zero)"
  by (auto simp: camera_ok_def camera_new_def camera_device_new_def less_2_cases_iff)

lemma stopStream_ok:
  assumes "camera_ok c"
  shows "camera_ok (fst (stopStream zero i c sys))"
    and "valid_cam i \<Longrightarrow> \<not> cmRunning (fst (stopStream zero i c sys)) ! nat i"
    and "cmInitialized (fst (stopStream zero i c sys)) = cmInitialized c"
    and "j \<noteq> nat i \<Longrightarrow> cmCameras (fst (stopStream zero i c sys)) ! j = cmCameras c ! j"
proof -
  define n where "n = nat i"
  have l: "length (cmCameras c) = 2" "length (cmRunning c) = 2" "cmJoinable c = cmRunning c"
    "cdStreaming (cmCameras c ! m) \<Longrightarrow> m < 2 \<Longrightarrow> cmRunning c ! m" for m
    using assms by (simp_all add: camera_ok_def)
  note d = stopStream_def [of zero i c sys, unfolded Let_def n_def [symmetric]]
  show "cmInitialized (fst (stopStream zero i c sys)) = cmInitialized c"
    by (simp add: d)
  show "j \<noteq> nat i \<Longrightarrow> cmCameras (fst (stopStream zero i c sys)) ! j = cmCameras c ! j"
    by (simp add: d upd_cam_def flip: n_def)
  show "valid_cam i \<Longrightarrow> \<not> cmRunning (fst (stopStream zero i c sys)) ! nat i"
    using valid_cam_nat [of i] l(2) by (simp add: d flip: n_def)
  show "camera_ok (fst (stopStream zero i c sys))"
  proof (cases "valid_cam i")
    case True
    then have n: "n < 2" using valid_cam_nat [of i] by (simp add: n_def)
    have "cdStreaming (cmCameras (fst (stopStream zero i c sys)) ! m) \<Longrightarrow> m < 2 \<Longrightarrow>
        cmRunning (fst (stopStream zero i c sys)) ! m" for m
      using True l(4) [of m] n l(1,2) by (simp add: d nth_list_update split: if_splits)
    moreover have "length (cmCameras (fst (stopStream zero i c sys))) = 2 \<and> length (cmRunning (fst (stopStream zero i c sys))) = 2
        \<and> cmJoinable (fst (stopStream zero i c sys)) = cmRunning (fst (stopStream zero i c sys))"
      using True l by (simp add: d)
    ultimately show ?thesis
      unfolding camera_ok_def by blast
  qed (use assms in \<open>simp add: d\<close>)
qed

lemma camera_ok_size: "camera_ok c \<Longrightarrow> n < 2 \<Longrightarrow> camera_ok (upd_cam n (\<lambda>d. d\<lparr>cdWidth := w, cdHeight := h\<rparr>) c)"
  unfolding camera_ok_def by simp

lemma camera_ok_streams:
  assumes "camera_ok c" "n < 2"
  shows "camera_ok ((upd_cam n (\<lambda>d. d\<lparr>cdStreaming := True\<rparr>) c)
    \<lparr>cmRunning := (cmRunning c)[n := True], cmJoinable := (cmJoinable c)[n := True]\<rparr>)"
  using assms unfolding camera_ok_def by (simp add: nth_list_update)

lemma startStream_ok:
  assumes "camera_ok c"
  shows "\<exists>ok c' sys'. startStream zero i w h c sys = Inr (ok, c', sys') \<and> camera_ok c'
    \<and> (ok \<longrightarrow> valid_cam i \<and> cdStreaming (cmCameras c' ! nat i) \<and> find_prop (fst sys') ''camera.gsi.status'' = Some ''streaming'')"
proof (cases "valid_cam i")
  case True
  define n where "n = nat i"
  have n: "n < 2" using valid_cam_nat [OF True] by (simp add: n_def)
  obtain c1 sys1 where s: "stopStream zero i c sys = (c1, sys1)"
    by (cases "stopStream zero i c sys")
  define c2 where "c2 = (if w > 0 \<and> h > 0 then upd_cam n (\<lambda>d. d\<lparr>cdWidth := w, cdHeight := h\<rparr>) c1 else c1)"
  have c1: "camera_ok c1" "\<not> cmRunning c1 ! n"
    using stopStream_ok(1,2) [OF assms, where zero = zero and i = i and sys = sys] True s by (simp_all add: n_def)
  then have c2: "camera_ok c2" "\<not> cmRunning c2 ! n"
    using camera_ok_size [OF c1(1) n] by (simp_all add: c2_def)
  define c3 where "c3 = (upd_cam n (\<lambda>d. d\<lparr>cdStreaming := True\<rparr>) c2)
    \<lparr>cmRunning := (cmRunning c2)[n := True], cmJoinable := (cmJoinable c2)[n := True]\<rparr>"
  have "camera_ok c3"
    unfolding c3_def by (rule camera_ok_streams [OF c2(1) n])
  moreover have "cdStreaming (cmCameras c3 ! n)"
    using c2(1) n by (simp add: c3_def camera_ok_def)
  moreover have "\<not> cmJoinable c2 ! n"
    using c2 by (simp add: camera_ok_def)
  moreover define sys2 where "sys2 = set_props [(''camera.active'', dec_int i), (''camera.gsi.status'', ''streaming'')] sys1"
  ultimately have "startStream zero i w h c sys = (if \<not> cmInitialized c1 then Inr (False, c1, sys1) else Inr (True, c3, sys2))"
    using True by (simp add: startStream_def s Let_def flip: n_def c2_def) (simp add: c3_def sys2_def)
  moreover have "find_prop (fst sys2) ''camera.gsi.status'' = Some ''streaming''"
    by (simp add: sys2_def setProperty_look)
  ultimately show ?thesis
    using True c1(1) \<open>camera_ok c3\<close> \<open>cdStreaming (cmCameras c3 ! n)\<close> unfolding n_def
    by (metis (full_types))
qed (use assms in \<open>simp add: startStream_def\<close>)

text \<open>The status is shared: stopping one stream publishes \<^verbatim>\<open>idle\<close> while the other goes on.\<close>

lemma status_idle_while_streaming:
  assumes "camera_ok c" "cdStreaming (cmCameras c ! 0)"
  shows "cdStreaming (cmCameras (fst (stopStream zero 1 c sys)) ! 0)
    \<and> find_prop (fst (snd (stopStream zero 1 c sys))) ''camera.gsi.status'' = Some ''idle''"
  using stopStream_ok(4) [OF assms(1), where j = 0 and i = 1 and zero = zero and sys = sys] assms(2)
  by (auto simp: stopStream_def valid_cam_def Let_def setProperty_look)

section \<open>The frame in the node\<close>

lemma frame_text_length: "length (frame_text px) = 4 * length px"
  by (induction px) (simp_all add: frame_text_def bytes_to_string_def)

lemma length_picture_list [simp]: "length (picture_list w h k) = w * h"
  by (simp add: picture_list_def)

lemma write_node_content:
  assumes "file_content h p = Some old" "\<not> hDenied h p"
  shows "file_content (write_node p content h) p = Some (content @ drop (length content) old)"
    and "\<not> hDenied (write_node p content h) p"
  using assms by (auto simp: write_node_def host_write_def file_content_def split: option.splits node.splits)

lemma generator_shows_last:
  assumes w: "8 \<le> w" "w < 2 ^ 30" "w * h < 2 ^ 30"
  shows "length buf = w * h \<Longrightarrow> 8 * (k + length rounds) < 2 ^ 64 \<Longrightarrow> rounds \<noteq> [] \<Longrightarrow>
    file_content hst p = Some old \<Longrightarrow> \<not> hDenied hst p \<Longrightarrow>
    \<exists>c' h'. generator_rounds i (word_of_nat w) (word_of_nat h) p (word_of_nat k) rounds buf (c, hst) = Inr (c', h')
      \<and> file_content h' p = Some (frame_text (picture_list w h (k + length rounds - 1)) @ drop (4 * w * h) old)"
proof (induction rounds arbitrary: k buf c hst old)
  case (Cons r rs)
  let ?c = "case r of None \<Rightarrow> c | Some r \<Rightarrow> upd_cam i (\<lambda>d. d\<lparr>cdFrameCount := word_of_nat (Suc k), cdFps := r\<rparr>) c"
  let ?h = "write_node p (frame_text (picture_list w h k)) hst"
  have "8 * k < 2 ^ 64"
    using Cons.prems(2) by simp
  note g = pattern_drawn [OF w this Cons.prems(1)]
  have k1: "(word_of_nat k + 1 :: u64) = word_of_nat (Suc k)"
    by simp
  have step: "generator_rounds i (word_of_nat w) (word_of_nat h) p (word_of_nat k) (r # rs) buf (c, hst) =
      generator_rounds i (word_of_nat w) (word_of_nat h) p (word_of_nat (Suc k)) rs (picture_list w h k) (?c, ?h)"
    by (simp only: generator_rounds.simps g bnd.simps Let_def k1)
  note n = write_node_content [OF Cons.prems(4,5), of "frame_text (picture_list w h k)"]
  show ?case
  proof (cases "rs = []")
    case True
    then show ?thesis
      using n(1) unfolding step by (simp add: frame_text_length mult.assoc)
  next
    case False
    have "8 * (Suc k + length rs) < 2 ^ 64"
      using Cons.prems(2) by simp
    from Cons.IH [OF _ this False n(1) n(2)] show ?thesis
      unfolding step by (simp add: frame_text_length mult.assoc)
  qed
qed simp

text \<open>C33: A stream of at least eight pixels in width whose frame fits 32-bit sizes never leaves its
  buffer: the generator returns, and the camera's node holds the test picture of the last round drawn,
  bars above and the moving mark below, before what an older, larger frame left behind.\<close>

theorem camera_node_shows_frame:
  assumes "cdWidth (cmCameras c ! i) = word_of_nat w" "cdHeight (cmCameras c ! i) = word_of_nat h"
    and "8 \<le> w" "w < 2 ^ 30" "w * h < 2 ^ 30" "rounds \<noteq> []" "8 * length rounds < 2 ^ 64"
    and "file_content hst (cdNodePath (cmCameras c ! i)) = Some old" "\<not> hDenied hst (cdNodePath (cmCameras c ! i))"
  shows "\<exists>c' h'. generatorLoop i rounds (c, hst) = Inr (c', h')
    \<and> file_content h' (cdNodePath (cmCameras c ! i)) =
        Some (frame_text (picture_list w h (length rounds - 1)) @ drop (4 * w * h) old)"
proof -
  have "frame_size (word_of_nat w) (word_of_nat h) = word_of_nat (w * h * 4)"
    by (simp add: frame_size_def)
  moreover have "w * h * 4 < 2 ^ 32"
    using assms(5) by (simp add: mult.commute)
  ultimately have "unat (frame_size (word_of_nat w) (word_of_nat h)) = w * h * 4"
    by (simp only: unat_of_small)
  then have "length (frame_buffer (word_of_nat w) (word_of_nat h)) = w * h"
    by (simp add: frame_buffer_def)
  from generator_shows_last [OF assms(3-5) this, of 0 rounds hst "cdNodePath (cmCameras c ! i)" old i c]
  show ?thesis
    using assms by (simp add: generatorLoop_def Let_def)
qed

definition demo_camera :: "nat camera" where
  "demo_camera = (camera_new 0)\<lparr>cmCameras := [(camera_device_new 0)\<lparr>cdWidth := 8, cdHeight := 4, cdNodePath := ''/n''\<rparr>]\<rparr>"

theorem camera_node_shows_frame_witness:
  "\<exists>c' h'. generatorLoop 0 [None, Some 30] (demo_camera, set_node empty_host ''/n'' (Some (File 438 []))) = Inr (c', h')
    \<and> file_content h' ''/n'' = Some (frame_text (picture_list 8 4 1))"
  using camera_node_shows_frame [where c = demo_camera and i = 0 and w = 8 and h = 4 and rounds = "[None, Some 30]"
      and hst = "set_node empty_host ''/n'' (Some (File 438 []))" and old = "[]"]
  by (simp add: demo_camera_def camera_new_def camera_device_new_def empty_host_def)

text \<open>
  The guard of \<^verbatim>\<open>startStream\<close> admits the sizes this excludes. Fewer than eight columns divide by
  zero, and a frame of \<open>2^32\<close> bytes gets an empty buffer.
\<close>

lemma narrow_stream_divides:
  assumes "0 < w" "w < 8" "0 < uint h" "(h * 3) div 4 \<noteq> 0"
  shows "generateTestPattern buf w h k = Inl DivideByZero"
proof -
  have w8: "w div 8 = 0"
    using assms(2) by (simp add: word_arith_nat_div word_less_nat_alt)
  have "0 < uint w"
    using assms(1) by (simp add: word_less_def)
  then have "[0..uint h - 1] = 0 # [1..uint h - 1]" "[0..uint w - 1] = 0 # [1..uint w - 1]"
    using assms(3) by (simp_all add: upto_rec1)
  moreover have "(0 :: u32) < (h * 3) div 4"
    using assms(4) by (simp add: word_neq_0_conv)
  ultimately show ?thesis
    using assms(1) w8 by (simp add: generateTestPattern_def pattern_pixel_def Let_def)
qed

lemma wide_stream_overruns:
  "generatorLoop i (r # rounds) (c, h) = Inl OutOfBounds"
  if "cdWidth (cmCameras c ! i) = 65536" "cdHeight (cmCameras c ! i) = 16384"
    "file_content h (cdNodePath (cmCameras c ! i)) \<noteq> None" "\<not> hDenied h (cdNodePath (cmCameras c ! i))"
proof -
  have "frame_buffer 65536 16384 = []"
    by (simp add: frame_buffer_def frame_size_def)
  moreover have "[0..16384 - 1] = 0 # [1..16384 - 1 :: int]" "[0..65536 - 1] = 0 # [1..65536 - 1 :: int]"
    using upto_rec1 [of 0 "16384 - 1"] upto_rec1 [of 0 "65536 - 1"] by simp_all
  then have "generateTestPattern [] 65536 16384 0 = Inl OutOfBounds"
    by (simp only: generateTestPattern_def Let_def) (simp add: pattern_pixel_def px_write_def del: upto.simps)
  ultimately show ?thesis
    using that by (simp add: generatorLoop_def Let_def)
qed

end
