(* ===== verification/Sensor_Bridge.thy ===== *)
theory Sensor_Bridge
  imports Bridge_Common Float_Ops
begin

text \<open>
  The synthetic sensors of \<^verbatim>\<open>sensor_bridge.cpp\<close>: the readings a client sets, the nodes of
  the IIO device and the properties that mirror them, and the telemetry written to a pipe. The pipe is
  a file node of the host and the list of the packets handed to it. The clock, the results of
  \<^verbatim>\<open>mkfifo\<close> and \<^verbatim>\<open>open\<close> and the floating-point operations are
  parameters.
\<close>

record 'f SensorData =
  sdAccelX :: 'f
  sdAccelY :: 'f
  sdAccelZ :: 'f
  sdGyroX :: 'f
  sdGyroY :: 'f
  sdGyroZ :: 'f
  sdLightLux :: 'f
  sdProximityCm :: 'f
  sdTimestampNs :: u64
  sdTotalEvents :: u64

definition sensor_default :: "'f float_ops \<Rightarrow> 'f SensorData" where
  "sensor_default F =
     \<lparr>sdAccelX = fDec F 0 0, sdAccelY = fDec F 981 2, sdAccelZ = fDec F 0 0,
      sdGyroX = fDec F 0 0, sdGyroY = fDec F 0 0, sdGyroZ = fDec F 0 0,
      sdLightLux = fDec F 300 0, sdProximityCm = fDec F 5 0, sdTimestampNs = 0, sdTotalEvents = 0\<rparr>"

record 'f sensor =
  seSandboxDir :: string
  seIioDir :: string
  sePipePath :: string
  sePipeOpen :: bool
  seInitialized :: bool
  seData :: "'f SensorData"
  sePackets :: "string list"

definition sensor_new :: "'f float_ops \<Rightarrow> 'f sensor" where
  "sensor_new F = \<lparr>seSandboxDir = [], seIioDir = [], sePipePath = [], sePipeOpen = False,
     seInitialized = False, seData = sensor_default F, sePackets = []\<rparr>"

section \<open>The nodes and the properties\<close>

definition getMonotonicTimeNs :: "u64 \<Rightarrow> u64 \<Rightarrow> u64" where
  "getMonotonicTimeNs sec nsec = sec * 1000000000 + nsec"

definition sensor_files :: "'f float_ops \<Rightarrow> 'f sensor \<Rightarrow> (string \<times> string) list" where
  "sensor_files F s =
     (let d = seIioDir s; r = seData s in
      [(d @ ''/name'', oline ''virtual-gsi-sensors''),
       (d @ ''/in_accel_x_raw'', oline (fText F (sdAccelX r))),
       (d @ ''/in_accel_y_raw'', oline (fText F (sdAccelY r))),
       (d @ ''/in_accel_z_raw'', oline (fText F (sdAccelZ r))),
       (d @ ''/in_accel_scale'', oline ''1.0''),
       (d @ ''/in_anglvel_x_raw'', oline (fText F (sdGyroX r))),
       (d @ ''/in_anglvel_y_raw'', oline (fText F (sdGyroY r))),
       (d @ ''/in_anglvel_z_raw'', oline (fText F (sdGyroZ r))),
       (d @ ''/in_anglvel_scale'', oline ''1.0''),
       (d @ ''/in_illuminance_input'', oline (fText F (sdLightLux r))),
       (d @ ''/in_proximity_input'', oline (fText F (sdProximityCm r)))])"

definition triple_text :: "'f float_ops \<Rightarrow> nat \<Rightarrow> 'f \<Rightarrow> 'f \<Rightarrow> 'f \<Rightarrow> string" where
  "triple_text F n x y z = fFixed F n x @ '','' @ fFixed F n y @ '','' @ fFixed F n z"

definition sensor_view :: "'f float_ops \<Rightarrow> 'f SensorData \<times> int \<times> int \<Rightarrow> (string \<times> string) list" where
  "sensor_view F = (\<lambda>(r, light, prox).
     [(''persist.sys.sensor.accel'', triple_text F 2 (sdAccelX r) (sdAccelY r) (sdAccelZ r)),
      (''persist.sys.sensor.gyro'', triple_text F 2 (sdGyroX r) (sdGyroY r) (sdGyroZ r)),
      (''persist.sys.sensor.light'', dec_int light),
      (''persist.sys.sensor.proximity'', dec_int prox)])"

definition sensor_writeSysfsFile :: "string \<Rightarrow> string \<Rightarrow> sys \<Rightarrow> bool \<times> sys" where
  "sensor_writeSysfsFile p content sys = sys_write p 438 content sys"

definition sensor_syncToSysfs :: "'f float_ops \<Rightarrow> 'f sensor \<Rightarrow> sys \<Rightarrow> fault + sys" where
  "sensor_syncToSysfs F s sys =
     (if \<not> seInitialized s then Inr sys
      else
        let sys = foldl (\<lambda>sys (p, c). snd (sensor_writeSysfsFile p c sys)) sys (sensor_files F s) in
        bnd (f_to_int F (sdLightLux (seData s))) (\<lambda>light.
        bnd (f_to_int F (sdProximityCm (seData s))) (\<lambda>prox.
          Inr (set_props (sensor_view F (seData s, light, prox)) sys))))"

section \<open>The operations\<close>

definition initialize_sensor ::
  "'f float_ops \<Rightarrow> bool \<Rightarrow> bool \<Rightarrow> u64 \<Rightarrow> 'f sensor \<Rightarrow> sys \<Rightarrow> string \<Rightarrow> fault + (bool \<times> 'f sensor \<times> sys)" where
  "initialize_sensor F mkfifo_ok open_ok now s sys dir =
     (let iio = dir @ ''/sys/bus/iio/devices/iio:device0''; p = dir @ ''/tmp/sensor_event'';
          (ps, h) = make_dirs True 511 iio sys;
          h = host_unlink h p;
          h = (if mkfifo_ok then set_node h p (Some (File 438 [])) else h);
          s = s\<lparr>seSandboxDir := dir, seIioDir := iio, sePipePath := p,
                sePipeOpen := host_exists h p \<and> open_ok, seInitialized := True,
                seData := (sensor_default F)\<lparr>sdTimestampNs := now\<rparr>, sePackets := []\<rparr>
      in bnd (sensor_syncToSysfs F s (ps, h)) (\<lambda>sys. Inr (True, s, sys)))"

definition shutdown_sensor :: "'f sensor \<Rightarrow> 'f sensor" where
  "shutdown_sensor s = s\<lparr>sePipeOpen := False, seInitialized := False\<rparr>"

definition sensor_packet :: "'f float_ops \<Rightarrow> 'f SensorData \<Rightarrow> string" where
  "sensor_packet F r =
     ''SENSOR:'' @ dec (unat (sdTimestampNs r))
     @ '',ACCEL:'' @ triple_text F 3 (sdAccelX r) (sdAccelY r) (sdAccelZ r)
     @ '',GYRO:'' @ triple_text F 3 (sdGyroX r) (sdGyroY r) (sdGyroZ r)
     @ '',LIGHT:'' @ fFixed F 1 (sdLightLux r) @ '',PROX:'' @ fFixed F 1 (sdProximityCm r) @ [nl]"

text \<open>
  \<^verbatim>\<open>snprintf\<close> stores at most 255 characters and a NUL in the buffer of 256 and returns the
  length of the whole text; \<^verbatim>\<open>write\<close> is given that length.
\<close>

definition buffered :: "string \<Rightarrow> string" where
  "buffered t = take 255 t @ [nul]"

definition write_packet :: "string \<Rightarrow> 'f sensor \<Rightarrow> fault + 'f sensor" where
  "write_packet t s =
     (if length t > 256 then Inl OutOfBounds
      else Inr (s\<lparr>sePackets := sePackets s @ [take (length t) (buffered t)]\<rparr>))"

definition set_readings ::
  "'f float_ops \<Rightarrow> u64 \<Rightarrow> 'f \<Rightarrow> 'f \<Rightarrow> 'f \<Rightarrow> 'f \<Rightarrow> 'f \<Rightarrow> 'f \<Rightarrow> 'f \<Rightarrow> 'f \<Rightarrow> 'f SensorData \<Rightarrow> 'f SensorData" where
  "set_readings F now ax ay az gx gy gz lux prox r =
     r\<lparr>sdAccelX := ax, sdAccelY := ay, sdAccelZ := az, sdGyroX := gx, sdGyroY := gy, sdGyroZ := gz,
       sdLightLux := (if fLeq F (fDec F 0 0) lux then lux else fDec F 0 0),
       sdProximityCm := (if fLeq F (fDec F 0 0) prox then prox else fDec F 0 0),
       sdTimestampNs := now, sdTotalEvents := sdTotalEvents r + 1\<rparr>"

definition updateSensors ::
  "'f float_ops \<Rightarrow> u64 \<Rightarrow> 'f \<Rightarrow> 'f \<Rightarrow> 'f \<Rightarrow> 'f \<Rightarrow> 'f \<Rightarrow> 'f \<Rightarrow> 'f \<Rightarrow> 'f \<Rightarrow> 'f sensor \<Rightarrow> sys
    \<Rightarrow> fault + (bool \<times> 'f sensor \<times> sys)" where
  "updateSensors F now ax ay az gx gy gz lux prox s sys =
     (if \<not> seInitialized s then Inr (False, s, sys)
      else
        let s = s\<lparr>seData := set_readings F now ax ay az gx gy gz lux prox (seData s)\<rparr> in
        bnd (sensor_syncToSysfs F s sys) (\<lambda>sys.
          if sePipeOpen s
          then bnd (write_packet (sensor_packet F (seData s)) s) (\<lambda>s. Inr (True, s, sys))
          else Inr (True, s, sys)))"

definition getSensorData :: "'f sensor \<Rightarrow> 'f SensorData" where
  "getSensorData s = seData s"

definition getSensorStatsString :: "'f float_ops \<Rightarrow> 'f sensor \<Rightarrow> string" where
  "getSensorStatsString F s =
     (let r = seData s in
      oline ''=== VIRTUAL SENSORS & IIO HAL SUBSYSTEM ===''
      @ oline (''Accelerometer: X='' @ fFixed F 3 (sdAccelX r) @ '' Y='' @ fFixed F 3 (sdAccelY r)
          @ '' Z='' @ fFixed F 3 (sdAccelZ r) @ '' m/s'' @ [CHR 0xC2, CHR 0xB2])
      @ oline (''Gyroscope    : X='' @ fFixed F 3 (sdGyroX r) @ '' Y='' @ fFixed F 3 (sdGyroY r)
          @ '' Z='' @ fFixed F 3 (sdGyroZ r) @ '' rad/s'')
      @ oline (''Ambient Light: '' @ fFixed F 1 (sdLightLux r) @ '' lux'')
      @ oline (''Proximity    : '' @ fFixed F 1 (sdProximityCm r) @ '' cm (''
          @ (if fLess F (sdProximityCm r) (fDec F 3 0) then ''NEAR'' else ''FAR'') @ '')'')
      @ oline (''Total Events : '' @ dec (unat (sdTotalEvents r)))
      @ oline (''Sysfs Path   : '' @ seIioDir s)
      @ oline (''FIFO Pipe    : '' @ sePipePath s)
      @ ''============================================'')"

section \<open>Correctness\<close>

interpretation sensor: publisher "sensor_view F" for F
  by unfold_locales (simp add: sensor_view_def split: prod.splits)

lemma sensor_sync_files: "foldl (\<lambda>sys (p, c). snd (sensor_writeSysfsFile p c sys)) sys fs = write_files 438 fs sys"
  by (simp add: write_files_def sensor_writeSysfsFile_def)

text \<open>The light and the distance of every reading a client sets are not negative, whatever it passes.\<close>

lemma readings_not_negative:
  assumes "fLeq F (fDec F 0 0) (fDec F 0 0)"
  shows "fLeq F (fDec F 0 0) (sdLightLux (set_readings F now ax ay az gx gy gz lux prox r))
    \<and> fLeq F (fDec F 0 0) (sdProximityCm (set_readings F now ax ay az gx gy gz lux prox r))"
  using assms by (simp add: set_readings_def)

text \<open>
  An update that returns has written the nodes and the properties of the new readings and handed the
  packet to the pipe; it leaves the packet's buffer exactly when its text is longer than the buffer.
\<close>

lemma update_shows_readings:
  assumes up: "updateSensors F now ax ay az gx gy gz lux prox s sys = Inr (True, s', sys')"
    and ok: "\<forall>q \<in> fst ` set (sensor_files F s). writable (snd sys) q \<and> q \<noteq> psPropertiesFilePath (fst sys)"
  shows "(\<forall>(p, c) \<in> set (sensor_files F s'). file_content (snd sys') p = Some c)
    \<and> find_prop (fst sys') ''persist.sys.sensor.accel'' = Some (triple_text F 2 ax ay az)
    \<and> (sePipeOpen s \<longrightarrow> length (sensor_packet F (seData s')) \<le> 256)"
proof -
  define r where "r = set_readings F now ax ay az gx gy gz lux prox (seData s)"
  define s1 where "s1 = s\<lparr>seData := r\<rparr>"
  have sd: "seData s1 = r" by (simp add: s1_def)
  define fs where "fs = sensor_files F s1"
  have init: "seInitialized s"
    using up by (simp add: updateSensors_def split: if_splits)
  have keys: "fst ` set fs = fst ` set (sensor_files F s)" "distinct (map fst fs)"
    by (simp_all add: fs_def s1_def sensor_files_def Let_def)
  obtain sys1 where sy: "sensor_syncToSysfs F s1 sys = Inr sys1"
    and tl: "(if sePipeOpen s1 then bnd (write_packet (sensor_packet F r) s1) (\<lambda>s. Inr (True, s, sys1))
      else Inr (True, s1, sys1)) = Inr (True, s', sys')"
    using up init unfolding updateSensors_def Let_def r_def [symmetric] s1_def [symmetric]
    by (simp only: if_False not_True_eq_False sd bnd_Inr_iff) blast
  then have s': "s' = s1 \<or> write_packet (sensor_packet F r) s1 = Inr s'" and sys': "sys' = sys1"
    and pk: "sePipeOpen s \<longrightarrow> length (sensor_packet F r) \<le> 256"
    by (auto simp: bnd_Inr_iff write_packet_def s1_def split: if_splits)
  obtain l p where lp: "sys' = set_props (sensor_view F (r, l, p)) (write_files 438 fs sys)"
    using sy init sys' by (auto simp: sensor_syncToSysfs_def sensor_sync_files bnd_Inr_iff s1_def fs_def Let_def)
  have same: "seData s' = r" "seIioDir s' = seIioDir s1"
    using s' by (auto simp: write_packet_def s1_def split: if_splits)
  have "file_content (snd sys') q = Some c" if "(q, c) \<in> set fs" for q c
    unfolding lp using ok by (intro published_files keys(2) that) (simp add: keys(1))
  moreover have "sensor_files F s' = fs"
    by (simp add: sensor_files_def same fs_def s1_def)
  moreover have "find_prop (fst sys') ''persist.sys.sensor.accel'' = Some (triple_text F 2 (sdAccelX r) (sdAccelY r) (sdAccelZ r))"
    unfolding lp by (rule sensor.published) (simp add: sensor_view_def)
  ultimately show ?thesis
    using pk by (auto simp: same(1) r_def set_readings_def)
qed

lemma long_packet_leaves_buffer:
  "length (sensor_packet F (set_readings F now ax ay az gx gy gz lux prox (seData s))) > 256 \<Longrightarrow>
   seInitialized s \<Longrightarrow> sePipeOpen s \<Longrightarrow>
   \<exists>e. updateSensors F now ax ay az gx gy gz lux prox s sys = Inl e"
  by (cases "sensor_syncToSysfs F (s\<lparr>seData := set_readings F now ax ay az gx gy gz lux prox (seData s)\<rparr>) sys")
    (simp_all add: updateSensors_def write_packet_def Let_def)

end
