(* ===== verification/Input_Bridge.thy ===== *)
theory Input_Bridge
  imports Host_Files Float_Ops
begin

text \<open>
  The input pipe of \<^verbatim>\<open>input_bridge.cpp\<close>: the events written for touches and keys. The
  pipe is a file node of the host and the list of the events handed to it, without their time stamps;
  the single-precision operations that scale a touch to the screen are parameters.
\<close>

definition EV_SYN :: u16 where "EV_SYN = 0"
definition EV_KEY :: u16 where "EV_KEY = 1"
definition EV_ABS :: u16 where "EV_ABS = 3"
definition ABS_MT_POSITION_X :: u16 where "ABS_MT_POSITION_X = 0x35"
definition ABS_MT_POSITION_Y :: u16 where "ABS_MT_POSITION_Y = 0x36"
definition ABS_MT_TRACKING_ID :: u16 where "ABS_MT_TRACKING_ID = 0x39"
definition BTN_TOUCH :: u16 where "BTN_TOUCH = 0x14a"

record input_event =
  ieType :: u16
  ieCode :: u16
  ieValue :: int

record input_bridge =
  ibOpen :: bool
  ibFifoPath :: string
  ibScreenWidth :: u32
  ibScreenHeight :: u32
  ibTouchEvents :: u64
  ibKeyEvents :: u64
  ibEvents :: "input_event list"

definition input_new :: input_bridge where
  "input_new = \<lparr>ibOpen = False, ibFifoPath = [], ibScreenWidth = 720, ibScreenHeight = 1280,
     ibTouchEvents = 0, ibKeyEvents = 0, ibEvents = []\<rparr>"

section \<open>The pipe\<close>

definition close_input :: "input_bridge \<Rightarrow> input_bridge" where
  "close_input b = b\<lparr>ibOpen := False\<rparr>"

text \<open>The pipe is opened without \<^verbatim>\<open>O_CREAT\<close>: it must exist by then.\<close>

definition initialize_input ::
  "bool \<Rightarrow> bool \<Rightarrow> input_bridge \<Rightarrow> host \<Rightarrow> string \<Rightarrow> u32 \<Rightarrow> u32 \<Rightarrow> bool \<times> input_bridge \<times> host" where
  "initialize_input mkfifo_ok open_ok b h dir w ht =
     (let p = dir @ ''/tmp/touch_event'';
          b = (close_input b)\<lparr>ibScreenWidth := w, ibScreenHeight := ht, ibFifoPath := p\<rparr>;
          h = host_unlink h p;
          h = (if mkfifo_ok then set_node h p (Some (File 438 [])) else h)
      in if host_exists h p \<and> open_ok then (True, b\<lparr>ibOpen := True, ibEvents := []\<rparr>, h) else (False, b, h))"

definition writeEvent :: "u16 \<Rightarrow> u16 \<Rightarrow> int \<Rightarrow> input_bridge \<Rightarrow> input_bridge" where
  "writeEvent typ code val b =
     (if \<not> ibOpen b then b else b\<lparr>ibEvents := ibEvents b @ [\<lparr>ieType = typ, ieCode = code, ieValue = val\<rparr>]\<rparr>)"

definition writeSync :: "input_bridge \<Rightarrow> input_bridge" where
  "writeSync b = writeEvent EV_SYN 0 0 b"

section \<open>Touches and keys\<close>

definition count_touch :: "input_bridge \<Rightarrow> input_bridge" where
  "count_touch b = b\<lparr>ibTouchEvents := ibTouchEvents b + 1\<rparr>"

definition touch_at :: "int \<Rightarrow> int \<Rightarrow> int \<Rightarrow> int \<Rightarrow> input_bridge \<Rightarrow> input_bridge" where
  "touch_at act pixelX pixelY pointerId b =
     (if \<not> ibOpen b then b
      else if act = 0 then
        count_touch (writeSync (writeEvent EV_KEY BTN_TOUCH 1 (writeEvent EV_ABS ABS_MT_POSITION_Y pixelY
          (writeEvent EV_ABS ABS_MT_POSITION_X pixelX (writeEvent EV_ABS ABS_MT_TRACKING_ID pointerId b)))))
      else if act = 2 then
        count_touch (writeSync (writeEvent EV_ABS ABS_MT_POSITION_Y pixelY (writeEvent EV_ABS ABS_MT_POSITION_X pixelX b)))
      else if act = 1 \<or> act = 3 then
        count_touch (writeSync (writeEvent EV_KEY BTN_TOUCH 0 (writeEvent EV_ABS ABS_MT_TRACKING_ID (-1) b)))
      else b)"

text \<open>A coordinate between 0 and 1 on the screen; the product with the last index is single precision.\<close>

definition to_pixel :: "'f float_ops \<Rightarrow> 'f \<Rightarrow> u32 \<Rightarrow> fault + int" where
  "to_pixel F norm dim = f_to_int F (fMul F (f_clamp F norm (fDec F 0 0) (fDec F 1 0)) (fInt F (uint (dim - 1))))"

definition injectTouchEvent :: "'f float_ops \<Rightarrow> int \<Rightarrow> 'f \<Rightarrow> 'f \<Rightarrow> int \<Rightarrow> input_bridge \<Rightarrow> fault + input_bridge" where
  "injectTouchEvent F act normX normY pointerId b =
     (if \<not> ibOpen b then Inr b
      else bnd (to_pixel F normX (ibScreenWidth b)) (\<lambda>pixelX.
           bnd (to_pixel F normY (ibScreenHeight b)) (\<lambda>pixelY.
             Inr (touch_at act pixelX pixelY pointerId b))))"

definition injectKeyEvent :: "int \<Rightarrow> int \<Rightarrow> input_bridge \<Rightarrow> input_bridge" where
  "injectKeyEvent keyCode act b =
     (if \<not> ibOpen b then b
      else let b = writeSync (writeEvent EV_KEY (word_of_int keyCode) (if act \<noteq> 0 then 1 else 0) b)
           in b\<lparr>ibKeyEvents := ibKeyEvents b + 1\<rparr>)"

definition injectKeyClick :: "int \<Rightarrow> input_bridge \<Rightarrow> input_bridge" where
  "injectKeyClick keyCode b =
     (if \<not> ibOpen b then b
      else
        let b = writeSync (writeEvent EV_KEY (word_of_int keyCode) 1 b);
            b = writeSync (writeEvent EV_KEY (word_of_int keyCode) 0 b)
        in b\<lparr>ibKeyEvents := ibKeyEvents b + 2\<rparr>)"

text \<open>\<^verbatim>\<open>snprintf\<close> cuts the text at the 255 characters its buffer holds.\<close>

definition getInputStatsString :: "input_bridge \<Rightarrow> string" where
  "getInputStatsString b =
     take 255 (''Input Bridge: '' @ (if ibOpen b then ''ONLINE'' else ''OFFLINE'') @ '' | FIFO: '' @ ibFifoPath b
       @ '' | Resolution: '' @ dec (unat (ibScreenWidth b)) @ ''x'' @ dec (unat (ibScreenHeight b))
       @ '' | Touch Events: '' @ dec (unat (ibTouchEvents b)) @ '' | Key Events: '' @ dec (unat (ibKeyEvents b)))"

section \<open>What a reader of the pipe sees\<close>

text \<open>The reports of the stream: the events up to each synchronization.\<close>

definition is_sync :: "input_event \<Rightarrow> bool" where
  "is_sync e \<longleftrightarrow> ieType e = EV_SYN"

fun key_state :: "u16 \<Rightarrow> bool \<Rightarrow> input_event list \<Rightarrow> bool" where
  "key_state k s [] = s"
| "key_state k s (e # es) = key_state k (if ieType e = EV_KEY \<and> ieCode e = k then ieValue e \<noteq> 0 else s) es"

lemma key_state_append: "key_state k s (xs @ ys) = key_state k (key_state k s xs) ys"
  by (induction xs arbitrary: s) auto

lemmas event_codes = EV_SYN_def EV_KEY_def EV_ABS_def ABS_MT_POSITION_X_def ABS_MT_POSITION_Y_def
  ABS_MT_TRACKING_ID_def BTN_TOUCH_def

lemmas input_defs = touch_at_def injectKeyEvent_def injectKeyClick_def writeSync_def writeEvent_def count_touch_def

text \<open>Every operation on an open bridge ends its events with a synchronization; a closed one writes nothing.\<close>

lemma touch_synced:
  assumes "ibOpen b" "act \<in> {0, 1, 2, 3}"
  shows "\<exists>es e. ibEvents (touch_at act x y pid b) = ibEvents b @ es @ [e] \<and> is_sync e \<and> \<not> list_ex is_sync es"
  using assms by (auto simp: input_defs is_sync_def event_codes)

lemma closed_is_silent:
  "\<not> ibOpen b \<Longrightarrow> touch_at act x y pid b = b \<and> injectKeyEvent k act b = b \<and> injectKeyClick k b = b"
  by (simp add: input_defs)

text \<open>
  The reader's view of the screen contact follows the actions: a down sets it, an up or a cancel
  clears it, a move and an unknown action keep it; a click leaves its key released.
\<close>

lemma touch_contact:
  assumes "ibOpen b"
  shows "key_state BTN_TOUCH s (ibEvents (touch_at act x y pid b)) =
    (if act = 0 then True else if act = 1 \<or> act = 3 then False else key_state BTN_TOUCH s (ibEvents b))"
  using assms by (simp add: input_defs key_state_append event_codes)

lemma click_releases:
  "ibOpen b \<Longrightarrow> \<not> key_state (word_of_int k) s (ibEvents (injectKeyClick k b))"
  by (simp add: input_defs key_state_append event_codes Let_def)

text \<open>When the pipe cannot be made no file takes its place: the bridge stays closed.\<close>

lemma no_fallback_file:
  assumes "\<not> is_dir (hNodes h (dir @ ''/tmp/touch_event''))"
  shows "fst (initialize_input False open_ok b h dir w ht) = False
    \<and> \<not> ibOpen (fst (snd (initialize_input False open_ok b h dir w ht)))"
  using assms by (simp add: initialize_input_def Let_def host_unlink_def host_exists_def close_input_def)

end
