(* ===== verification/Process_Spawner.thy ===== *)
theory Process_Spawner
  imports Host_Files
begin

text \<open>
  The guest process of \<^verbatim>\<open>process_spawner.cpp\<close>: its pipes, its start with the
  environment of the sandbox, the thread that collects its output, and its end. The results of
  \<^verbatim>\<open>pipe2\<close>, \<^verbatim>\<open>fork\<close>, \<^verbatim>\<open>access\<close>,
  \<^verbatim>\<open>poll\<close>, \<^verbatim>\<open>read\<close> and \<^verbatim>\<open>waitpid\<close> are parameters.
  \<open>spOpen\<close> lists the descriptors of pipes the process holds.
\<close>

datatype wait_status = Exited nat | Signaled nat | Stopped

record spawner =
  spPid :: int
  spStdin :: "int \<times> int"
  spStdout :: "int \<times> int"
  spStderr :: "int \<times> int"
  spOpen :: "int list"
  spJoinable :: bool
  spOutput :: string
  spRunning :: bool
  spExitCode :: int

definition spawner_new :: spawner where
  "spawner_new = \<lparr>spPid = -1, spStdin = (-1, -1), spStdout = (-1, -1), spStderr = (-1, -1), spOpen = [],
     spJoinable = False, spOutput = [], spRunning = False, spExitCode = 0\<rparr>"

section \<open>Pipes\<close>

definition close_fd :: "int \<Rightarrow> spawner \<Rightarrow> spawner" where
  "close_fd fd s = (if fd \<noteq> -1 then s\<lparr>spOpen := remove1 fd (spOpen s)\<rparr> else s)"

definition cleanupPipes :: "spawner \<Rightarrow> spawner" where
  "cleanupPipes s =
     (let s = close_fd (fst (spStdin s)) s; s = close_fd (snd (spStdin s)) s;
          s = close_fd (fst (spStdout s)) s; s = close_fd (snd (spStdout s)) s;
          s = close_fd (fst (spStderr s)) s; s = close_fd (snd (spStderr s)) s
      in s\<lparr>spStdin := (-1, -1), spStdout := (-1, -1), spStderr := (-1, -1)\<rparr>)"

definition open_pair :: "int \<times> int \<Rightarrow> spawner \<Rightarrow> spawner" where
  "open_pair p s = s\<lparr>spOpen := fst p # snd p # spOpen s\<rparr>"

text \<open>Three pipes, created until one of them fails.\<close>

definition create_pipes :: "(int \<times> int) option \<Rightarrow> (int \<times> int) option \<Rightarrow> (int \<times> int) option \<Rightarrow> spawner \<Rightarrow> bool \<times> spawner" where
  "create_pipes p0 p1 p2 s =
     (case p0 of None \<Rightarrow> (False, s) | Some a \<Rightarrow>
        let s = (open_pair a s)\<lparr>spStdin := a\<rparr> in
        case p1 of None \<Rightarrow> (False, s) | Some b \<Rightarrow>
          let s = (open_pair b s)\<lparr>spStdout := b\<rparr> in
          case p2 of None \<Rightarrow> (False, s) | Some c \<Rightarrow> (True, (open_pair c s)\<lparr>spStderr := c\<rparr>))"

section \<open>The child\<close>

definition shell_path :: "bool \<Rightarrow> string \<Rightarrow> string" where
  "shell_path sandbox_shell dir = (if sandbox_shell then dir @ ''/bin/sh'' else ''/system/bin/sh'')"

definition child_env :: "bool \<Rightarrow> string \<Rightarrow> (string \<times> string) list" where
  "child_env hook_readable dir =
     [(''ANDROID_ROOT'', ''/system''),
      (''ANDROID_DATA'', dir @ ''/data''),
      (''PATH'', dir @ ''/bin:/system/bin:/system/xbin:/vendor/bin''),
      (''LD_LIBRARY_PATH'', dir @ ''/lib64:/system/lib64:/vendor/lib64'')]
     @ (if hook_readable then [(''LD_PRELOAD'', dir @ ''/lib64/libgsi_hook.so'')] else [])
     @ [(''GSI_SANDBOX_DIR'', dir),
        (''GSI_VIRTUAL_UID'', ''0''),
        (''GSI_VIRTUAL_GID'', ''0''),
        (''USER'', ''root''),
        (''USERNAME'', ''root''),
        (''ANDROID_PROPERTY_WORKSPACE'', dir @ ''/dev/__properties_text__''),
        (''TMPDIR'', dir @ ''/tmp''),
        (''HOME'', dir @ ''/data'')]"

definition child_argv :: "string \<Rightarrow> string \<Rightarrow> string list" where
  "child_argv shell command = [shell, ''-c'', command]"

text \<open>What \<^verbatim>\<open>execve\<close> gets in the child, which inherits \<open>environ\<close>.\<close>

record child =
  chPath :: string
  chArgv :: "string list"
  chEnviron :: "string \<Rightarrow> string option"
  chCwd :: string

definition spawn_child :: "host \<Rightarrow> (string \<Rightarrow> string option) \<Rightarrow> string \<Rightarrow> string \<Rightarrow> child" where
  "spawn_child h environ command dir =
     (let shell = shell_path (may_execute h (dir @ ''/bin/sh'')) dir in
      \<lparr>chPath = shell, chArgv = child_argv shell command,
       chEnviron = environ ++ map_of (child_env (may_read h (dir @ ''/lib64/libgsi_hook.so'')) dir), chCwd = dir\<rparr>)"

section \<open>Start and end\<close>

text \<open>The signals sent are part of the result. A join returns when the thread has ended.\<close>

definition terminate :: "spawner \<Rightarrow> (int \<times> nat) list \<times> spawner" where
  "terminate s =
     (let sig = (if spPid s > 0 then [(spPid s, 15), (spPid s, 9)] else []);
          s = (if spPid s > 0 then s\<lparr>spPid := -1\<rparr> else s)
      in (sig, cleanupPipes (s\<lparr>spRunning := False, spJoinable := False\<rparr>)))"

definition parent_started :: "int \<Rightarrow> spawner \<Rightarrow> spawner" where
  "parent_started pid s =
     (let s = s\<lparr>spPid := pid, spRunning := True, spExitCode := 0\<rparr>;
          s = (close_fd (fst (spStdin s)) s)\<lparr>spStdin := (-1, snd (spStdin s))\<rparr>;
          s = (close_fd (snd (spStdout s)) s)\<lparr>spStdout := (fst (spStdout s), -1)\<rparr>;
          s = (close_fd (snd (spStderr s)) s)\<lparr>spStderr := (fst (spStderr s), -1)\<rparr>
      in s\<lparr>spJoinable := True\<rparr>)"

definition execute_command ::
  "(int \<times> int) option \<Rightarrow> (int \<times> int) option \<Rightarrow> (int \<times> int) option \<Rightarrow> int \<Rightarrow> spawner \<Rightarrow> bool \<times> spawner" where
  "execute_command p0 p1 p2 pid s =
     (let s = (if spRunning s then snd (terminate s) else s);
          (ok, s) = create_pipes p0 p1 p2 s
      in if \<not> ok then (False, cleanupPipes s)
         else if pid < 0 then (False, cleanupPipes s)
         else (True, parent_started pid s))"

section \<open>Collecting the output\<close>

text \<open>
  One round of the loop: whether \<^verbatim>\<open>poll\<close> reported something, the bytes read from the two
  pipes, whether both hung up, and the answer of \<^verbatim>\<open>waitpid\<close>.
\<close>

record io_round =
  irPolled :: bool
  irOut :: string
  irErr :: string
  irHungUp :: bool
  irWait :: "wait_status option"

fun status_code :: "wait_status \<Rightarrow> int \<Rightarrow> int" where
  "status_code (Exited n) old = int n"
| "status_code (Signaled n) old = 128 + int n"
| "status_code Stopped old = old"

definition append_output :: "string \<Rightarrow> spawner \<Rightarrow> spawner" where
  "append_output x s = s\<lparr>spOutput := spOutput s @ x\<rparr>"

fun io_rounds :: "io_round list \<Rightarrow> spawner \<Rightarrow> spawner" where
  "io_rounds [] s = s"
| "io_rounds (r # rs) s =
     (if \<not> spRunning s then s
      else
        let s = (if irPolled r then append_output (irOut r @ irErr r) s else s) in
        if irPolled r \<and> irHungUp r then s
        else if spPid s > 0 then
          (case irWait r of
             Some st \<Rightarrow> s\<lparr>spExitCode := status_code st (spExitCode s)\<rparr>
           | None \<Rightarrow> io_rounds rs s)
        else io_rounds rs s)"

definition ioLoop :: "io_round list \<Rightarrow> string list \<Rightarrow> string list \<Rightarrow> spawner \<Rightarrow> spawner" where
  "ioLoop rs rest_out rest_err s =
     (let s = io_rounds rs s;
          s = (if fst (spStdout s) \<noteq> -1 then append_output (concat rest_out) s else s);
          s = (if fst (spStderr s) \<noteq> -1 then append_output (concat rest_err) s else s)
      in s\<lparr>spRunning := False\<rparr>)"

definition pollOutput :: "spawner \<Rightarrow> string \<times> spawner" where
  "pollOutput s = (spOutput s, s\<lparr>spOutput := []\<rparr>)"

definition sendInput :: "nat option \<Rightarrow> string \<Rightarrow> spawner \<Rightarrow> bool" where
  "sendInput written input s =
     (if snd (spStdin s) = -1 \<or> \<not> spRunning s then False else written = Some (length input))"

definition spawner_isRunning :: "wait_status option \<Rightarrow> spawner \<Rightarrow> bool \<times> spawner" where
  "spawner_isRunning wt s =
     (if \<not> spRunning s then (False, s)
      else if spPid s \<le> 0 then (False, s)
      else case wt of
        Some st \<Rightarrow> (False, s\<lparr>spRunning := False, spExitCode := (case st of Exited n \<Rightarrow> int n | _ \<Rightarrow> spExitCode s)\<rparr>)
      | None \<Rightarrow> (True, s))"

definition getExitCode :: "spawner \<Rightarrow> int" where
  "getExitCode s = spExitCode s"

section \<open>Correctness\<close>

text \<open>What ends the loop: the end of the child or the hang-up of both pipes, whichever a round shows first.\<close>

fun loop_end :: "io_round list \<Rightarrow> wait_status option" where
  "loop_end [] = None"
| "loop_end (r # rs) = (if irPolled r \<and> irHungUp r then None else case irWait r of Some st \<Rightarrow> Some st | None \<Rightarrow> loop_end rs)"

lemma append_output_simps [simp]:
  "spRunning (append_output x s) = spRunning s" "spPid (append_output x s) = spPid s"
  "spExitCode (append_output x s) = spExitCode s" "spStdout (append_output x s) = spStdout s"
  "spStderr (append_output x s) = spStderr s" "spOutput (append_output x s) = spOutput s @ x"
  by (simp_all add: append_output_def)

lemma io_rounds_exit:
  "spRunning s \<Longrightarrow> spPid s > 0 \<Longrightarrow>
   spExitCode (io_rounds rs s) = (case loop_end rs of Some st \<Rightarrow> status_code st (spExitCode s) | None \<Rightarrow> spExitCode s)"
  by (induction rs arbitrary: s) (simp_all add: Let_def split: option.splits)

lemma ioLoop_exit [simp]: "spExitCode (ioLoop rs xs ys s) = spExitCode (io_rounds rs s)"
  by (simp add: ioLoop_def Let_def)

lemma close_fd_simps [simp]:
  "spRunning (close_fd fd s) = spRunning s" "spPid (close_fd fd s) = spPid s" "spExitCode (close_fd fd s) = spExitCode s"
  "spOutput (close_fd fd s) = spOutput s" "spStdin (close_fd fd s) = spStdin s" "spStdout (close_fd fd s) = spStdout s"
  "spStderr (close_fd fd s) = spStderr s"
  by (simp_all add: close_fd_def)

lemma parent_started_simps:
  "spRunning (parent_started pid s)" "spPid (parent_started pid s) = pid" "spExitCode (parent_started pid s) = 0"
  by (simp_all add: parent_started_def Let_def)

lemma execute_running:
  assumes "execute_command p0 p1 p2 pid s = (True, s')"
  shows "spRunning s' \<and> spPid s' = pid \<and> spExitCode s' = 0"
proof -
  obtain t where "s' = parent_started pid t"
    using assms unfolding execute_command_def Let_def case_prod_beta by (auto split: if_splits)
  then show ?thesis
    by (simp add: parent_started_simps)
qed

text \<open>The exit code of a started command is that of its end only when a round of the reader sees the end
  before both pipes hang up; when the hang-up comes first, as when the child closes its pipes by
  exiting, the code stays 0, whatever the command returned.\<close>

lemma exit_code_needs_wait:
  assumes "execute_command p0 p1 p2 pid s = (True, s')" "pid > 0"
  shows "getExitCode (ioLoop rs rest_out rest_err s') =
    (case loop_end rs of Some st \<Rightarrow> status_code st 0 | None \<Rightarrow> 0)"
  using execute_running [OF assms(1)] assms(2) io_rounds_exit [of s' rs]
  by (auto simp: getExitCode_def split: option.splits)

definition demo_round :: "bool \<Rightarrow> wait_status option \<Rightarrow> io_round" where
  "demo_round hup wt = \<lparr>irPolled = hup, irOut = [], irErr = [], irHungUp = hup, irWait = wt\<rparr>"

definition demo_start :: "spawner \<Rightarrow> bool \<times> spawner" where
  "demo_start s = execute_command (Some (3, 4)) (Some (5, 6)) (Some (7, 8)) 42 s"

lemma exit_code_needs_wait_witness:
  "getExitCode (ioLoop [demo_round True (Some (Exited 1))] [] [] (snd (demo_start spawner_new))) = 0
   \<and> getExitCode (ioLoop [demo_round False (Some (Exited 1))] [] [] (snd (demo_start spawner_new))) = 1"
proof -
  have "fst (demo_start spawner_new)"
    by code_simp
  then have s: "execute_command (Some (3, 4)) (Some (5, 6)) (Some (7, 8)) 42 spawner_new = (True, snd (demo_start spawner_new))"
    unfolding demo_start_def [symmetric] by (cases "demo_start spawner_new") simp
  show ?thesis
    using exit_code_needs_wait [OF s, of "[demo_round True (Some (Exited 1))]" "[]" "[]"]
      exit_code_needs_wait [OF s, of "[demo_round False (Some (Exited 1))]" "[]" "[]"]
    by (simp add: demo_round_def)
qed

text \<open>The output is everything that was read, in the order of the reads.\<close>

fun round_outputs :: "io_round list \<Rightarrow> string" where
  "round_outputs [] = []"
| "round_outputs (r # rs) =
     (if irPolled r then irOut r @ irErr r else [])
     @ (if irPolled r \<and> irHungUp r \<or> irWait r \<noteq> None then [] else round_outputs rs)"

lemma io_rounds_output:
  "spRunning s \<Longrightarrow> spPid s > 0 \<Longrightarrow> spOutput (io_rounds rs s) = spOutput s @ round_outputs rs
   \<and> spStdout (io_rounds rs s) = spStdout s \<and> spStderr (io_rounds rs s) = spStderr s"
  by (induction rs arbitrary: s) (simp_all add: Let_def split: option.splits)

lemma ioLoop_output:
  assumes "spRunning s" "spPid s > 0" "fst (spStdout s) \<noteq> -1" "fst (spStderr s) \<noteq> -1"
  shows "spOutput (ioLoop rs xs ys s) = spOutput s @ round_outputs rs @ concat xs @ concat ys"
  using io_rounds_output [OF assms(1,2), of rs] assms(3,4) by (simp add: ioLoop_def Let_def)

text \<open>
  The loop leaves the number of the ended child in place, so a later \<^verbatim>\<open>terminate\<close> sends its
  signals to a process that is no longer the child.
\<close>

lemma terminate_signals_reaped:
  assumes "spRunning s" "spPid s > 0"
  shows "fst (terminate (ioLoop rs xs ys s)) = [(spPid s, 15), (spPid s, 9)]"
proof -
  have "spPid (io_rounds rs s) = spPid s"
    by (induction rs arbitrary: s) (auto simp: Let_def split: option.splits)
  then show ?thesis
    using assms(2) by (simp add: terminate_def ioLoop_def Let_def)
qed

text \<open>A command that starts after another has ended by itself leaves the old pipe ends open for good.\<close>

lemma restart_leaks_pipes:
  "set (spOpen (snd (terminate (snd (execute_command (Some (9, 10)) (Some (11, 12)) (Some (13, 14)) 43
     (ioLoop [demo_round True None] [] [] (snd (demo_start spawner_new)))))))) = {4, 5, 7}"
  by code_simp

end
