(* ===== verification/Init_Runner.thy ===== *)
theory Init_Runner
  imports Boot_Manager Process_Spawner
begin

text \<open>
  The test suite of \<^verbatim>\<open>init_runner.cpp\<close>: seven checks of the sandbox, the property service,
  the image, the process spawner and the boot manager, and the report on them. The boot manager's
  state holds the property service and the host. \<^verbatim>\<open>access\<close> asks for the owner's bit in the
  mode of the node; the results of the spawner's system calls are parameters.
\<close>

record TestCaseResult =
  tcName :: string
  tcPassed :: bool
  tcDetails :: string

record TestSuiteReport =
  trTotal :: int
  trPassed :: int
  trResults :: "TestCaseResult list"
  trSummary :: string

section \<open>The checks\<close>

definition requiredDirs :: "string \<Rightarrow> string list" where
  "requiredDirs dir = map (\<lambda>d. dir @ d) [''/system'', ''/data'', ''/proc'', ''/sys'', ''/dev'', ''/tmp'']"

definition testSandboxHierarchy :: "string \<Rightarrow> host \<Rightarrow> TestCaseResult" where
  "testSandboxHierarchy dir h =
     (let existing = length (filter (\<lambda>d. is_dir (hNodes h d)) (requiredDirs dir)) in
      \<lparr>tcName = ''Sandbox Filesystem Isolation'', tcPassed = (existing = length (requiredDirs dir)),
       tcDetails = dec existing @ ''/'' @ dec (length (requiredDirs dir))
         @ '' core sandbox mounts present (zero-root untrusted sandbox)''\<rparr>)"

definition testHookLibrary :: "string \<Rightarrow> host \<Rightarrow> TestCaseResult" where
  "testHookLibrary dir h =
     (let found = may_read h (dir @ ''/lib64/libgsi_hook.so'') \<or> may_read h (dir @ ''/lib/libgsi_hook.so'') in
      \<lparr>tcName = ''LD_PRELOAD Syscall Hook Engine'', tcPassed = found,
       tcDetails = (if found then ''libgsi_hook.so deployed (Binder, SELinux, Root spoofing armed)''
                    else ''Hook library not found in sandbox library search path'')\<rparr>)"

definition availability :: "bool \<Rightarrow> string" where
  "availability b = (if b then ''AVAILABLE (0755)'' else ''NOT EXTRACTED'')"

definition testExtractedBinaries :: "string \<Rightarrow> host \<Rightarrow> TestCaseResult" where
  "testExtractedBinaries dir h =
     (let hasToybox = may_execute h (dir @ ''/system/bin/toybox'') \<or> may_execute h (dir @ ''/bin/toybox'');
          hasSh = may_execute h (dir @ ''/system/bin/sh'') \<or> may_execute h (dir @ ''/bin/sh'')
      in \<lparr>tcName = ''Guest Executable Binaries'', tcPassed = (hasToybox \<or> hasSh),
          tcDetails = ''toybox: '' @ availability hasToybox @ '', sh: '' @ availability hasSh\<rparr>)"

definition testPropertyService :: "boot \<Rightarrow> TestCaseResult \<times> boot" where
  "testPropertyService b =
     (let b = boot_setprop b ''test.gsi.runner'' ''active_ok'';
          val = getProperty (bmProps b) ''test.gsi.runner'' [];
          cnt = getPropertyCount (bmProps b)
      in (\<lparr>tcName = ''Android Property Service Daemon'', tcPassed = (val = ''active_ok'' \<and> cnt > 0),
           tcDetails = ''Property socket operational, '' @ dec cnt
             @ '' system properties cached and synchronized''\<rparr>, b))"

definition testVirtualVfs :: "bool \<Rightarrow> TestCaseResult" where
  "testVirtualVfs hasExt4Vfs =
     \<lparr>tcName = ''User-Space EXT4 / Sparse VFS'', tcPassed = hasExt4Vfs,
      tcDetails = (if hasExt4Vfs then ''EXT4 image superblock & inode tree mounted in memory''
                   else ''No GSI image currently loaded (click '' @ [CHR 0x27] @ ''Open GSI Image'' @ [CHR 0x27] @ '')'')\<rparr>"

text \<open>What the spawner's system calls return: three pipes and the process id.\<close>

type_synonym spawn_net = "(int \<times> int) option \<times> (int \<times> int) option \<times> (int \<times> int) option \<times> int"

definition testCommandExecution :: "spawn_net \<Rightarrow> spawner \<Rightarrow> TestCaseResult \<times> spawner" where
  "testCommandExecution net s =
     (let (p0, p1, p2, pid) = net; (spawned, s) = execute_command p0 p1 p2 pid s
      in (\<lparr>tcName = ''Process Spawner & Root Spoofing'', tcPassed = spawned,
           tcDetails = (if spawned then ''Pipes initialized, sub-process spawned in sandbox with LD_PRELOAD''
                        else ''Failed to spawn sandbox sub-process'')\<rparr>, s))"

definition testInitServices :: "boot \<Rightarrow> TestCaseResult" where
  "testInitServices b =
     (let cnt = getServicesCount b; phase = getPhaseString (bmPhase b) in
      \<lparr>tcName = ''Android Init Supervisor & Services'', tcPassed = (cnt > 0 \<or> phase \<noteq> ''UNKNOWN''),
       tcDetails = dec cnt @ '' init.rc services registered | Current Phase: '' @ phase\<rparr>)"

section \<open>The report\<close>

fun report_cases :: "nat \<Rightarrow> TestCaseResult list \<Rightarrow> int \<times> string" where
  "report_cases i [] = (0, [])"
| "report_cases i (r # rs) =
     (let (n, text) = report_cases (i + 1) rs;
          line = oline ((if tcPassed r then ''[PASS] '' else ''[FAIL] '') @ dec (i + 1) @ ''. '' @ tcName r)
                 @ oline (''       -> '' @ tcDetails r)
      in (n + (if tcPassed r then 1 else 0), line @ text))"

definition report_summary :: "int \<Rightarrow> int \<Rightarrow> string \<Rightarrow> string" where
  "report_summary passed cnt text =
     oline ''========================================================''
     @ oline ''      GSI RUNTIME ENGINE - REAL EXECUTION TEST SUITE    ''
     @ oline ''========================================================''
     @ oline []
     @ text
     @ oline []
     @ oline ''--------------------------------------------------------''
     @ oline (''Result: '' @ dec_int passed @ ''/'' @ dec_int cnt @ '' Tests Passed (''
         @ fixed1 (nat (100 * passed)) (nat cnt) @ ''% Ready)'')
     @ oline (''Status: '' @ (if passed \<ge> 5 then ''GSI READY FOR EXECUTION'' else ''PREPARATION REQUIRED''))
     @ ''========================================================''"

definition runGsiTestSuite :: "spawn_net \<Rightarrow> string \<Rightarrow> bool \<Rightarrow> boot \<Rightarrow> spawner \<Rightarrow> TestSuiteReport \<times> boot \<times> spawner" where
  "runGsiTestSuite net dir hasExt4Vfs b s =
     (let t1 = testSandboxHierarchy dir (bmHost b);
          t2 = testHookLibrary dir (bmHost b);
          t3 = testExtractedBinaries dir (bmHost b);
          (t4, b) = testPropertyService b;
          t5 = testVirtualVfs hasExt4Vfs;
          (t6, s) = testCommandExecution net s;
          t7 = testInitServices b;
          results = [t1, t2, t3, t4, t5, t6, t7];
          cnt = int (length results);
          (passed, text) = report_cases 0 results
      in (\<lparr>trTotal = cnt, trPassed = passed, trResults = results, trSummary = report_summary passed cnt text\<rparr>, b, s))"

section \<open>What the report says\<close>

lemma report_cases_count: "fst (report_cases i rs) = int (length (filter tcPassed rs))"
  by (induction rs arbitrary: i) (simp_all add: Let_def case_prod_beta)

text \<open>
  Two of the seven checks cannot fail: the property that was just set reads back, and no phase of the
  boot is called \<^verbatim>\<open>UNKNOWN\<close>.
\<close>

lemma property_check_passes: "tcPassed (fst (testPropertyService b))"
proof -
  let ?b = "boot_setprop b ''test.gsi.runner'' ''active_ok''"
  have f: "find_prop (bmProps ?b) ''test.gsi.runner'' = Some ''active_ok''"
    by (simp add: boot_setprop_look)
  then have "psProperties (bmProps ?b) \<noteq> []"
    by (auto simp: find_prop_def)
  then show ?thesis
    using f by (simp add: testPropertyService_def Let_def getProperty_def getPropertyCount_def)
qed

lemma init_check_passes: "tcPassed (testInitServices b)"
  by (cases "bmPhase b") (simp_all add: testInitServices_def Let_def)

text \<open>The suite replaces the process that runs in the spawner, whatever it is.\<close>

lemma suite_replaces_process:
  assumes "pid > 0"
  shows "spPid (snd (snd (runGsiTestSuite (Some p0, Some p1, Some p2, pid) dir vfs b s))) = pid"
  using assms by (simp add: runGsiTestSuite_def testCommandExecution_def testPropertyService_def execute_command_def
      create_pipes_def parent_started_def open_pair_def close_fd_def Let_def split: prod.splits)

lemma suite_results:
  "trResults (fst (runGsiTestSuite net dir vfs b s)) =
     [testSandboxHierarchy dir (bmHost b), testHookLibrary dir (bmHost b), testExtractedBinaries dir (bmHost b),
      fst (testPropertyService b), testVirtualVfs vfs, fst (testCommandExecution net s),
      testInitServices (snd (testPropertyService b))]"
  "trPassed (fst (runGsiTestSuite net dir vfs b s)) =
     int (length (filter tcPassed (trResults (fst (runGsiTestSuite net dir vfs b s)))))"
proof -
  have "runGsiTestSuite net dir vfs b s =
    (let (t4, b') = testPropertyService b; (t6, s) = testCommandExecution net s;
         results = [testSandboxHierarchy dir (bmHost b), testHookLibrary dir (bmHost b), testExtractedBinaries dir (bmHost b),
           t4, testVirtualVfs vfs, t6, testInitServices b'];
         pt = report_cases 0 results
     in (\<lparr>trTotal = 7, trPassed = fst pt, trResults = results, trSummary = report_summary (fst pt) 7 (snd pt)\<rparr>, b', s))"
    by (simp add: runGsiTestSuite_def Let_def split: prod.splits)
  then show "trResults (fst (runGsiTestSuite net dir vfs b s)) =
     [testSandboxHierarchy dir (bmHost b), testHookLibrary dir (bmHost b), testExtractedBinaries dir (bmHost b),
      fst (testPropertyService b), testVirtualVfs vfs, fst (testCommandExecution net s),
      testInitServices (snd (testPropertyService b))]"
    and "trPassed (fst (runGsiTestSuite net dir vfs b s)) =
     int (length (filter tcPassed (trResults (fst (runGsiTestSuite net dir vfs b s)))))"
    by (simp_all add: Let_def report_cases_count del: report_cases.simps split: prod.splits)
qed

end
