(* ===== verification/Runtime.thy ===== *)
theory Runtime
  imports Init_Runner Extractor Virtual_Binder Logcat_Broker Audio_Bridge Battery_Bridge Sensor_Bridge
    Camera_Bridge Storage_Bridge Telephony_Bridge Bluetooth_Bridge Drm_Bridge Keystore_Bridge
    Gpu_Bridge Usb_Bridge Network_Bridge Display_Pipeline Input_Bridge
begin

text \<open>
  The state of the whole process: the globals of \<^verbatim>\<open>gsi_engine.cpp\<close> and the one object of every
  class with a \<^verbatim>\<open>getInstance\<close>. The property service and the host are in the boot manager's
  state, where its worker changes them. \<open>rtFds\<close> are the descriptors the entry points have opened and
  not closed. The floats of the sensors and the cameras have the type \<open>'f\<close>.
\<close>

record 'f runtime =
  rtBlockDev :: "iblockdev option"
  rtReader :: "reader option"
  rtFds :: "int list"
  rtBoot :: boot
  rtSandbox :: sandbox
  rtSpawner :: spawner
  rtBroker :: broker
  rtDisplay :: display
  rtVfb :: vfb
  rtInput :: input_bridge
  rtGralloc :: gralloc
  rtNetwork :: network
  rtLogcat :: logcat
  rtAudio :: audio
  rtBattery :: battery
  rtSensor :: "'f sensor"
  rtCamera :: "'f camera"
  rtStorage :: storage
  rtTelephony :: telephony
  rtBluetooth :: bluetooth
  rtDrm :: drm
  rtKeystore :: keystore
  rtGpu :: gpu
  rtUsb :: usb
  rtLiveLog :: string
  rtLiveActive :: bool

definition sandbox_new :: sandbox where
  "sandbox_new = \<lparr>sbBasePath = [], sbBinDir = [], sbLibDir = [], sbDataDir = [], sbTmpDir = []\<rparr>"

text \<open>A process that has just loaded the library, on a host with the files of \<open>h\<close>.\<close>

definition runtime_new :: "'f float_ops \<Rightarrow> host \<Rightarrow> 'f runtime" where
  "runtime_new F h =
     \<lparr>rtBlockDev = None, rtReader = None, rtFds = [], rtBoot = boot_init prop_service_init h,
      rtSandbox = sandbox_new, rtSpawner = spawner_new, rtBroker = broker_init, rtDisplay = display_new,
      rtVfb = vfb_new, rtInput = input_new, rtGralloc = gralloc_new, rtNetwork = network_new,
      rtLogcat = logcat_init, rtAudio = audio_new, rtBattery = battery_new, rtSensor = sensor_new F,
      rtCamera = camera_new (fDec F 0 0), rtStorage = storage_new, rtTelephony = telephony_new,
      rtBluetooth = bluetooth_new, rtDrm = drm_new, rtKeystore = keystore_new, rtGpu = gpu_new, rtUsb = usb_new,
      rtLiveLog = [], rtLiveActive = False\<rparr>"

definition rt_sys :: "'f runtime \<Rightarrow> sys" where
  "rt_sys rt = (bmProps (rtBoot rt), bmHost (rtBoot rt))"

definition set_sys :: "sys \<Rightarrow> 'f runtime \<Rightarrow> 'f runtime" where
  "set_sys sys rt = rt\<lparr>rtBoot := (rtBoot rt)\<lparr>bmProps := fst sys, bmHost := snd sys\<rparr>\<rparr>"

definition rt_host :: "'f runtime \<Rightarrow> host" where
  "rt_host rt = bmHost (rtBoot rt)"

definition set_host :: "host \<Rightarrow> 'f runtime \<Rightarrow> 'f runtime" where
  "set_host h rt = rt\<lparr>rtBoot := (rtBoot rt)\<lparr>bmHost := h\<rparr>\<rparr>"

section \<open>One component at a time\<close>

text \<open>
  A call of a component's operation reads the component, the property service and the host, and
  writes them back; the rest of the process stays as it is. An operation that ends the program ends it
  here as well.
\<close>

definition on_sys ::
  "('f runtime \<Rightarrow> 'c) \<Rightarrow> ('c \<Rightarrow> 'f runtime \<Rightarrow> 'f runtime) \<Rightarrow> ('c \<Rightarrow> sys \<Rightarrow> fault + (bool \<times> 'c \<times> sys))
     \<Rightarrow> 'f runtime \<Rightarrow> fault + (bool \<times> 'f runtime)" where
  "on_sys look store f rt =
     bnd (f (look rt) (rt_sys rt)) (\<lambda>(ok, c, sys). Inr (ok, store c (set_sys sys rt)))"

definition init_vfb :: "bool \<times> bool \<times> bool \<Rightarrow> u32 \<Rightarrow> u32 \<Rightarrow> string \<Rightarrow> 'f runtime \<Rightarrow> bool \<times> 'f runtime" where
  "init_vfb io width height dir rt =
     (let (ok, v) = initialize_vfb (fst io) (fst (snd io)) (snd (snd io)) (rtVfb rt) width height dir
      in (ok, rt\<lparr>rtVfb := v\<rparr>))"

definition init_gralloc :: "string \<Rightarrow> 'f runtime \<Rightarrow> bool \<times> 'f runtime" where
  "init_gralloc dir rt = (let (ok, g) = initialize_gralloc (rtGralloc rt) dir in (ok, rt\<lparr>rtGralloc := g\<rparr>))"

definition start_animation :: "'f runtime \<Rightarrow> 'f runtime" where
  "start_animation rt = rt\<lparr>rtGralloc := startBootAnimation (rtGralloc rt)\<rparr>"

text \<open>The default arguments are 48000 Hz and two channels; the initialization always succeeds.\<close>

definition init_audio :: "string \<Rightarrow> 'f runtime \<Rightarrow> bool \<times> 'f runtime" where
  "init_audio dir rt =
     (let (a, h) = initialize_audio (rtAudio rt) (rt_host rt) dir 48000 2 in (True, set_host h (rt\<lparr>rtAudio := a\<rparr>)))"

definition play_chime :: "'d float_ops \<Rightarrow> int \<Rightarrow> 'f runtime \<Rightarrow> fault + (bool \<times> 'f runtime)" where
  "play_chime D type rt = bnd (synthesizeChime D (rtAudio rt) type) (\<lambda>(ok, a). Inr (ok, rt\<lparr>rtAudio := a\<rparr>))"

definition init_battery :: "string \<Rightarrow> 'f runtime \<Rightarrow> fault + (bool \<times> 'f runtime)" where
  "init_battery dir = on_sys rtBattery (\<lambda>c rt. rt\<lparr>rtBattery := c\<rparr>) (\<lambda>c sys. initialize_battery c sys dir)"

text \<open>\<open>io\<close> says whether the pipe was made and opened, \<open>now\<close> is the monotonic clock.\<close>

definition init_sensors :: "'f float_ops \<Rightarrow> bool \<times> bool \<Rightarrow> u64 \<Rightarrow> string \<Rightarrow> 'f runtime \<Rightarrow> fault + (bool \<times> 'f runtime)" where
  "init_sensors F io now dir =
     on_sys rtSensor (\<lambda>c rt. rt\<lparr>rtSensor := c\<rparr>) (\<lambda>c sys. initialize_sensor F (fst io) (snd io) now c sys dir)"

definition init_camera :: "string \<Rightarrow> 'f runtime \<Rightarrow> fault + (bool \<times> 'f runtime)" where
  "init_camera dir = on_sys rtCamera (\<lambda>c rt. rt\<lparr>rtCamera := c\<rparr>) (\<lambda>c sys. initialize_camera c sys dir)"

definition init_storage :: "nat \<Rightarrow> listing \<Rightarrow> string \<Rightarrow> 'f runtime \<Rightarrow> fault + (bool \<times> 'f runtime)" where
  "init_storage stk ls dir =
     on_sys rtStorage (\<lambda>c rt. rt\<lparr>rtStorage := c\<rparr>) (\<lambda>c sys. initialize_storage stk ls c sys dir)"

definition storage_samples :: "nat \<Rightarrow> listing \<Rightarrow> 'f runtime \<Rightarrow> fault + (bool \<times> 'f runtime)" where
  "storage_samples stk ls rt =
     bnd (generateSampleFiles stk ls (rtStorage rt) (rt_sys rt)) (\<lambda>(ok, sys). Inr (ok, set_sys sys rt))"

definition init_telephony :: "string \<Rightarrow> 'f runtime \<Rightarrow> fault + (bool \<times> 'f runtime)" where
  "init_telephony dir = on_sys rtTelephony (\<lambda>c rt. rt\<lparr>rtTelephony := c\<rparr>) (\<lambda>c sys. initialize_telephony c sys dir)"

definition init_bluetooth :: "string \<Rightarrow> 'f runtime \<Rightarrow> fault + (bool \<times> 'f runtime)" where
  "init_bluetooth dir = on_sys rtBluetooth (\<lambda>c rt. rt\<lparr>rtBluetooth := c\<rparr>) (\<lambda>c sys. initialize_bluetooth c sys dir)"

definition init_drm :: "string \<Rightarrow> 'f runtime \<Rightarrow> fault + (bool \<times> 'f runtime)" where
  "init_drm dir = on_sys rtDrm (\<lambda>c rt. rt\<lparr>rtDrm := c\<rparr>) (\<lambda>c sys. Inr (initialize_drm c sys dir))"

text \<open>\<open>now\<close> is the clock the creation times of keys and templates are read from.\<close>

definition init_keystore :: "u64 \<Rightarrow> string \<Rightarrow> 'f runtime \<Rightarrow> fault + (bool \<times> 'f runtime)" where
  "init_keystore now dir =
     on_sys rtKeystore (\<lambda>c rt. rt\<lparr>rtKeystore := c\<rparr>) (\<lambda>c sys. Inr (initialize_keystore now c sys dir))"

definition init_gpu :: "string \<Rightarrow> 'f runtime \<Rightarrow> fault + (bool \<times> 'f runtime)" where
  "init_gpu dir = on_sys rtGpu (\<lambda>c rt. rt\<lparr>rtGpu := c\<rparr>) (\<lambda>c sys. Inr (initialize_gpu c sys dir))"

definition init_usb :: "bool \<Rightarrow> string \<Rightarrow> int \<Rightarrow> 'f runtime \<Rightarrow> fault + (bool \<times> 'f runtime)" where
  "init_usb socket_ok dir port =
     on_sys rtUsb (\<lambda>c rt. rt\<lparr>rtUsb := c\<rparr>) (\<lambda>c sys. Inr (initialize_usb socket_ok c sys dir port))"

definition rt_setprop :: "string \<Rightarrow> string \<Rightarrow> 'f runtime \<Rightarrow> 'f runtime" where
  "rt_setprop k v rt = rt\<lparr>rtBoot := boot_setprop (rtBoot rt) k v\<rparr>"

end
