(* ===== verification/Live_Boot.thy ===== *)
theory Live_Boot
  imports Runtime
begin

text \<open>
  The direct live boot of \<^verbatim>\<open>live_boot_runner.cpp\<close>: from an image to a process with every
  component initialised and a boot sequence started. No log callback is installed anywhere in the
  program. The results of system calls are the fields of \<open>live_env\<close>; its last field is the number of
  phases the boot manager's worker has finished when the boot stops waiting for it.
\<close>

record live_env =
  lvPropIo :: "bool \<times> bool \<times> bool"
  lvMegabytes :: "u64 \<Rightarrow> string"
  lvVfbIo :: "bool \<times> bool \<times> bool"
  lvPipeIo :: "bool \<times> bool"
  lvMonotonic :: u64
  lvNow :: u64
  lvListing :: listing
  lvAdbSocket :: bool
  lvBootIo :: "bool \<times> bool \<times> bool"
  lvPhases :: nat

record LiveBootResult =
  lbSuccess :: bool
  lbOsVersion :: string
  lbSdkVersion :: string
  lbBuildId :: string
  lbModel :: string
  lbTotalServices :: nat
  lbTotalProperties :: nat
  lbBootLog :: string

definition live_failed :: LiveBootResult where
  "live_failed = \<lparr>lbSuccess = False, lbOsVersion = [], lbSdkVersion = [], lbBuildId = [], lbModel = [],
     lbTotalServices = 0, lbTotalProperties = 0, lbBootLog = []\<rparr>"

section \<open>The log\<close>

definition live_appendLog :: "string \<Rightarrow> 'f runtime \<Rightarrow> 'f runtime" where
  "live_appendLog line rt = rt\<lparr>rtLiveLog := rtLiveLog rt @ line @ [nl]\<rparr>"

definition live_lines :: "string list \<Rightarrow> 'f runtime \<Rightarrow> 'f runtime" where
  "live_lines ls rt = foldl (\<lambda>rt l. live_appendLog l rt) rt ls"

definition getLastBootLog :: "'f runtime \<Rightarrow> string" where
  "getLastBootLog rt = rtLiveLog rt"

definition isBootActive :: "'f runtime \<Rightarrow> bool" where
  "isBootActive rt = rtLiveActive rt"

section \<open>Steps one to three\<close>

definition open_device :: "fd \<Rightarrow> fault + (string \<times> iblockdev) option" where
  "open_device f =
     (case sparse_create f of
        Some d \<Rightarrow> Inr (Some (''  -> Format: Android Sparse Image (Decompressing chunks on-the-fly)'', sparse_iface d))
      | None \<Rightarrow>
          bnd (verifyFileDescriptor (Some f)) (\<lambda>ver.
            if viIsValid ver \<and> viFormat ver = RAW_EXT4
            then Inr (Some (''  -> Format: Raw EXT4 Image ('' @ dec_word (viUncompressedSizeBytes ver div (1024 * 1024))
                   @ '' MB, BlockSize: '' @ dec_word (viBlockSize ver) @ '')'',
                 raw_iface \<lparr>rFd = f, rBlockSize = viBlockSize ver, rTotalBlocks = viTotalBlocks ver\<rparr>))
            else Inr None))"

definition live_props :: "(string \<times> string) list" where
  "live_props =
     [(''ro.debuggable'', ''1''), (''ro.secure'', ''0''), (''ro.adb.secure'', ''0''),
      (''persist.sys.usb.config'', ''adb''), (''sys.usb.state'', ''adb''),
      (''service.adb.tcp.port'', ''5555''), (''sys.boot_completed'', ''0''), (''service.bootanim.exit'', ''0'')]"

definition rt_setprops :: "(string \<times> string) list \<Rightarrow> 'f runtime \<Rightarrow> 'f runtime" where
  "rt_setprops kvs rt = foldl (\<lambda>rt (k, v). rt_setprop k v rt) rt kvs"

definition build_prop_lines :: "BuildPropInfo \<Rightarrow> string list" where
  "build_prop_lines bp =
     [''  -> OS Version: Android '' @ bpOsVersion bp @ '' (API '' @ bpSdkVersion bp @ '')'',
      ''  -> Build ID: '' @ bpBuildId bp,
      ''  -> Security Patch: '' @ bpSecurityPatch bp,
      ''  -> Treble Enabled: '' @ (if bpIsTrebleEnabled bp then ''TRUE'' else ''FALSE'')]"

definition live_properties :: "live_env \<Rightarrow> string \<Rightarrow> BuildPropInfo \<Rightarrow> 'f runtime \<Rightarrow> 'f runtime" where
  "live_properties env dir bp rt =
     (let io = lvPropIo env;
          (ok, s, h) = start_service (fst io) (fst (snd io)) (snd (snd io)) (fst (rt_sys rt)) (rt_host rt) dir;
          rt = set_sys (s, h) rt;
          rt = (if bpRawContent bp \<noteq> [] then set_sys (loadFromBuildProp (fst (rt_sys rt)) (rt_host rt) (bpRawContent bp)) rt
                else rt);
          rt = rt_setprops live_props rt
      in live_appendLog (''  -> Property Service synchronized: '' @ dec (getPropertyCount (fst (rt_sys rt)))
           @ '' properties active.'') rt)"

section \<open>Steps four and five\<close>

definition live_extract :: "live_env \<Rightarrow> reader \<Rightarrow> nat \<Rightarrow> string \<Rightarrow> 'f runtime \<Rightarrow> fault + 'f runtime" where
  "live_extract env r stk dir rt =
     bnd (extractEssentialSystem (lvMegabytes env) r stk False dir (rt_host rt)) (\<lambda>(res, h, tr).
       Inr (live_appendLog (''  -> '' @ exSummary res) (set_host h rt)))"

definition live_hals ::
  "'f float_ops \<Rightarrow> 'd float_ops \<Rightarrow> live_env \<Rightarrow> nat \<Rightarrow> string \<Rightarrow> 'f runtime \<Rightarrow> fault + 'f runtime" where
  "live_hals F D env stk dir rt =
     (let rt = snd (init_vfb (lvVfbIo env) 720 1280 dir rt);
          rt = snd (init_gralloc dir rt);
          rt = start_animation rt;
          rt = snd (init_audio dir rt)
      in bnd (play_chime D 1 rt) (\<lambda>(ok, rt).
         bnd (init_battery dir rt) (\<lambda>(ok, rt).
         bnd (init_sensors F (lvPipeIo env) (lvMonotonic env) dir rt) (\<lambda>(ok, rt).
         bnd (init_camera dir rt) (\<lambda>(ok, rt).
         bnd (init_storage stk (lvListing env) dir rt) (\<lambda>(ok, rt).
         bnd (storage_samples stk (lvListing env) rt) (\<lambda>(ok, rt).
         bnd (init_telephony dir rt) (\<lambda>(ok, rt).
         bnd (init_bluetooth dir rt) (\<lambda>(ok, rt).
         bnd (init_drm dir rt) (\<lambda>(ok, rt).
         bnd (init_keystore (lvNow env) dir rt) (\<lambda>(ok, rt).
         bnd (init_gpu dir rt) (\<lambda>(ok, rt).
         bnd (init_usb (lvAdbSocket env) dir 5555 rt) (\<lambda>(ok, rt). Inr rt)))))))))))))"

definition hal_lines :: "string list" where
  "hal_lines =
     [''  -> Display & GPU: 60 FPS Boot Splash Compositor & OpenGL ES 3.2 ACTIVE'',
      ''  -> Audio HAL: 48kHz Stereo 16-bit PCM & Cyber Boot Chime STREAMING'',
      ''  -> Hardware Subsystems: Battery, Sensors, Camera, Storage, RIL 5G, BT 5.2, DRM, KeyMint, ADB ONLINE'']"

section \<open>Step six\<close>

text \<open>
  The worker's state after it has finished \<open>k\<close> of its four phases. When a boot is already running
  the start leaves it to its own worker.
\<close>

definition worker_after :: "bool \<times> bool \<times> bool \<Rightarrow> nat \<Rightarrow> string \<Rightarrow> boot \<Rightarrow> boot" where
  "worker_after net k dir b = (if k = 0 then b else bootWorker net (k \<ge> 2) (k \<ge> 3) (k \<ge> 4) dir b)"

definition live_start :: "live_env \<Rightarrow> string \<Rightarrow> boot \<Rightarrow> boot" where
  "live_start env dir b =
     (if bmIsBooting b then startBootSequence b
      else worker_after (lvBootIo env) (lvPhases env) dir (startBootSequence b))"

definition final_props :: "(string \<times> string) list" where
  "final_props = [(''sys.boot_completed'', ''1''), (''service.bootanim.exit'', ''1''), (''dev.bootcomplete'', ''1'')]"

definition final_lines :: "string list" where
  "final_lines =
     [[nl] @ ''==============================================================='',
      ''  '' @ [CHR 0xF0, CHR 0x9F, CHR 0x8E, CHR 0x89] @ '' DIRECT LIVE BOOT COMPLETED: GSI SYSTEM IS FULLY ACTIVE!   '',
      ''  -> Status: sys.boot_completed=1                              '',
      ''  -> Android Framework & Supervised Daemons ONLINE              '',
      ''==============================================================='']"

definition live_fail :: "string \<Rightarrow> 'f runtime \<Rightarrow> fault + (LiveBootResult \<times> 'f runtime)" where
  "live_fail msg rt =
     (let rt = (live_appendLog msg rt)\<lparr>rtLiveActive := False\<rparr>
      in Inr (live_failed\<lparr>lbBootLog := getLastBootLog rt\<rparr>, rt))"

definition live_supervise ::
  "live_env \<Rightarrow> nat \<Rightarrow> reader \<Rightarrow> string \<Rightarrow> BuildPropInfo \<Rightarrow> nat \<Rightarrow> 'f runtime \<Rightarrow> fault + (LiveBootResult \<times> 'f runtime)" where
  "live_supervise env stk r dir bp cnt rt =
     (let rt = live_lines (hal_lines @ [''[Step 6/6] Executing Android Init Supervisor & Service Class Launch...'']) rt
      in bnd (loadInitFromVfs r stk (rtBoot rt)) (\<lambda>(n, b).
         let rt = live_appendLog (''  -> Loaded '' @ dec n @ '' init services from VFS init.rc scripts.'')
                    (rt\<lparr>rtBoot := b\<rparr>);
             rt = rt\<lparr>rtBoot := live_start env dir (rtBoot rt)\<rparr>;
             rt = live_lines final_lines (rt_setprops final_props rt);
             rt = rt\<lparr>rtLiveActive := False\<rparr>
         in Inr (\<lparr>lbSuccess = True, lbOsVersion = bpOsVersion bp, lbSdkVersion = bpSdkVersion bp,
              lbBuildId = bpBuildId bp, lbModel = bpModel bp, lbTotalServices = n, lbTotalProperties = cnt,
              lbBootLog = getLastBootLog rt\<rparr>, rt)))"

text \<open>What follows the mount of the image.\<close>

definition live_run ::
  "'f float_ops \<Rightarrow> 'd float_ops \<Rightarrow> live_env \<Rightarrow> nat \<Rightarrow> reader \<Rightarrow> string \<Rightarrow> 'f runtime \<Rightarrow> fault + (LiveBootResult \<times> 'f runtime)" where
  "live_run F D env stk r dir rt =
     (let rt = live_lines
            [''  -> Volume Name: '' @ (if mVolumeName r = [] then ''[system]'' else mVolumeName r),
             ''  -> EXT4 Superblock & Inode Extents Tree mounted successfully!'',
             ''[Step 3/6] Parsing /system/build.prop & Initializing Property Service...''] rt
      in bnd (extractBuildProp r stk) (\<lambda>bp.
         let rt = live_properties env dir bp (live_lines (build_prop_lines bp) rt);
             cnt = getPropertyCount (fst (rt_sys rt));
             rt = live_appendLog ''[Step 4/6] Provisioning Sandbox & Extracting Essential Binaries...'' rt
         in bnd (live_extract env r stk dir rt) (\<lambda>rt.
            bnd (live_hals F D env stk dir
                   (live_appendLog ''[Step 5/6] Activating All 14 Virtual HAL Subsystems...'' rt)) (\<lambda>rt.
            live_supervise env stk r dir bp cnt rt))))"

definition head_lines :: "string list" where
  "head_lines =
     [''==============================================================='',
      ''     CYBERGSI RUNTIME ENGINE - DIRECT LIVE BOOT ORCHESTRATOR   '',
      ''==============================================================='',
      ''[Step 1/6] Inspecting GSI Block Device Headers...'']"

definition bootFromFd ::
  "'f float_ops \<Rightarrow> 'd float_ops \<Rightarrow> live_env \<Rightarrow> nat \<Rightarrow> fd \<Rightarrow> string \<Rightarrow> 'f runtime \<Rightarrow> fault + (LiveBootResult \<times> 'f runtime)" where
  "bootFromFd F D env stk f dir rt =
     (let rt = live_lines head_lines (rt\<lparr>rtLiveActive := True, rtLiveLog := []\<rparr>)
      in bnd (open_device f) (\<lambda>d. case d of
           None \<Rightarrow> live_fail ''[FAIL] Block device unrecognized or corrupted.'' rt
         | Some (line, dev) \<Rightarrow>
             let rt = live_lines [line, ''[Step 2/6] Mounting User-Space EXT4 VFS in-memory...''] rt
             in bnd (ext4_open dev) (\<lambda>r. case r of
                  None \<Rightarrow> live_fail ''[FAIL] Failed to parse EXT4 superblock or root inode table.'' rt
                | Some r \<Rightarrow> live_run F D env stk r dir rt)))"

text \<open>\<open>opened\<close> is the result of \<^verbatim>\<open>open\<close>: the file, or the value of \<^verbatim>\<open>errno\<close>.\<close>

definition bootFromPath ::
  "'f float_ops \<Rightarrow> 'd float_ops \<Rightarrow> live_env \<Rightarrow> nat \<Rightarrow> int + fd \<Rightarrow> string \<Rightarrow> string \<Rightarrow> 'f runtime
     \<Rightarrow> fault + (LiveBootResult \<times> 'f runtime)" where
  "bootFromPath F D env stk opened p dir rt =
     (let rt = live_lines [''=== STARTING DIRECT LIVE BOOT FROM FILE PATH ==='', ''Target GSI Image: '' @ p] rt
      in case opened of
           Inl e \<Rightarrow>
             let rt = live_appendLog (''[ERROR] Failed to open image file: '' @ p @ '' (errno: '' @ dec_int e @ '')'') rt
             in Inr (live_failed\<lparr>lbBootLog := getLastBootLog rt\<rparr>, rt)
         | Inr f \<Rightarrow> bootFromFd F D env stk f dir rt)"

end
