(* ===== verification/Jni_Engine.thy ===== *)
theory Jni_Engine
  imports Live_Boot Hook_Engine
begin

text \<open>
  The entry points of \<^verbatim>\<open>gsi_engine.cpp\<close>, as functions on the state of the process. A Java string
  is given by the characters \<^verbatim>\<open>GetStringUTFChars\<close> returns, \<open>None\<close> where it returns null; an argument
  the code tests for null is \<open>None\<close> as well when it is null. The other arguments in front of
  the Java ones are the results of the system calls below. A returned string ends at its first zero
  byte. The mutex around the mounted file system makes each entry point one step.
\<close>

definition jchars :: "string \<Rightarrow> string option \<Rightarrow> string" where
  "jchars d j = (case j of Some s \<Rightarrow> s | None \<Rightarrow> d)"

definition newStringUTF :: "string \<Rightarrow> string" where
  "newStringUTF s = takeWhile (\<lambda>c. c \<noteq> nul) s"

definition jint_of_size :: "nat \<Rightarrow> int" where
  "jint_of_size n = sint (word_of_nat n :: u32)"

definition u32_of_jint :: "int \<Rightarrow> u32" where
  "u32_of_jint i = word_of_int i"

section \<open>Engine and surface\<close>

text \<open>\<open>abi\<close> is chosen by the preprocessor.\<close>

definition nativeGetEngineInfo :: "string \<Rightarrow> string" where
  "nativeGetEngineInfo abi =
     newStringUTF (''GSI Core Engine v1.7.0 [ABI: '' @ abi
       @ '' | Gralloc & Graphics Bridge | Init Boot Engine | Property Service | Privilege Spoofing | Virtual Binder | VFB & Touch | EXT4 VFS]'')"

definition nativeInit :: bool where
  "nativeInit = True"

definition nativeSetSurface :: "window option option \<Rightarrow> 'f runtime \<Rightarrow> 'f runtime" where
  "nativeSetSurface surface rt = rt\<lparr>rtDisplay := setSurface surface (rtDisplay rt)\<rparr>"

definition nativeClearSurface :: "'f runtime \<Rightarrow> 'f runtime" where
  "nativeClearSurface rt = rt\<lparr>rtDisplay := clearSurface (rtDisplay rt)\<rparr>"

section \<open>Image and file system\<close>

record GsiImageInfo =
  giIsValid :: bool
  giFormat :: string
  giBlockSize :: int
  giTotalBlocks :: int
  giUncompressedSize :: int
  giDescription :: string
  giVolumeName :: string

fun format_name :: "ImageFormat \<Rightarrow> string" where
  "format_name ANDROID_SPARSE = ''Android Sparse''"
| "format_name RAW_EXT4 = ''Raw EXT4''"
| "format_name IMAGE_UNKNOWN = ''Unknown''"

text \<open>\<open>cls\<close> says whether the Java class and its constructor are found.\<close>

definition nativeVerifyImageFd :: "bool \<Rightarrow> fd option \<Rightarrow> fault + GsiImageInfo option" where
  "nativeVerifyImageFd cls fdo =
     bnd (verifyFileDescriptor fdo) (\<lambda>res.
       if \<not> cls then Inr None
       else Inr (Some \<lparr>giIsValid = viIsValid res, giFormat = newStringUTF (format_name (viFormat res)),
              giBlockSize = uint (viBlockSize res), giTotalBlocks = sint (viTotalBlocks res),
              giUncompressedSize = sint (viUncompressedSizeBytes res),
              giDescription = newStringUTF (viDescription res), giVolumeName = newStringUTF (viVolumeName res)\<rparr>))"

definition unmounted :: "'f runtime \<Rightarrow> 'f runtime" where
  "unmounted rt = rt\<lparr>rtReader := None, rtBlockDev := None\<rparr>"

text \<open>The device of an image, or \<open>None\<close> when it is neither sparse nor raw EXT4.\<close>

definition fs_device :: "fd \<Rightarrow> fault + iblockdev option" where
  "fs_device f =
     (case sparse_create f of
        Some d \<Rightarrow> Inr (Some (sparse_iface d))
      | None \<Rightarrow>
          bnd (verifyFileDescriptor (Some f)) (\<lambda>ver.
            if viIsValid ver \<and> viFormat ver = RAW_EXT4
            then Inr (Some (raw_iface \<lparr>rFd = f, rBlockSize = viBlockSize ver, rTotalBlocks = viTotalBlocks ver\<rparr>))
            else Inr None))"

definition nativeOpenFilesystem :: "fd \<Rightarrow> 'f runtime \<Rightarrow> fault + (bool \<times> 'f runtime)" where
  "nativeOpenFilesystem f rt =
     (let rt = unmounted rt in
      bnd (fs_device f) (\<lambda>d. case d of
        None \<Rightarrow> Inr (False, rt)
      | Some dev \<Rightarrow>
          let rt = rt\<lparr>rtBlockDev := Some dev\<rparr> in
          bnd (ext4_open dev) (\<lambda>r. case r of
            None \<Rightarrow> Inr (False, rt\<lparr>rtBlockDev := None\<rparr>)
          | Some r \<Rightarrow> Inr (True, rt\<lparr>rtReader := Some r\<rparr>))))"

text \<open>\<open>opened\<close> is the descriptor and the file that \<^verbatim>\<open>open\<close> returns.\<close>

definition nativeOpenFilesystemPath ::
  "(string \<Rightarrow> (int \<times> fd) option) \<Rightarrow> string option \<Rightarrow> 'f runtime \<Rightarrow> fault + (bool \<times> 'f runtime)" where
  "nativeOpenFilesystemPath openf jPath rt =
     (let path = jchars [] jPath in
      if path = [] then Inr (False, rt)
      else case openf path of
        None \<Rightarrow> Inr (False, rt)
      | Some (n, f) \<Rightarrow>
          let rt = unmounted (rt\<lparr>rtFds := n # rtFds rt\<rparr>) in
          bnd (fs_device f) (\<lambda>d. case d of
            None \<Rightarrow> Inr (False, rt\<lparr>rtFds := remove1 n (rtFds rt)\<rparr>)
          | Some dev \<Rightarrow>
              let rt = rt\<lparr>rtBlockDev := Some dev\<rparr> in
              bnd (ext4_open dev) (\<lambda>r. case r of
                None \<Rightarrow> Inr (False, rt\<lparr>rtBlockDev := None, rtFds := remove1 n (rtFds rt)\<rparr>)
              | Some r \<Rightarrow> Inr (True, rt\<lparr>rtReader := Some r\<rparr>))))"

definition nativeCloseFilesystem :: "'f runtime \<Rightarrow> 'f runtime" where
  "nativeCloseFilesystem rt = unmounted rt"

record GsiBuildInfo =
  gbOsVersion :: string
  gbSdkVersion :: string
  gbBuildId :: string
  gbSecurityPatch :: string
  gbModel :: string
  gbFingerprint :: string
  gbIsTrebleEnabled :: bool
  gbRawContent :: string

definition nativeGetBuildInfo :: "bool \<Rightarrow> nat \<Rightarrow> 'f runtime \<Rightarrow> fault + GsiBuildInfo option" where
  "nativeGetBuildInfo cls stk rt =
     (case rtReader rt of
        None \<Rightarrow> Inr None
      | Some r \<Rightarrow>
          bnd (extractBuildProp r stk) (\<lambda>p.
            if \<not> cls then Inr None
            else Inr (Some \<lparr>gbOsVersion = newStringUTF (bpOsVersion p), gbSdkVersion = newStringUTF (bpSdkVersion p),
                   gbBuildId = newStringUTF (bpBuildId p), gbSecurityPatch = newStringUTF (bpSecurityPatch p),
                   gbModel = newStringUTF (bpModel p), gbFingerprint = newStringUTF (bpFingerprint p),
                   gbIsTrebleEnabled = bpIsTrebleEnabled p, gbRawContent = newStringUTF (bpRawContent p)\<rparr>)))"

record GsiFileEntry =
  gfName :: string
  gfPath :: string
  gfInode :: int
  gfSize :: int
  gfIsDirectory :: bool
  gfIsSymlink :: bool

definition java_entry :: "FsFileEntry \<Rightarrow> GsiFileEntry" where
  "java_entry e = \<lparr>gfName = newStringUTF (feName e), gfPath = newStringUTF (fePath e), gfInode = uint (feInode e),
     gfSize = sint (feSize e), gfIsDirectory = feIsDirectory e, gfIsSymlink = feIsSymlink e\<rparr>"

definition nativeListDirectory :: "bool \<Rightarrow> nat \<Rightarrow> string option \<Rightarrow> 'f runtime \<Rightarrow> fault + GsiFileEntry list option" where
  "nativeListDirectory cls stk jPath rt =
     (case rtReader rt of
        None \<Rightarrow> Inr None
      | Some r \<Rightarrow>
          bnd (listDirectory r stk (jchars ''/'' jPath)) (\<lambda>es. case es of
            None \<Rightarrow> Inr None
          | Some es \<Rightarrow> if \<not> cls then Inr None else Inr (Some (map java_entry es))))"

definition nativeReadFileText :: "nat \<Rightarrow> string option \<Rightarrow> 'f runtime \<Rightarrow> fault + string option" where
  "nativeReadFileText stk jPath rt =
     (case rtReader rt of
        None \<Rightarrow> Inr None
      | Some r \<Rightarrow> bnd (readFileString r stk (jchars [] jPath)) (\<lambda>t. Inr (map_option newStringUTF t)))"

section \<open>Sandbox and processes\<close>

definition nativePrepareSandbox :: "string option \<Rightarrow> 'f runtime \<Rightarrow> bool \<times> 'f runtime" where
  "nativePrepareSandbox jSandboxDir rt =
     (let (ok, s, h) = initializeSandbox (jchars [] jSandboxDir) (rt_host rt)
      in (ok, set_host h (rt\<lparr>rtSandbox := s\<rparr>)))"

definition nativeExtractBinaryFromVfs ::
  "nat \<Rightarrow> string option \<Rightarrow> string option \<Rightarrow> 'f runtime \<Rightarrow> fault + (bool \<times> 'f runtime)" where
  "nativeExtractBinaryFromVfs stk jVfsPath jTargetName rt =
     (case rtReader rt of
        None \<Rightarrow> Inr (False, rt)
      | Some r \<Rightarrow>
          bnd (extractBinaryFromVfs (rtSandbox rt) r stk (jchars [] jVfsPath) (jchars [] jTargetName) (rt_host rt))
            (\<lambda>(ok, h). Inr (ok, set_host h rt)))"

text \<open>A command that is started also gives what its process executes; \<open>environ\<close> is the engine's environment.\<close>

definition nativeExecuteCommand ::
  "spawn_net \<Rightarrow> (string \<Rightarrow> string option) \<Rightarrow> string option \<Rightarrow> string option \<Rightarrow> 'f runtime
     \<Rightarrow> (bool \<times> child option) \<times> 'f runtime" where
  "nativeExecuteCommand net environ jCmd jSandboxDir rt =
     (let (p0, p1, p2, pid) = net; (ok, s) = execute_command p0 p1 p2 pid (rtSpawner rt)
      in ((ok, if ok then Some (spawn_child (rt_host rt) environ (jchars [] jCmd) (jchars [] jSandboxDir)) else None),
          rt\<lparr>rtSpawner := s\<rparr>))"

definition nativePollProcessOutput :: "'f runtime \<Rightarrow> string \<times> 'f runtime" where
  "nativePollProcessOutput rt =
     (let (out, s) = pollOutput (rtSpawner rt) in (newStringUTF out, rt\<lparr>rtSpawner := s\<rparr>))"

definition nativeSendProcessInput :: "nat option \<Rightarrow> string option \<Rightarrow> 'f runtime \<Rightarrow> bool" where
  "nativeSendProcessInput written jInput rt = sendInput written (jchars [] jInput) (rtSpawner rt)"

definition nativeIsProcessActive :: "wait_status option \<Rightarrow> 'f runtime \<Rightarrow> bool \<times> 'f runtime" where
  "nativeIsProcessActive wt rt =
     (let (active, s) = spawner_isRunning wt (rtSpawner rt) in (active, rt\<lparr>rtSpawner := s\<rparr>))"

definition nativeKillProcess :: "'f runtime \<Rightarrow> 'f runtime" where
  "nativeKillProcess rt = rt\<lparr>rtSpawner := snd (terminate (rtSpawner rt))\<rparr>"

section \<open>Screen and touch\<close>

definition nativeInitVfb ::
  "bool \<times> bool \<times> bool \<Rightarrow> bool \<times> bool \<Rightarrow> int \<Rightarrow> int \<Rightarrow> string option \<Rightarrow> 'f runtime \<Rightarrow> bool \<times> 'f runtime" where
  "nativeInitVfb vio iio width height jSandboxDir rt =
     (let dir = jchars [] jSandboxDir;
          (vfbOk, rt) = init_vfb vio (u32_of_jint width) (u32_of_jint height) dir rt;
          (inputOk, i, h) = initialize_input (fst iio) (snd iio) (rtInput rt) (rt_host rt) dir
                              (u32_of_jint width) (u32_of_jint height)
      in (vfbOk \<and> inputOk, set_host h (rt\<lparr>rtInput := i\<rparr>)))"

definition nativeSetVfbMode :: "bool \<Rightarrow> 'f runtime \<Rightarrow> 'f runtime" where
  "nativeSetVfbMode enable rt = rt\<lparr>rtDisplay := setVfbMode enable (rtDisplay rt)\<rparr>"

definition nativeIsVfbMode :: "'f runtime \<Rightarrow> bool" where
  "nativeIsVfbMode rt = isVfbMode (rtDisplay rt)"

definition nativeSendTouchEvent :: "'f float_ops \<Rightarrow> int \<Rightarrow> 'f \<Rightarrow> 'f \<Rightarrow> int \<Rightarrow> 'f runtime \<Rightarrow> fault + 'f runtime" where
  "nativeSendTouchEvent F act normX normY pointerId rt =
     bnd (injectTouchEvent F act normX normY pointerId (rtInput rt)) (\<lambda>i. Inr (rt\<lparr>rtInput := i\<rparr>))"

definition nativeDrawTouchFeedback :: "int \<Rightarrow> int \<Rightarrow> int \<Rightarrow> int \<Rightarrow> 'f runtime \<Rightarrow> fault + 'f runtime" where
  "nativeDrawTouchFeedback x y color radius rt =
     bnd (drawTouchCircle (rtVfb rt) x y (u32_of_jint color) radius) (\<lambda>v. Inr (rt\<lparr>rtVfb := v\<rparr>))"

definition nativeClearVfb :: "int \<Rightarrow> 'f runtime \<Rightarrow> fault + 'f runtime" where
  "nativeClearVfb color rt = bnd (clearScreen (rtVfb rt) (u32_of_jint color)) (\<lambda>v. Inr (rt\<lparr>rtVfb := v\<rparr>))"

section \<open>Hooks and binder\<close>

definition nativeDeployHookLibrary :: "string option \<Rightarrow> 'f runtime \<Rightarrow> bool \<times> 'f runtime" where
  "nativeDeployHookLibrary jHostLibDir rt =
     (let (ok, h) = deployHookLibrary (rtSandbox rt) (jchars [] jHostLibDir) (rt_host rt) in (ok, set_host h rt))"

definition nativeRunBinderDiagnostic ::
  "close_fn \<Rightarrow> (int \<times> int) option \<Rightarrow> 'f runtime \<Rightarrow> fault + (string \<times> 'f runtime)" where
  "nativeRunBinderDiagnostic closef pair rt =
     bnd (vb_runSelfTest closef pair (rtBroker rt)) (\<lambda>(s, br). Inr (newStringUTF s, rt\<lparr>rtBroker := br\<rparr>))"

section \<open>Display pipeline\<close>

definition nativeStartTestRender :: "'f runtime \<Rightarrow> fault + 'f runtime" where
  "nativeStartTestRender rt = bnd (startTestRender (rtDisplay rt)) (\<lambda>d. Inr (rt\<lparr>rtDisplay := d\<rparr>))"

definition nativeStopTestRender :: "'f runtime \<Rightarrow> 'f runtime" where
  "nativeStopTestRender rt = rt\<lparr>rtDisplay := stopTestRender (rtDisplay rt)\<rparr>"

definition nativeGetRenderedFrames :: "'f runtime \<Rightarrow> int" where
  "nativeGetRenderedFrames rt = getRenderedFrames (rtDisplay rt)"

section \<open>Property service\<close>

definition nativeStartPropertyService ::
  "bool \<times> bool \<times> bool \<Rightarrow> string option \<Rightarrow> string option \<Rightarrow> 'f runtime \<Rightarrow> bool \<times> 'f runtime" where
  "nativeStartPropertyService io jSandboxDir jBuildPropText rt =
     (let (ok, s, h) = start_service (fst io) (fst (snd io)) (snd (snd io)) (fst (rt_sys rt)) (rt_host rt)
                         (jchars [] jSandboxDir);
          rt = set_sys (s, h) rt
      in if \<not> ok then (False, rt)
         else case jBuildPropText of
                None \<Rightarrow> (True, rt)
              | Some t \<Rightarrow> (True, set_sys (loadFromBuildProp (fst (rt_sys rt)) (rt_host rt) t) rt))"

definition nativeStopPropertyService :: "'f runtime \<Rightarrow> 'f runtime" where
  "nativeStopPropertyService rt = set_sys (stop_service (fst (rt_sys rt)) (rt_host rt)) rt"

definition nativeSetProperty :: "string option \<Rightarrow> string option \<Rightarrow> 'f runtime \<Rightarrow> 'f runtime" where
  "nativeSetProperty jKey jValue rt =
     (let key = jchars [] jKey; val = jchars [] jValue in if key \<noteq> [] then rt_setprop key val rt else rt)"

definition nativeGetProperty :: "string option \<Rightarrow> string option \<Rightarrow> 'f runtime \<Rightarrow> string" where
  "nativeGetProperty jKey jDefaultVal rt =
     newStringUTF (getProperty (fst (rt_sys rt)) (jchars [] jKey) (jchars [] jDefaultVal))"

definition nativeGetAllProperties :: "'f runtime \<Rightarrow> string" where
  "nativeGetAllProperties rt = newStringUTF (getAllPropertiesFormatted (fst (rt_sys rt)))"

definition nativeGetPropertyCount :: "'f runtime \<Rightarrow> int" where
  "nativeGetPropertyCount rt = jint_of_size (getPropertyCount (fst (rt_sys rt)))"

text \<open>The diagnostic of the hook library, on the identity that library keeps; its report is never null.\<close>

definition nativeRunPrivilegeDiagnostic :: "env \<Rightarrow> identity \<Rightarrow> fault + (string \<times> identity)" where
  "nativeRunPrivilegeDiagnostic env i = bnd (privilege_diagnostic env i) (\<lambda>(s, i). Inr (newStringUTF s, i))"

section \<open>Boot and services\<close>

definition nativeLoadInitFromVfs :: "nat \<Rightarrow> 'f runtime \<Rightarrow> fault + (int \<times> 'f runtime)" where
  "nativeLoadInitFromVfs stk rt =
     (case rtReader rt of
        None \<Rightarrow> Inr (0, rt)
      | Some r \<Rightarrow> bnd (loadInitFromVfs r stk (rtBoot rt)) (\<lambda>(n, b). Inr (jint_of_size n, rt\<lparr>rtBoot := b\<rparr>)))"

text \<open>The directory goes to the worker thread, whose phases are the boot manager's steps.\<close>

definition nativeStartBootSequence :: "'f runtime \<Rightarrow> bool \<times> 'f runtime" where
  "nativeStartBootSequence rt = (True, rt\<lparr>rtBoot := startBootSequence (rtBoot rt)\<rparr>)"

definition nativeStopBootSequence :: "'f runtime \<Rightarrow> 'f runtime" where
  "nativeStopBootSequence rt = rt\<lparr>rtBoot := stopBootSequence (rtBoot rt)\<rparr>"

definition nativeGetBootPhase :: "'f runtime \<Rightarrow> string" where
  "nativeGetBootPhase rt = newStringUTF (getPhaseString (bmPhase (rtBoot rt)))"

record GsiServiceInfo =
  gvName :: string
  gvBinary :: string
  gvClasses :: string
  gvUser :: string
  gvStatus :: string
  gvPid :: int

fun join_classes :: "string list \<Rightarrow> string" where
  "join_classes [] = []"
| "join_classes [c] = c"
| "join_classes (c # cs) = c @ '', '' @ join_classes cs"

definition java_service :: "InitService \<Rightarrow> GsiServiceInfo" where
  "java_service s = \<lparr>gvName = newStringUTF (svName s), gvBinary = newStringUTF (svBinaryPath s),
     gvClasses = newStringUTF (join_classes (svClasses s)), gvUser = newStringUTF (svUser s),
     gvStatus = newStringUTF (svStatus s), gvPid = svPid s\<rparr>"

definition nativeGetServicesList :: "bool \<Rightarrow> 'f runtime \<Rightarrow> GsiServiceInfo list option" where
  "nativeGetServicesList cls rt = (if \<not> cls then None else Some (map java_service (services (rtBoot rt))))"

definition nativeControlService :: "string option \<Rightarrow> int \<Rightarrow> 'f runtime \<Rightarrow> bool \<times> 'f runtime" where
  "nativeControlService jName act rt =
     (let name = jchars [] jName;
          upd = (\<lambda>(ok, b). (ok, rt\<lparr>rtBoot := b\<rparr>))
      in if act = 1 then upd (startService name (rtBoot rt))
         else if act = 2 then upd (stopService name (rtBoot rt))
         else if act = 3 then upd (restartService name (rtBoot rt))
         else (False, rt))"

section \<open>Graphics buffers and boot animation\<close>

definition nativeInitGralloc :: "string option \<Rightarrow> 'f runtime \<Rightarrow> bool \<times> 'f runtime" where
  "nativeInitGralloc jSandboxDir rt = init_gralloc (jchars [] jSandboxDir) rt"

definition nativeStartBootAnimation :: "bool \<Rightarrow> 'f runtime \<Rightarrow> 'f runtime" where
  "nativeStartBootAnimation enable rt =
     (if enable then start_animation rt else rt\<lparr>rtGralloc := stopBootAnimation (rtGralloc rt)\<rparr>)"

definition nativeIsBootAnimationActive :: "'f runtime \<Rightarrow> bool" where
  "nativeIsBootAnimationActive rt = grAnimRunning (rtGralloc rt)"

definition nativeGetGraphicsStats :: "'f runtime \<Rightarrow> string" where
  "nativeGetGraphicsStats rt = newStringUTF (getGraphicsStats (rtGralloc rt))"

section \<open>Network\<close>

definition nativeInitNetwork ::
  "bool \<times> bool \<times> bool \<Rightarrow> string option \<Rightarrow> string option \<Rightarrow> string option \<Rightarrow> 'f runtime \<Rightarrow> bool \<times> 'f runtime" where
  "nativeInitNetwork io jSandboxDir jPrimaryDns jSecondaryDns rt =
     (let (ok, n, sys) = initialize_network (fst io) (fst (snd io)) (snd (snd io)) (rtNetwork rt) (rt_sys rt)
            (jchars [] jSandboxDir) (jchars ''8.8.8.8'' jPrimaryDns) (jchars ''1.1.1.1'' jSecondaryDns)
      in (ok, set_sys sys (rt\<lparr>rtNetwork := n\<rparr>)))"

definition nativeShutdownNetwork :: "'f runtime \<Rightarrow> 'f runtime" where
  "nativeShutdownNetwork rt =
     (let (n, h) = shutdown_network (rtNetwork rt) (rt_host rt) in set_host h (rt\<lparr>rtNetwork := n\<rparr>))"

definition nativeTestNetworkConnectivity ::
  "('d \<Rightarrow> 'd \<Rightarrow> 'd) \<Rightarrow> ('d \<Rightarrow> string) \<Rightarrow> 'd test_net \<Rightarrow> string option \<Rightarrow> int \<Rightarrow> string" where
  "nativeTestNetworkConnectivity dplus fmt1 net jHost jPort =
     newStringUTF (testConnectivity dplus fmt1 net (jchars ''google.com'' jHost) jPort)"

definition nativeGetNetworkStats :: "'f runtime \<Rightarrow> string" where
  "nativeGetNetworkStats rt = newStringUTF (getNetworkStatsString (rtNetwork rt))"

section \<open>Log broker\<close>

text \<open>\<open>self\<close> is the process, \<open>t\<close> the clock at the start of the broker.\<close>

definition nativeInitLogcatBroker :: "log_net \<Rightarrow> u64 \<times> u64 \<Rightarrow> int \<Rightarrow> string option \<Rightarrow> 'f runtime \<Rightarrow> bool \<times> 'f runtime" where
  "nativeInitLogcatBroker net t self jSandboxDir rt =
     (let (ok, lc, h) = start_logcat net t self (rtLogcat rt) (rt_host rt) (jchars [] jSandboxDir) 5000
      in (ok, set_host h (rt\<lparr>rtLogcat := lc\<rparr>)))"

definition nativeShutdownLogcatBroker :: "'f runtime \<Rightarrow> 'f runtime" where
  "nativeShutdownLogcatBroker rt =
     (let (lc, h) = stop_logcat (rtLogcat rt) (rt_host rt) in set_host h (rt\<lparr>rtLogcat := lc\<rparr>))"

definition nativeGetRecentLogs :: "clock \<Rightarrow> int \<Rightarrow> int \<Rightarrow> int \<Rightarrow> 'f runtime \<Rightarrow> string" where
  "nativeGetRecentLogs tm jBufferId jMinPrio jMaxLines rt =
     newStringUTF (getRecentLogs tm (rtLogcat rt) jBufferId jMinPrio (word_of_int jMaxLines))"

definition nativeGetTombstoneReport :: "(string \<times> int option) list \<Rightarrow> 'f runtime \<Rightarrow> string" where
  "nativeGetTombstoneReport entries rt = newStringUTF (getLatestTombstone (rtLogcat rt) (rt_host rt) entries)"

definition nativeClearLogs :: "'f runtime \<Rightarrow> 'f runtime" where
  "nativeClearLogs rt = rt\<lparr>rtLogcat := clearLogs (rtLogcat rt)\<rparr>"

definition nativeGetLogStats :: "'f runtime \<Rightarrow> string" where
  "nativeGetLogStats rt = newStringUTF (getStatsString (rtLogcat rt))"

definition crash_registers :: string where
  "crash_registers =
     oline ''  x0  0000000000000000  x1  0000007fe812a030  x2  0000000000000020  x3  0000007fe812a040''
     @ oline ''  x4  0000000000000004  x5  0000000000000000  x6  0000000000000000  x7  0000007fe8129fd0''
     @ ''  sp  0000007fe8129f80  lr  0000007d4321b0a8  pc  0000007d4321a004  pst 0000000060000000''"

definition crash_backtrace :: string where
  "crash_backtrace =
     oline ''  #00 pc 000000000001a004  /system/lib64/libsurfaceflinger.so (android::SurfaceFlinger::init+48)''
     @ oline ''  #01 pc 000000000002b0a8  /system/bin/surfaceflinger (main+120)''
     @ ''  #02 pc 000000000004f120  /system/lib64/bionic/libc.so (__libc_init+108)''"

text \<open>\<open>null_text\<close> is how a stream prints the null fault address.\<close>

definition nativeInjectTestCrash ::
  "clock \<Rightarrow> u64 \<Rightarrow> string \<Rightarrow> string list \<Rightarrow> string \<Rightarrow> int \<Rightarrow> int \<Rightarrow> string option \<Rightarrow> 'f runtime \<Rightarrow> string \<times> 'f runtime" where
  "nativeInjectTestCrash tm now stamp names null_text pid tid jReason rt =
     (let c = \<lparr>crPid = pid, crTid = tid, crSignal = 11, crFaultAddr = null_text,
               crReason = jchars ''Diagnostic null pointer dereference simulation'' jReason,
               crRegisters = crash_registers, crBacktrace = crash_backtrace\<rparr>;
          (report, lc, h) = dumpTombstone tm now stamp names c (rtLogcat rt) (rt_host rt)
      in (newStringUTF report, set_host h (rt\<lparr>rtLogcat := lc\<rparr>)))"

section \<open>Audio\<close>

definition nativeInitAudio :: "string option \<Rightarrow> 'f runtime \<Rightarrow> bool \<times> 'f runtime" where
  "nativeInitAudio jSandboxDir rt = init_audio (jchars [] jSandboxDir) rt"

definition nativeShutdownAudio :: "'f runtime \<Rightarrow> 'f runtime" where
  "nativeShutdownAudio rt = rt\<lparr>rtAudio := shutdown_audio (rtAudio rt)\<rparr>"

text \<open>The array is \<open>None\<close> where it is null; the result is the count and the array as it is left.\<close>

definition nativeReadAudioPcm ::
  "sample list option \<Rightarrow> 'f runtime \<Rightarrow> fault + (int \<times> sample list option \<times> 'f runtime)" where
  "nativeReadAudioPcm jBuffer rt =
     (case jBuffer of
        None \<Rightarrow> Inr (0, None, rt)
      | Some xs \<Rightarrow>
          if xs = [] then Inr (0, Some xs, rt)
          else bnd (readSamples (rtAudio rt) True (length xs)) (\<lambda>(n, out, a).
                 Inr (jint_of_size n, Some (out @ drop (length out) xs), rt\<lparr>rtAudio := a\<rparr>)))"

definition nativeWriteAudioPcm :: "sample list option \<Rightarrow> 'f runtime \<Rightarrow> fault + (int \<times> 'f runtime)" where
  "nativeWriteAudioPcm jBuffer rt =
     (case jBuffer of
        None \<Rightarrow> Inr (0, rt)
      | Some xs \<Rightarrow>
          if xs = [] then Inr (0, rt)
          else bnd (writeSamples (rtAudio rt) (Some xs)) (\<lambda>(n, a). Inr (jint_of_size n, rt\<lparr>rtAudio := a\<rparr>)))"

definition nativePlayChime :: "'d float_ops \<Rightarrow> int \<Rightarrow> 'f runtime \<Rightarrow> fault + (bool \<times> 'f runtime)" where
  "nativePlayChime D type rt = play_chime D type rt"

definition nativeGetAudioStats :: "'f runtime \<Rightarrow> string" where
  "nativeGetAudioStats rt = newStringUTF (audio_stats_string (rtAudio rt))"

section \<open>Keys\<close>

definition nativeInjectKeyEvent :: "int \<Rightarrow> int \<Rightarrow> 'f runtime \<Rightarrow> 'f runtime" where
  "nativeInjectKeyEvent keyCode act rt = rt\<lparr>rtInput := injectKeyEvent keyCode act (rtInput rt)\<rparr>"

definition nativeInjectKeyClick :: "int \<Rightarrow> 'f runtime \<Rightarrow> 'f runtime" where
  "nativeInjectKeyClick keyCode rt = rt\<lparr>rtInput := injectKeyClick keyCode (rtInput rt)\<rparr>"

definition nativeGetInputStats :: "'f runtime \<Rightarrow> string" where
  "nativeGetInputStats rt = newStringUTF (getInputStatsString (rtInput rt))"

section \<open>Battery and sensors\<close>

definition nativeInitBattery :: "string option \<Rightarrow> 'f runtime \<Rightarrow> fault + (bool \<times> 'f runtime)" where
  "nativeInitBattery jSandboxDir rt = init_battery (jchars [] jSandboxDir) rt"

definition nativeUpdateBattery ::
  "int \<Rightarrow> string option \<Rightarrow> string option \<Rightarrow> int \<Rightarrow> int \<Rightarrow> bool \<Rightarrow> bool \<Rightarrow> 'f runtime \<Rightarrow> fault + (bool \<times> 'f runtime)" where
  "nativeUpdateBattery capacity jStatus jHealth voltageMv tempTenthsC isPluggedAc isPluggedUsb =
     on_sys rtBattery (\<lambda>c rt. rt\<lparr>rtBattery := c\<rparr>)
       (\<lambda>c sys. updateBattery c sys capacity (jchars ''Charging'' jStatus) (jchars ''Good'' jHealth)
          voltageMv tempTenthsC isPluggedAc isPluggedUsb)"

definition nativeGetBatteryStats :: "(int \<Rightarrow> int \<Rightarrow> string) \<Rightarrow> 'f runtime \<Rightarrow> string" where
  "nativeGetBatteryStats float_quot rt = newStringUTF (getBatteryStatsString float_quot (rtBattery rt))"

definition nativeInitSensors :: "'f float_ops \<Rightarrow> bool \<times> bool \<Rightarrow> u64 \<Rightarrow> string option \<Rightarrow> 'f runtime \<Rightarrow> fault + (bool \<times> 'f runtime)" where
  "nativeInitSensors F io now jSandboxDir rt = init_sensors F io now (jchars [] jSandboxDir) rt"

definition nativeUpdateSensors ::
  "'f float_ops \<Rightarrow> u64 \<Rightarrow> 'f \<Rightarrow> 'f \<Rightarrow> 'f \<Rightarrow> 'f \<Rightarrow> 'f \<Rightarrow> 'f \<Rightarrow> 'f \<Rightarrow> 'f \<Rightarrow> 'f runtime \<Rightarrow> fault + (bool \<times> 'f runtime)" where
  "nativeUpdateSensors F now ax ay az gx gy gz lux prox =
     on_sys rtSensor (\<lambda>c rt. rt\<lparr>rtSensor := c\<rparr>) (\<lambda>c sys. updateSensors F now ax ay az gx gy gz lux prox c sys)"

definition nativeGetSensorStats :: "'f float_ops \<Rightarrow> 'f runtime \<Rightarrow> string" where
  "nativeGetSensorStats F rt = newStringUTF (getSensorStatsString F (rtSensor rt))"

section \<open>Camera\<close>

definition nativeInitCamera :: "string option \<Rightarrow> 'f runtime \<Rightarrow> fault + (bool \<times> 'f runtime)" where
  "nativeInitCamera jSandboxDir rt = init_camera (jchars [] jSandboxDir) rt"

definition nativeStartCameraStream :: "'f float_ops \<Rightarrow> int \<Rightarrow> int \<Rightarrow> int \<Rightarrow> 'f runtime \<Rightarrow> fault + (bool \<times> 'f runtime)" where
  "nativeStartCameraStream F cameraId width height =
     on_sys rtCamera (\<lambda>c rt. rt\<lparr>rtCamera := c\<rparr>)
       (\<lambda>c sys. startStream (fDec F 0 0) cameraId (u32_of_jint width) (u32_of_jint height) c sys)"

definition nativeStopCameraStream :: "'f float_ops \<Rightarrow> int \<Rightarrow> 'f runtime \<Rightarrow> 'f runtime" where
  "nativeStopCameraStream F cameraId rt =
     (let (c, sys) = stopStream (fDec F 0 0) cameraId (rtCamera rt) (rt_sys rt) in set_sys sys (rt\<lparr>rtCamera := c\<rparr>))"

definition nativeGetCameraFrameCount :: "int \<Rightarrow> 'f runtime \<Rightarrow> int" where
  "nativeGetCameraFrameCount cameraId rt = sint (ucast (getFrameCount cameraId (rtCamera rt)) :: u32)"

definition nativeGetCameraStats :: "'f float_ops \<Rightarrow> 'f runtime \<Rightarrow> string" where
  "nativeGetCameraStats F rt = newStringUTF (getCameraStatsString (fShow F) (rtCamera rt))"

section \<open>Storage\<close>

definition nativeInitStorage :: "nat \<Rightarrow> listing \<Rightarrow> string option \<Rightarrow> 'f runtime \<Rightarrow> fault + (bool \<times> 'f runtime)" where
  "nativeInitStorage stk ls jSandboxDir rt = init_storage stk ls (jchars [] jSandboxDir) rt"

definition nativeGetStorageStats :: "nat \<Rightarrow> listing \<Rightarrow> 'f runtime \<Rightarrow> fault + string" where
  "nativeGetStorageStats stk ls rt =
     bnd (storage_getStats stk ls (rt_host rt) (rtStorage rt)) (\<lambda>st. Inr (newStringUTF (getStorageStatsString st)))"

definition nativePopulateStorageSamples :: "nat \<Rightarrow> listing \<Rightarrow> 'f runtime \<Rightarrow> fault + (bool \<times> 'f runtime)" where
  "nativePopulateStorageSamples stk ls rt = storage_samples stk ls rt"

definition nativeWipeStorage :: "nat \<Rightarrow> listing \<Rightarrow> 'f runtime \<Rightarrow> fault + (bool \<times> 'f runtime)" where
  "nativeWipeStorage stk ls rt =
     bnd (wipeStorage stk ls (rtStorage rt) (rt_sys rt)) (\<lambda>(ok, sys). Inr (ok, set_sys sys rt))"

section \<open>Telephony and Bluetooth\<close>

definition nativeInitTelephony :: "string option \<Rightarrow> 'f runtime \<Rightarrow> fault + (bool \<times> 'f runtime)" where
  "nativeInitTelephony jSandboxDir rt = init_telephony (jchars [] jSandboxDir) rt"

definition nativeToggleSim :: "bool \<Rightarrow> 'f runtime \<Rightarrow> fault + (bool \<times> 'f runtime)" where
  "nativeToggleSim enabled =
     on_sys rtTelephony (\<lambda>c rt. rt\<lparr>rtTelephony := c\<rparr>) (\<lambda>c sys. Inr (toggleSim c sys enabled))"

definition nativeToggleWifi :: "bool \<Rightarrow> 'f runtime \<Rightarrow> fault + (bool \<times> 'f runtime)" where
  "nativeToggleWifi connected =
     on_sys rtTelephony (\<lambda>c rt. rt\<lparr>rtTelephony := c\<rparr>) (\<lambda>c sys. Inr (toggleWifi c sys connected))"

definition nativeGetTelephonyStats :: "'f runtime \<Rightarrow> string" where
  "nativeGetTelephonyStats rt = newStringUTF (getTelephonyStatsString (rtTelephony rt))"

definition nativeInitBluetooth :: "string option \<Rightarrow> 'f runtime \<Rightarrow> fault + (bool \<times> 'f runtime)" where
  "nativeInitBluetooth jSandboxDir rt = init_bluetooth (jchars [] jSandboxDir) rt"

definition nativeToggleBluetooth :: "bool \<Rightarrow> 'f runtime \<Rightarrow> fault + (bool \<times> 'f runtime)" where
  "nativeToggleBluetooth enabled =
     on_sys rtBluetooth (\<lambda>c rt. rt\<lparr>rtBluetooth := c\<rparr>) (\<lambda>c sys. Inr (toggleBluetooth c sys enabled))"

definition nativeStartBleScan :: "'f runtime \<Rightarrow> bool \<times> 'f runtime" where
  "nativeStartBleScan rt = (let (ok, b) = startBleScan (rtBluetooth rt) in (ok, rt\<lparr>rtBluetooth := b\<rparr>))"

definition nativeGetBluetoothStats :: "'f runtime \<Rightarrow> string" where
  "nativeGetBluetoothStats rt = newStringUTF (getBluetoothStatsString (rtBluetooth rt))"

section \<open>Extraction and test suite\<close>

definition nativeExtractEssentialSystem ::
  "(u64 \<Rightarrow> string) \<Rightarrow> nat \<Rightarrow> string option \<Rightarrow> 'f runtime \<Rightarrow> fault + (string \<times> 'f runtime)" where
  "nativeExtractEssentialSystem mb stk jSandboxDir rt =
     (case rtReader rt of
        None \<Rightarrow> Inr (newStringUTF ''Error: No GSI image loaded in memory. Open an image first.'', rt)
      | Some r \<Rightarrow>
          bnd (extractEssentialSystem mb r stk False (jchars [] jSandboxDir) (rt_host rt))
            (\<lambda>(res, h, tr). Inr (newStringUTF (exSummary res), set_host h rt)))"

definition nativeRunGsiTestSuite :: "spawn_net \<Rightarrow> string option \<Rightarrow> 'f runtime \<Rightarrow> string \<times> 'f runtime" where
  "nativeRunGsiTestSuite net jSandboxDir rt =
     (let (report, b, s) = runGsiTestSuite net (jchars [] jSandboxDir) (rtReader rt \<noteq> None) (rtBoot rt) (rtSpawner rt)
      in (newStringUTF (trSummary report), rt\<lparr>rtBoot := b, rtSpawner := s\<rparr>))"

section \<open>Media protection and keys\<close>

definition nativeInitDrm :: "string option \<Rightarrow> 'f runtime \<Rightarrow> fault + (bool \<times> 'f runtime)" where
  "nativeInitDrm jSandboxDir rt = init_drm (jchars [] jSandboxDir) rt"

definition nativeToggleDrm :: "bool \<Rightarrow> 'f runtime \<Rightarrow> 'f runtime" where
  "nativeToggleDrm enabled rt =
     (let (d, sys) = toggleDrm (rtDrm rt) (rt_sys rt) enabled in set_sys sys (rt\<lparr>rtDrm := d\<rparr>))"

definition nativeRunDrmCryptoTest :: "u64 \<Rightarrow> 'f runtime \<Rightarrow> string \<times> 'f runtime" where
  "nativeRunDrmCryptoTest now rt =
     (let (s, d) = runCryptoSelfTest now (rtDrm rt) in (newStringUTF s, rt\<lparr>rtDrm := d\<rparr>))"

definition nativeGetDrmStats :: "'f runtime \<Rightarrow> string" where
  "nativeGetDrmStats rt = newStringUTF (getDrmStatsString (rtDrm rt))"

definition nativeInitKeystore :: "u64 \<Rightarrow> string option \<Rightarrow> 'f runtime \<Rightarrow> fault + (bool \<times> 'f runtime)" where
  "nativeInitKeystore now jSandboxDir rt = init_keystore now (jchars [] jSandboxDir) rt"

definition nativeEnrollFingerprint :: "u64 \<Rightarrow> int \<Rightarrow> string option \<Rightarrow> 'f runtime \<Rightarrow> fault + (bool \<times> 'f runtime)" where
  "nativeEnrollFingerprint now fingerId jName =
     on_sys rtKeystore (\<lambda>c rt. rt\<lparr>rtKeystore := c\<rparr>) (\<lambda>c sys. Inr (enrollFingerprint now c sys fingerId (jchars [] jName)))"

definition nativeAuthenticateFingerprint :: "u64 \<Rightarrow> bool \<Rightarrow> 'f runtime \<Rightarrow> string \<times> 'f runtime" where
  "nativeAuthenticateFingerprint now shouldMatch rt =
     (let (res, k) = authenticateFingerprint now (rtKeystore rt) shouldMatch
      in (newStringUTF (baMessage res), rt\<lparr>rtKeystore := k\<rparr>))"

definition nativeToggleBiometrics :: "bool \<Rightarrow> 'f runtime \<Rightarrow> 'f runtime" where
  "nativeToggleBiometrics enabled rt =
     (let (k, sys) = toggleBiometrics (rtKeystore rt) (rt_sys rt) enabled in set_sys sys (rt\<lparr>rtKeystore := k\<rparr>))"

definition nativeGetKeystoreStats :: "'f runtime \<Rightarrow> string" where
  "nativeGetKeystoreStats rt = newStringUTF (getKeystoreStatsString (rtKeystore rt))"

section \<open>GPU and USB\<close>

definition nativeInitGpu :: "string option \<Rightarrow> 'f runtime \<Rightarrow> fault + (bool \<times> 'f runtime)" where
  "nativeInitGpu jSandboxDir rt = init_gpu (jchars [] jSandboxDir) rt"

definition nativeRunGpuTest :: "'f float_ops \<Rightarrow> 'f runtime \<Rightarrow> fault + (string \<times> 'f runtime)" where
  "nativeRunGpuTest F rt =
     bnd (runGpuSelfTest F (rtGpu rt) (rtVfb rt)) (\<lambda>(s, g, v). Inr (newStringUTF s, rt\<lparr>rtGpu := g, rtVfb := v\<rparr>))"

definition nativeClearVfbColor :: "int \<Rightarrow> 'f runtime \<Rightarrow> fault + (bool \<times> 'f runtime)" where
  "nativeClearVfbColor colorRgba rt =
     bnd (clearVfbColor (u32_of_jint colorRgba) (rtGpu rt) (rtVfb rt)) (\<lambda>(ok, g, v). Inr (ok, rt\<lparr>rtGpu := g, rtVfb := v\<rparr>))"

definition nativeGetGpuStats :: "'f runtime \<Rightarrow> string" where
  "nativeGetGpuStats rt = newStringUTF (getGpuStatsString (rtGpu rt))"

definition nativeInitUsb :: "bool \<Rightarrow> string option \<Rightarrow> int \<Rightarrow> 'f runtime \<Rightarrow> fault + (bool \<times> 'f runtime)" where
  "nativeInitUsb socket_ok jSandboxDir tcpPort rt = init_usb socket_ok (jchars [] jSandboxDir) tcpPort rt"

definition nativeToggleAdbServer :: "bool \<Rightarrow> bool \<Rightarrow> 'f runtime \<Rightarrow> bool \<times> 'f runtime" where
  "nativeToggleAdbServer socket_ok start rt =
     (if start then (let (ok, u) = startAdbServer socket_ok (rtUsb rt) in (ok, rt\<lparr>rtUsb := u\<rparr>))
      else (True, rt\<lparr>rtUsb := stopAdbServer (rtUsb rt)\<rparr>))"

definition nativeSimulateAdbConnection :: "'f runtime \<Rightarrow> string \<times> 'f runtime" where
  "nativeSimulateAdbConnection rt =
     (let (u, s) = simulateLocalAdbConnection (rtUsb rt) in (newStringUTF s, rt\<lparr>rtUsb := u\<rparr>))"

definition nativeGetUsbStats :: "'f runtime \<Rightarrow> string" where
  "nativeGetUsbStats rt = newStringUTF (getUsbStatsString (rtUsb rt))"

section \<open>Live boot\<close>

definition nativeDirectLiveBoot ::
  "'f float_ops \<Rightarrow> 'd float_ops \<Rightarrow> live_env \<Rightarrow> nat \<Rightarrow> (string \<Rightarrow> int + fd) \<Rightarrow> string option \<Rightarrow> string option \<Rightarrow> 'f runtime
     \<Rightarrow> fault + (string \<times> 'f runtime)" where
  "nativeDirectLiveBoot F D env stk openf jImagePath jSandboxDir rt =
     (let p = jchars [] jImagePath in
      bnd (bootFromPath F D env stk (openf p) p (jchars [] jSandboxDir) rt) (\<lambda>(res, rt).
        Inr (newStringUTF (lbBootLog res), rt)))"

definition nativeDirectLiveBootFd ::
  "'f float_ops \<Rightarrow> 'd float_ops \<Rightarrow> live_env \<Rightarrow> nat \<Rightarrow> fd \<Rightarrow> string option \<Rightarrow> 'f runtime \<Rightarrow> fault + (string \<times> 'f runtime)" where
  "nativeDirectLiveBootFd F D env stk f jSandboxDir rt =
     bnd (bootFromFd F D env stk f (jchars [] jSandboxDir) rt) (\<lambda>(res, rt). Inr (newStringUTF (lbBootLog res), rt))"

definition nativeGetLiveBootLog :: "'f runtime \<Rightarrow> string" where
  "nativeGetLiveBootLog rt = newStringUTF (getLastBootLog rt)"

end
