(* ===== verification/Engine_Invariants.thy ===== *)
theory Engine_Invariants
  imports Jni_Engine
begin

text \<open>
  What the entry points and the threads behind them keep of each component: a property table with one
  value per key, the boot manager's process ids, a screen buffer of the size its header names, an audio
  ring in shape, thread objects that are joinable exactly while their thread runs, and key
  stores with one entry per name.
\<close>

named_theorems keeps_keys

section \<open>The property table\<close>

lemma setProperty_keys [keeps_keys]: "keys_distinct s \<Longrightarrow> keys_distinct (fst (setProperty s h k v))"
  by (simp add: setProperty_def Let_def keys_distinct_put)

lemma set_props_keys [keeps_keys]: "keys_distinct (fst sys) \<Longrightarrow> keys_distinct (fst (set_props kvs sys))"
  by (induction kvs arbitrary: sys) (simp_all add: set_props_Cons setProperty_keys)

lemma load_keys [keeps_keys]: "keys_distinct s \<Longrightarrow> keys_distinct (fst (loadFromBuildProp s h t))"
  unfolding loadFromBuildProp_def Let_def
  by (simp add: load_line_def default_prop_def Let_def keys_distinct_put keys_distinct_foldl split: option.splits)

lemma put_all_keys: "keys_distinct s \<Longrightarrow> keys_distinct (foldl (\<lambda>s kv. put_prop s (fst kv) (snd kv)) s kvs)"
  by (rule keys_distinct_foldl) (simp_all add: keys_distinct_put)

lemma default_keys: "keys_distinct s \<Longrightarrow> keys_distinct (foldl default_prop s kvs)"
  by (rule keys_distinct_foldl) (simp_all add: default_prop_def keys_distinct_put)

lemma start_service_keys [keeps_keys]:
  assumes "keys_distinct s"
  shows "keys_distinct (fst (snd (start_service a b c s h dir)))"
proof -
  have k: "keys_distinct (s\<lparr>psSandboxDir := d, psSocketPath := p, psPropertiesFilePath := f, psServerOpen := b'\<rparr>)" for d p f b'
    using assms by (simp add: keys_distinct_def)
  have r: "keys_distinct (s\<lparr>psIsRunning := b'\<rparr>) = keys_distinct s" for s :: prop_service and b'
    by (simp add: keys_distinct_def)
  show ?thesis
    using assms put_all_keys [OF k] k by (simp add: start_service_def Let_def r)
qed

lemma stop_service_keys [keeps_keys]: "keys_distinct s \<Longrightarrow> keys_distinct (fst (stop_service s h))"
  by (simp add: stop_service_def Let_def keys_distinct_def)

lemma write_fold_look [simp]:
  "fst (foldl (\<lambda>sys (p, c). snd (sys_write p m c sys)) sys fs) = fst sys"
  by (induction fs arbitrary: sys) auto

lemma syncToSysfs_keys: "syncToSysfs c sys = Inr sys' \<Longrightarrow> keys_distinct (fst sys) \<Longrightarrow> keys_distinct (fst sys')"
  by (auto simp: syncToSysfs_def writeSysfsFile_def bnd_Inr_iff Let_def keeps_keys simp del: split_paired_Ex split: if_splits)

lemma battery_table_keys:
  "initialize_battery c sys dir = Inr (ok, c', sys') \<Longrightarrow> keys_distinct (fst sys) \<Longrightarrow> keys_distinct (fst sys')"
  "updateBattery c sys a b d e f g i = Inr (ok, c', sys') \<Longrightarrow> keys_distinct (fst sys) \<Longrightarrow> keys_distinct (fst sys')"
  by (auto simp: initialize_battery_def updateBattery_def Let_def bnd_Inr_iff split: if_splits dest: syncToSysfs_keys)

lemma sensor_sync_keys: "sensor_syncToSysfs F c sys = Inr sys' \<Longrightarrow> keys_distinct (fst sys) \<Longrightarrow> keys_distinct (fst sys')"
  by (auto simp: sensor_syncToSysfs_def sensor_writeSysfsFile_def bnd_Inr_iff Let_def keeps_keys simp del: split_paired_Ex split: if_splits)

lemma sensor_keys:
  "initialize_sensor F a b n c sys dir = Inr (ok, c', sys') \<Longrightarrow> keys_distinct (fst sys) \<Longrightarrow> keys_distinct (fst sys')"
  "updateSensors F n ax ay az gx gy gz lux prox c sys = Inr (ok, c', sys') \<Longrightarrow> keys_distinct (fst sys) \<Longrightarrow> keys_distinct (fst sys')"
  by (auto simp: initialize_sensor_def updateSensors_def Let_def bnd_Inr_iff split: if_splits prod.splits
      dest!: sensor_sync_keys) (metis fst_conv make_dirs_look)+

lemma initialize_camera_keys: "initialize_camera c sys dir = Inr (ok, c', sys') \<Longrightarrow> keys_distinct (fst sys) \<Longrightarrow> keys_distinct (fst sys')"
  by (auto simp: initialize_camera_def Let_def bnd_Inr_iff keeps_keys split: if_splits)

lemma stopStream_keys: "keys_distinct (fst sys) \<Longrightarrow> keys_distinct (fst (snd (stopStream z i c sys)))"
  by (auto simp: stopStream_def Let_def keeps_keys)

lemma startStream_keys:
  assumes "startStream z i w h c sys = Inr (ok, c', sys')" "keys_distinct (fst sys)"
  shows "keys_distinct (fst sys')"
proof -
  obtain c1 sys1 where s: "stopStream z i c sys = (c1, sys1)"
    by (cases "stopStream z i c sys")
  then have "keys_distinct (fst sys1)" using stopStream_keys [OF assms(2), of z i c] by simp
  then show ?thesis
    using assms by (auto simp: startStream_def s Let_def keeps_keys split: if_splits)
qed

lemma refresh_stats_keys: "refresh_stats stk ls c sys = Inr sys' \<Longrightarrow> keys_distinct (fst sys) \<Longrightarrow> keys_distinct (fst sys')"
  by (auto simp: refresh_stats_def updatePropertyCache_def Let_def bnd_Inr_iff keeps_keys split: if_splits)

lemma storage_files_look [simp]:
  "fst (populateStandardFolders c sys) = fst sys" "fst (updateMountsFile c sys) = fst sys"
proof -
  have "fst (foldl (\<lambda>sys d. make_dirs False 509 (stMediaDir c @ d) sys) sys ds) = fst sys" for ds
    by (induction ds arbitrary: sys) simp_all
  then show "fst (populateStandardFolders c sys) = fst sys"
    by (simp add: populateStandardFolders_def)
qed (simp add: updateMountsFile_def)

lemma storage_keys:
  "initialize_storage stk ls c sys dir = Inr (ok, c', sys') \<Longrightarrow> keys_distinct (fst sys) \<Longrightarrow> keys_distinct (fst sys')"
  "generateSampleFiles stk ls c sys = Inr (ok, sys') \<Longrightarrow> keys_distinct (fst sys) \<Longrightarrow> keys_distinct (fst sys')"
  "wipeStorage stk ls c sys = Inr (ok, sys') \<Longrightarrow> keys_distinct (fst sys) \<Longrightarrow> keys_distinct (fst sys')"
  by (auto simp: initialize_storage_def generateSampleFiles_def wipeStorage_def Let_def bnd_Inr_iff
      split: if_splits dest!: refresh_stats_keys)

lemma telephony_keys: 
  "initialize_telephony t sys dir = Inr (ok, t', sys') \<Longrightarrow> keys_distinct (fst sys) \<Longrightarrow> keys_distinct (fst sys')"
  "toggleSim t sys e = (ok, t', sys') \<Longrightarrow> keys_distinct (fst sys) \<Longrightarrow> keys_distinct (fst sys')"
  "toggleWifi t sys e = (ok, t', sys') \<Longrightarrow> keys_distinct (fst sys) \<Longrightarrow> keys_distinct (fst sys')"
  by (auto simp: initialize_telephony_def toggleSim_def toggleWifi_def telephony_updateProperties_def Let_def bnd_Inr_iff keeps_keys split: if_splits)

lemma bluetooth_keys: 
  "initialize_bluetooth t sys dir = Inr (ok, t', sys') \<Longrightarrow> keys_distinct (fst sys) \<Longrightarrow> keys_distinct (fst sys')"
  "toggleBluetooth t sys e = (ok, t', sys') \<Longrightarrow> keys_distinct (fst sys) \<Longrightarrow> keys_distinct (fst sys')"
  by (auto simp: initialize_bluetooth_def toggleBluetooth_def bluetooth_updateProperties_def bluetooth_files_def Let_def bnd_Inr_iff keeps_keys split: if_splits)

lemma drm_keys: 
  "initialize_drm t sys dir = (ok, t', sys') \<Longrightarrow> keys_distinct (fst sys) \<Longrightarrow> keys_distinct (fst sys')"
  "toggleDrm t sys e = (t', sys') \<Longrightarrow> keys_distinct (fst sys) \<Longrightarrow> keys_distinct (fst sys')"
  by (auto simp: initialize_drm_def toggleDrm_def drm_registerSystemProperties_def createMockDeviceNodes_def Let_def bnd_Inr_iff keeps_keys split: if_splits)

lemma keystore_keys: 
  "initialize_keystore n t sys dir = (ok, t', sys') \<Longrightarrow> keys_distinct (fst sys) \<Longrightarrow> keys_distinct (fst sys')"
  "enrollFingerprint n t sys i nm = (ok, t', sys') \<Longrightarrow> keys_distinct (fst sys) \<Longrightarrow> keys_distinct (fst sys')"
  "toggleBiometrics t sys e = (t', sys') \<Longrightarrow> keys_distinct (fst sys) \<Longrightarrow> keys_distinct (fst sys')"
  by (auto simp: initialize_keystore_def enrollFingerprint_def toggleBiometrics_def keystore_registerSystemProperties_def keystore_nodes_def Let_def bnd_Inr_iff keeps_keys split: if_splits)

lemma gpu_keys: 
  "initialize_gpu t sys dir = (ok, t', sys') \<Longrightarrow> keys_distinct (fst sys) \<Longrightarrow> keys_distinct (fst sys')"
  by (auto simp: initialize_gpu_def gpu_registerSystemProperties_def createMockGpuNodes_def Let_def bnd_Inr_iff keeps_keys split: if_splits)

lemma usb_keys: 
  "initialize_usb s t sys dir p = (ok, t', sys') \<Longrightarrow> keys_distinct (fst sys) \<Longrightarrow> keys_distinct (fst sys')"
  by (auto simp: initialize_usb_def usb_registerSystemProperties_def createMockUsbNodes_def Let_def bnd_Inr_iff keeps_keys split: if_splits prod.splits)

lemma provision_look [simp]: "fst (provisionFiles n sys) = fst sys"
proof -
  have s: "fst (sys_provision p t x) = fst x" for p t x
    using sys_files_look(2) [of p 438 t x] by (simp add: sys_provision_def case_prod_beta)
  show ?thesis by (simp add: provisionFiles_def s Let_def)
qed

lemma network_keys:
  assumes "keys_distinct (fst sys)"
  shows "keys_distinct (fst (snd (snd (initialize_network a b c n sys dir d1 d2))))"
proof -
  have "keys_distinct (fst (sys_mkdir p 493 (network_registerSystemProperties m (provisionFiles m sys))))" for p m
    using assms by (simp add: network_registerSystemProperties_def keeps_keys)
  then show ?thesis
    using assms by (simp add: initialize_network_def Let_def case_prod_beta)
qed


section \<open>The boot manager\<close>

definition boot_keys :: "boot \<Rightarrow> bool" where
  "boot_keys b \<longleftrightarrow> keys_distinct (bmProps b)"

lemma boot_setprop_keys [keeps_keys]: "boot_keys b \<Longrightarrow> boot_keys (boot_setprop b k v)"
  using setProperty_keys [of "bmProps b" "bmHost b" k v]
  by (simp add: boot_keys_def boot_setprop_def case_prod_beta)

lemma boot_frame_keys [keeps_keys]:
  "boot_keys (logBoot m b) = boot_keys b" "boot_keys (createDir b p) = boot_keys b"
  "boot_keys (set_phase ph b) = boot_keys b" "boot_keys (set_services b ss) = boot_keys b"
  "boot_keys (b\<lparr>bmIsBooting := x\<rparr>) = boot_keys b" "boot_keys (b\<lparr>bmNextPid := n\<rparr>) = boot_keys b"
  "boot_keys (startBootSequence b) = boot_keys b"
  "boot_keys (b\<lparr>bmParser := p'\<rparr>) = boot_keys b"
  by (simp_all add: boot_keys_def logBoot_def createDir_def set_phase_def set_services_def startBootSequence_def)

lemma startService_keys [keeps_keys]: "boot_keys b \<Longrightarrow> boot_keys (snd (startService nm b))"
  by (simp add: startService_def Let_def keeps_keys split: option.splits)

lemma stopService_keys [keeps_keys]: "boot_keys b \<Longrightarrow> boot_keys (snd (stopService nm b))"
  by (simp add: stopService_def Let_def keeps_keys split: option.splits)

lemma start_classes_keys [keeps_keys]: "boot_keys b \<Longrightarrow> boot_keys (start_classes w m b)"
  unfolding start_classes_def by (rule foldl_inv) (simp_all add: start_at_def Let_def keeps_keys)

lemma run_command_keys [keeps_keys]: "boot_keys b \<Longrightarrow> boot_keys (run_command dir b cmd)"
  by (simp add: run_command_def run_mkdir_def run_setprop_def Let_def keeps_keys split: option.splits)

lemma triggers_keys [keeps_keys]: "boot_keys b \<Longrightarrow> boot_keys (executeTriggerActions trig dir b)"
  unfolding executeTriggerActions_def by (rule foldl_inv) (simp_all add: keeps_keys)

lemma stopBoot_keys [keeps_keys]: "boot_keys b \<Longrightarrow> boot_keys (stopBootSequence b)"
proof -
  assume "boot_keys b"
  then have "boot_keys (foldl stop_at (b\<lparr>bmIsBooting := False\<rparr>) xs)" for xs
    by (intro foldl_inv [where P = boot_keys]) (simp_all add: stop_at_def Let_def keeps_keys)
  then show ?thesis
    by (simp add: stopBootSequence_def Let_def keeps_keys)
qed

lemma load_init_keys: "loadInitFromVfs r stk b = Inr (n, b') \<Longrightarrow> boot_keys b \<Longrightarrow> boot_keys b'"
  by (auto simp: loadInitFromVfs_def bnd_Inr_iff boot_keys_def)

text \<open>The phases of the worker are steps of the boot manager.\<close>

lemma triggers_ok: "boot_ok b \<Longrightarrow> boot_ok (executeTriggerActions trig dir b)"
  unfolding executeTriggerActions_def by (rule foldl_inv) (simp_all add: run_command_ok)

lemma boot_ok_frames: 
  "boot_ok (logBoot m b) = boot_ok b" "boot_ok (createDir b p) = boot_ok b" "boot_ok (set_phase ph b) = boot_ok b"
  "boot_ok (boot_setprop b k v) = boot_ok b" "boot_ok (b\<lparr>bmIsBooting := x\<rparr>) = boot_ok b"
  "boot_ok (b\<lparr>bmProps := s, bmHost := h\<rparr>) = boot_ok b" "boot_ok (b\<lparr>bmHost := h\<rparr>) = boot_ok b" "boot_ok (b\<lparr>bmProps := s\<rparr>) = boot_ok b"
  "boot_ok (startBootSequence b) = boot_ok b"
  by (simp_all add: boot_ok_def boot_frame startBootSequence_def)

lemma phases_ok:
  assumes "boot_ok b"
  shows "boot_ok (boot_phase1 dir b)" "boot_ok (boot_phase2 net dir b)" "boot_ok (boot_phase3 dir b)" "boot_ok (boot_phase4 b)"
proof -
  have dirs: "boot_ok b \<Longrightarrow> boot_ok (foldl (\<lambda>b d. createDir b (dir @ d)) b ds)" for b ds
    by (rule foldl_inv) (simp_all add: boot_ok_frames)
  show "boot_ok (boot_phase1 dir b)"
    using assms dirs by (simp add: boot_phase1_def Let_def triggers_ok boot_ok_frames del: foldl.simps)
  show "boot_ok (boot_phase2 net dir b)" "boot_ok (boot_phase3 dir b)" "boot_ok (boot_phase4 b)"
    using assms
    by (simp_all add: boot_phase2_def boot_phase3_def boot_phase4_def Let_def triggers_ok start_classes_ok boot_ok_frames
        split: prod.splits)
qed

lemma phases_keys:
  assumes "boot_keys b"
  shows "boot_keys (boot_phase1 dir b)" "boot_keys (boot_phase2 net dir b)" "boot_keys (boot_phase3 dir b)" "boot_keys (boot_phase4 b)"
proof -
  have dirs: "boot_keys b \<Longrightarrow> boot_keys (foldl (\<lambda>b d. createDir b (dir @ d)) b ds)" for b ds
    by (rule foldl_inv) (simp_all add: keeps_keys)
  show "boot_keys (boot_phase1 dir b)"
    using assms dirs by (simp add: boot_phase1_def Let_def keeps_keys del: foldl.simps)
  have s: "boot_keys b \<Longrightarrow> start_service x y z (bmProps b) (bmHost b) dir = (ok, s, h) \<Longrightarrow> boot_keys (b\<lparr>bmProps := s, bmHost := h\<rparr>)"
    for b x y z ok s h
    using start_service_keys [of "bmProps b" x y z "bmHost b" dir] by (simp add: boot_keys_def)
  show "boot_keys (boot_phase2 net dir b)"
    using assms by (auto simp: boot_phase2_def Let_def keeps_keys split: prod.splits intro!: triggers_keys start_classes_keys s)
  show "boot_keys (boot_phase3 dir b)" "boot_keys (boot_phase4 b)"
    using assms by (simp_all add: boot_phase3_def boot_phase4_def Let_def keeps_keys)
qed

section \<open>Screen, audio, display\<close>

definition screen_ok :: "vfb \<Rightarrow> bool" where
  "screen_ok v \<longleftrightarrow> (case vfMmap v of None \<Rightarrow> True
     | Some (hdr, px) \<Rightarrow> vfStride v = vfWidth v \<and> length px = unat (vfWidth v * vfHeight v))"

lemma for_each_length:
  "for_each xs f p = Inr p' \<Longrightarrow> (\<And>x p p'. f x p = Inr p' \<Longrightarrow> length p' = length p) \<Longrightarrow> length p' = length p"
  by (induction xs arbitrary: p) (auto simp: bnd_Inr_iff)

lemma screen_init: "screen_ok (snd (initialize_vfb a b c v w h dir))"
  by (simp add: screen_ok_def initialize_vfb_def close_vfb_def Let_def)

lemma screen_pixels:
  "screen_ok v \<Longrightarrow> vfMmap v = Some (hdr, px) \<Longrightarrow> length px' = length px \<Longrightarrow> screen_ok (v\<lparr>vfMmap := Some (hdr', px')\<rparr>)"
  by (simp add: screen_ok_def)

lemma screen_notify: "screen_ok (notifyFrameUpdated v) = screen_ok v"
  by (auto simp: screen_ok_def notifyFrameUpdated_def split: option.splits)

lemma disc_pixel_length: "disc_pixel x c r row dy i p = Inr p' \<Longrightarrow> length p' = length p"
  by (auto simp: disc_pixel_def bnd_Inr_iff split: if_splits dest: px_write_length)

lemma screen_circle:
  assumes "screen_ok v" "drawTouchCircle v x y c r = Inr v'"
  shows "screen_ok v'"
proof (cases "vfMmap v")
  case None
  then show ?thesis using assms by (simp add: drawTouchCircle_def)
next
  case (Some m)
  then obtain hdr px where m: "vfMmap v = Some (hdr, px)" by (cases m) simp
  then obtain ys xs row px' where v': "v' = v\<lparr>vfMmap := Some (next_frame hdr, px')\<rparr>"
    and "for_each ys (\<lambda>py px. bnd (int_ret (py - y)) (\<lambda>dy. for_each xs (disc_pixel x c row (row_offset py (vfStride v)) dy) px)) px = Inr px'"
    using assms(2) by (auto simp: drawTouchCircle_def bnd_Inr_iff Let_def)
  then have "length px' = length px"
    by (auto simp: bnd_Inr_iff elim!: for_each_length dest: disc_pixel_length)
  then show ?thesis
    unfolding v' by (rule screen_pixels [OF assms(1) m])
qed

lemma screen_clear: "screen_ok v \<Longrightarrow> clearScreen v c = Inr v' \<Longrightarrow> screen_ok v'"
  by (auto simp: clearScreen_def Let_def split: option.splits if_splits intro!: screen_pixels)

lemma fb_write_length: "fb_write w y x c p = Inr p' \<Longrightarrow> length p' = length p"
  by (auto simp: fb_write_def bnd_Inr_iff dest: px_write_length)


lemma backdrop_length:
  assumes "backdrop w h a b c d p = Inr p'"
  shows "length p' = length p"
proof -
  have "length q' = length q"
    if "for_each xs (\<lambda>x px. if x < 0 \<or> x \<ge> w then Inr px else fb_write w y x k px) q = Inr q'" for xs y k q q'
    using that by (rule for_each_length) (auto split: if_splits dest: fb_write_length)
  then show ?thesis
    using assms by (auto simp: backdrop_def bnd_Inr_iff split: if_splits elim!: for_each_length)
qed

lemma rasterize_length:
  assumes "rasterize F t area w a b c d p = Inr p'"
  shows "length p' = length p"
proof -
  have px: "length q' = length q"
    if "bnd (triangle_pixel F t area y x) (\<lambda>c. case c of Some c \<Rightarrow> fb_write w y x c q | None \<Rightarrow> Inr q) = Inr q'" for x y q q'
    using that by (auto simp: bnd_Inr_iff split: option.splits dest: fb_write_length)
  have "length q' = length q"
    if "for_each xs (\<lambda>x px. bnd (triangle_pixel F t area y x) (\<lambda>c. case c of Some c \<Rightarrow> fb_write w y x c px | None \<Rightarrow> Inr px)) q = Inr q'"
    for xs y q q'
    using that px by (rule for_each_length)
  then show ?thesis
    using assms unfolding rasterize_def by (rule for_each_length [rotated])
qed

lemma screen_triangle:
  assumes "screen_ok v" "renderTestTriangleToVfb F g v = Inr (ok, g', v')"
  shows "screen_ok v'"
proof (cases "vfMmap v")
  case None
  then show ?thesis using assms by (simp add: renderTestTriangleToVfb_def)
next
  case (Some m)
  then obtain hdr px where m: "vfMmap v = Some (hdr, px)" by (cases m) simp
  then have "v' = v \<or> (\<exists>px'. length px' = length px \<and> v' = notifyFrameUpdated (v\<lparr>vfMmap := Some (hdr, px')\<rparr>))"
    using assms(2) by (auto simp: renderTestTriangleToVfb_def Let_def bnd_Inr_iff split: if_splits
        dest!: backdrop_length rasterize_length)
  then show ?thesis
    using assms(1) screen_pixels [OF assms(1) m] by (auto simp: screen_notify)
qed

lemma screen_clear_color: "screen_ok v \<Longrightarrow> clearVfbColor c g v = Inr (ok, g', v') \<Longrightarrow> screen_ok v'"
  by (auto simp: clearVfbColor_def bnd_Inr_iff split: if_splits dest: screen_clear)

definition audio_shape :: "audio \<Rightarrow> bool" where
  "audio_shape a \<longleftrightarrow> audio_ok a \<or> (\<not> auIsRunning a \<and> auRing a = [])"

lemma audio_init: "audio_shape (fst (initialize_audio a h dir r c))"
  using initialize_audio_ok [of a h dir r c] by (simp add: audio_shape_def)

lemma audio_shutdown: "audio_shape (shutdown_audio a)"
  by (simp add: audio_shape_def shutdown_audio_def)

lemma audio_write: "audio_shape a \<Longrightarrow> writeSamples a (Some xs) = Inr (n, a') \<Longrightarrow> audio_shape a'"
  using write_ring [OF _ refl, of a xs] by (auto simp: audio_shape_def) (auto simp: writeSamples_def)

lemma audio_read: "audio_shape a \<Longrightarrow> readSamples a True k = Inr (n, out, a') \<Longrightarrow> audio_shape a'"
  using read_ring [of a k] by (auto simp: audio_shape_def) (auto simp: readSamples_def)

lemma audio_chime: "audio_shape a \<Longrightarrow> synthesizeChime D a t = Inr (ok, a') \<Longrightarrow> audio_shape a'"
  by (auto simp: synthesizeChime_def bnd_Inr_iff Let_def split: if_splits dest: audio_write)

definition thread_ok :: "display \<Rightarrow> bool" where
  "thread_ok d \<longleftrightarrow> dpJoinable d = dpRunning d"

lemma thread_steps:
  "thread_ok d \<Longrightarrow> startTestRender d = Inr d' \<Longrightarrow> thread_ok d'" "thread_ok d \<Longrightarrow> thread_ok (stopTestRender d)"
  "thread_ok d \<Longrightarrow> thread_ok (setSurface s d)" "thread_ok d \<Longrightarrow> thread_ok (clearSurface d)"
  "thread_ok d \<Longrightarrow> thread_ok (setVfbMode b d)"
  by (auto simp: thread_ok_def startTestRender_def stopTestRender_def setSurface_def clearSurface_def setVfbMode_def
      Let_def split: if_splits option.splits)

lemma camera_init:
  assumes "camera_ok c" "initialize_camera c sys dir = Inr (ok, c', sys')"
  shows "camera_ok c'"
proof -
  have l: "length (cmCameras c) = 2" using assms(1) by (simp add: camera_ok_def)
  obtain c0 where c0: "c0 = upd_cam 1 (setup_cam 1 ''Virtual Front Camera (HAL3)'' 640 480 (dir @ ''/tmp/v4l2_video1.raw''))
      (upd_cam 0 (setup_cam 0 ''Virtual Back Camera (HAL3)'' 1280 720 (dir @ ''/tmp/v4l2_video0.raw'')) (c\<lparr>cmSandboxDir := dir\<rparr>))"
    by blast
  then have "c' = c0\<lparr>cmInitialized := True\<rparr>"
    using assms(2) by (auto simp: initialize_camera_def Let_def bnd_Inr_iff)
  moreover have "\<not> cdStreaming (cmCameras c0 ! i)" if "i < 2" for i
    using that l by (cases "i = 0") (auto simp: c0 setup_cam_def)
  ultimately show ?thesis
    using assms(1) by (simp add: camera_ok_def c0)
qed

lemma camera_start: "camera_ok c \<Longrightarrow> startStream z i w h c sys = Inr (ok, c', sys') \<Longrightarrow> camera_ok c'"
  using startStream_ok [of c z i w h sys] by auto

lemma drm_steps:
  assumes "drSessions d = []"
  shows "drSessions (fst (snd (initialize_drm d sys dir))) = []" "drSessions (fst (toggleDrm d sys e)) = []"
    "drSessions (snd (runCryptoSelfTest now d)) = []"
  using assms by (auto simp: initialize_drm_def toggleDrm_def runCryptoSelfTest_def openSession_def decryptSample_def
      closeSession_def Let_def split: option.splits)

definition keystore_keys_ok :: "keystore \<Rightarrow> bool" where
  "keystore_keys_ok k \<longleftrightarrow> distinct (map fst (ksKeys k)) \<and> distinct (map fst (ksFingers k))"

lemma keystore_steps:
  assumes "keystore_keys_ok k"
  shows "keystore_keys_ok (fst (snd (initialize_keystore now k sys dir)))"
    "keystore_keys_ok (fst (snd (enrollFingerprint now k sys i nm)))"
    "keystore_keys_ok (snd (authenticateFingerprint now k m))"
    "keystore_keys_ok (fst (toggleBiometrics k sys e))"
  using assms by (auto simp: keystore_keys_ok_def initialize_keystore_def seedDefaultKeysAndTemplates_def put_key_def
      put_finger_def enrollFingerprint_def authenticateFingerprint_def toggleBiometrics_def Let_def distinct_update
      split: option.splits list.splits)


text \<open>The threads behind the entry points.\<close>

lemma client_keys: "keys_distinct s \<Longrightarrow> serve_client s h sent = Inr (s', h', rep) \<Longrightarrow> keys_distinct s'"
proof -
  have set: "keys_distinct s \<Longrightarrow> set_and_reply s h k v = (s', h', r) \<Longrightarrow> keys_distinct s'" for s h k v s' h' r
    using setProperty_keys [of s h k v] by (auto simp: set_and_reply_def case_prod_beta)
  show "keys_distinct s \<Longrightarrow> serve_client s h sent = Inr (s', h', rep) \<Longrightarrow> keys_distinct s'"
    by (auto simp: serve_client_def handleClient_def handle_legacy_def handle_setprop2_def handle_text_def Let_def
        fault_simps split: if_splits option.splits dest: set)
qed

lemma render_round_thread:
  assumes "thread_ok d" "render_round F lk v d = Inr d'"
  shows "thread_ok d'"
proof (cases "dpRunning d \<and> lk \<and> dpWindow d \<noteq> None")
  case False
  then show ?thesis
    using assms by (cases "dpWindow d") (simp_all add: render_round_def split: if_splits)
next
  case True
  then obtain win e where "bnd e (\<lambda>px. Inr (d\<lparr>dpWindow := Some (win\<lparr>wnPixels := px\<rparr>),
      dpFrameCount := dpFrameCount d + 1, dpStep := dpStep d + 1\<rparr>)) = Inr d'"
    using assms(2) by (cases "dpWindow d") (simp_all add: render_round_def)
  then show ?thesis
    using assms(1) by (cases e) (auto simp: thread_ok_def)
qed

lemma painted_cells_length:
  assumes "for_each ys (\<lambda>y px. for_each xs (\<lambda>x px. bnd (c x y) (\<lambda>k. px_write px (ix x y) k)) px) p = Inr p'"
  shows "length p' = length p"
proof -
  have "length q' = length q" if "for_each xs (\<lambda>x px. bnd (c x y) (\<lambda>k. px_write px (ix x y) k)) q = Inr q'" for y q q'
    using that by (rule for_each_length) (auto simp: bnd_Inr_iff dest: px_write_length)
  then show ?thesis
    using assms by (rule for_each_length [rotated])
qed

lemma pulse_bar_length:
  assumes "render_pulse_bar glow w h st p = Inr p'"
  shows "length p' = length p"
proof -
  have row: "length q' = length q"
    if "for_each xs (\<lambda>x px. bnd (glow x) (\<lambda>k. px_write px (cell st y x) k)) q = Inr q'" for xs y q q'
    using that by (rule for_each_length) (auto simp: bnd_Inr_iff dest: px_write_length)
  show ?thesis
    using assms unfolding render_pulse_bar_def Let_def
    by (rule for_each_length) (auto split: if_splits dest: row)
qed

lemma animation_screen:
  assumes "screen_ok v" "boot_animation_round F t g v = Inr v'"
  shows "screen_ok v'"
proof (cases "grAnimRunning g \<and> vfMmap v \<noteq> None")
  case False
  then show ?thesis using assms by (auto simp: boot_animation_round_def split: if_splits option.splits)
next
  case True
  then obtain hdr px px' where m: "vfMmap v = Some (hdr, px)" and v': "v' = v\<lparr>vfMmap := Some (hdr, px')\<rparr>"
    and r: "renderBootAnimationFrame F (vfWidth v) (vfHeight v) (vfStride v) t px = Inr px'"
    using assms(2) by (auto simp: boot_animation_round_def bnd_Inr_iff)
  have "length px' = length px"
    using r by (auto simp: renderBootAnimationFrame_def render_background_def Let_def bnd_Inr_iff split: if_splits
        dest!: pulse_bar_length painted_cells_length)
  then show ?thesis
    unfolding v' by (rule screen_pixels [OF assms(1) m])
qed

lemma camera_frames:
  "generator_rounds i w h p n rounds buf (c, hst) = Inr (c', hst') \<Longrightarrow> camera_ok c \<Longrightarrow> i < 2 \<Longrightarrow> camera_ok c'"
proof (induction rounds arbitrary: n buf c hst)
  case (Cons fps rounds)
  have "camera_ok (upd_cam i (\<lambda>d. d\<lparr>cdFrameCount := m, cdFps := r\<rparr>) c)" for m r
    using Cons.prems(2,3) by (simp add: camera_ok_def)
  then show ?case
    using Cons by (auto simp: bnd_Inr_iff Let_def split: option.splits)
qed simp

lemma camera_thread: "camera_ok c \<Longrightarrow> i < 2 \<Longrightarrow> generatorLoop i rounds (c, h) = Inr (c', h') \<Longrightarrow> camera_ok c'"
  by (auto simp: generatorLoop_def Let_def split: if_splits dest: camera_frames)

end
