(* ===== verification/Engine_Steps.thy ===== *)
theory Engine_Steps
  imports Engine_Invariants
begin

text \<open>
  The process under every sequence of calls from Java and of steps of its own threads: a step relation
  with one rule per entry point that changes the state, and one per thread that changes a component
  with an invariant. The results of system calls are arbitrary in every step.
\<close>

definition runtime_ok :: "'f runtime \<Rightarrow> bool" where
  "runtime_ok rt \<longleftrightarrow> rtBlockDev rt = map_option mDev (rtReader rt) \<and> boot_ok (rtBoot rt) \<and> boot_keys (rtBoot rt)
     \<and> screen_ok (rtVfb rt) \<and> audio_shape (rtAudio rt) \<and> thread_ok (rtDisplay rt) \<and> camera_ok (rtCamera rt)
     \<and> drSessions (rtDrm rt) = [] \<and> grBuffers (rtGralloc rt) = [] \<and> keystore_keys_ok (rtKeystore rt)"

named_theorems call_ok

lemma sys_frames [simp]:
  "boot_ok (b\<lparr>bmProps := s\<rparr>) = boot_ok b" "boot_ok (b\<lparr>bmHost := h\<rparr>) = boot_ok b"
  "boot_keys (b\<lparr>bmProps := s\<rparr>) = keys_distinct s" "boot_keys (b\<lparr>bmHost := h\<rparr>) = boot_keys b"
  by (simp_all add: boot_ok_frames boot_keys_def)

lemma set_sys_ok: "runtime_ok rt \<Longrightarrow> keys_distinct (fst sys) \<Longrightarrow> runtime_ok (set_sys sys rt)"
  by (simp add: runtime_ok_def set_sys_def)

lemma set_host_ok: "runtime_ok rt \<Longrightarrow> runtime_ok (set_host h rt)"
  by (simp add: runtime_ok_def set_host_def)

lemma rt_sys_keys: "runtime_ok rt \<Longrightarrow> keys_distinct (fst (rt_sys rt))"
  by (simp add: runtime_ok_def rt_sys_def boot_keys_def)

lemma on_sys_result:
  assumes "on_sys look store f rt = Inr (ok, rt')"
  obtains c sys where "f (look rt) (rt_sys rt) = Inr (ok, c, sys)" "rt' = store c (set_sys sys rt)"
  using assms by (auto simp: on_sys_def bnd_Inr_iff)

text \<open>A component without an invariant of its own only has to keep the table.\<close>

lemma on_sys_ok:
  assumes "on_sys look store f rt = Inr (ok, rt')" "runtime_ok rt"
    and "\<And>ok c sys. f (look rt) (rt_sys rt) = Inr (ok, c, sys) \<Longrightarrow> keys_distinct (fst sys)"
    and "\<And>c rt. runtime_ok rt \<Longrightarrow> runtime_ok (store c rt)"
  shows "runtime_ok rt'"
proof -
  obtain c sys where "f (look rt) (rt_sys rt) = Inr (ok, c, sys)" "rt' = store c (set_sys sys rt)"
    using assms(1) by (rule on_sys_result)
  then show ?thesis
    using assms(2-4) by (blast intro: set_sys_ok)
qed

lemma free_components [simp]:
  "runtime_ok (rt\<lparr>rtSandbox := a\<rparr>) = runtime_ok rt" "runtime_ok (rt\<lparr>rtSpawner := b\<rparr>) = runtime_ok rt"
  "runtime_ok (rt\<lparr>rtBroker := c\<rparr>) = runtime_ok rt" "runtime_ok (rt\<lparr>rtInput := d\<rparr>) = runtime_ok rt"
  "runtime_ok (rt\<lparr>rtNetwork := e\<rparr>) = runtime_ok rt" "runtime_ok (rt\<lparr>rtLogcat := g\<rparr>) = runtime_ok rt"
  "runtime_ok (rt\<lparr>rtBattery := i\<rparr>) = runtime_ok rt" "runtime_ok (rt\<lparr>rtSensor := j\<rparr>) = runtime_ok rt"
  "runtime_ok (rt\<lparr>rtStorage := k\<rparr>) = runtime_ok rt" "runtime_ok (rt\<lparr>rtTelephony := l\<rparr>) = runtime_ok rt"
  "runtime_ok (rt\<lparr>rtBluetooth := m\<rparr>) = runtime_ok rt" "runtime_ok (rt\<lparr>rtGpu := n\<rparr>) = runtime_ok rt"
  "runtime_ok (rt\<lparr>rtUsb := p\<rparr>) = runtime_ok rt" "runtime_ok (rt\<lparr>rtLiveLog := q\<rparr>) = runtime_ok rt"
  "runtime_ok (rt\<lparr>rtLiveActive := r\<rparr>) = runtime_ok rt" "runtime_ok (rt\<lparr>rtFds := s\<rparr>) = runtime_ok rt"
  by (simp_all add: runtime_ok_def)

lemma boot_component: "runtime_ok rt \<Longrightarrow> boot_ok b \<Longrightarrow> boot_keys b \<Longrightarrow> runtime_ok (rt\<lparr>rtBoot := b\<rparr>)"
  by (simp add: runtime_ok_def)

lemma guarded_components:
  "runtime_ok rt \<Longrightarrow> screen_ok v \<Longrightarrow> runtime_ok (rt\<lparr>rtVfb := v\<rparr>)"
  "runtime_ok rt \<Longrightarrow> audio_shape a \<Longrightarrow> runtime_ok (rt\<lparr>rtAudio := a\<rparr>)"
  "runtime_ok rt \<Longrightarrow> thread_ok d \<Longrightarrow> runtime_ok (rt\<lparr>rtDisplay := d\<rparr>)"
  "runtime_ok rt \<Longrightarrow> camera_ok c \<Longrightarrow> runtime_ok (rt\<lparr>rtCamera := c\<rparr>)"
  "runtime_ok rt \<Longrightarrow> grBuffers g = [] \<Longrightarrow> runtime_ok (rt\<lparr>rtGralloc := g\<rparr>)"
  "runtime_ok rt \<Longrightarrow> drSessions m = [] \<Longrightarrow> runtime_ok (rt\<lparr>rtDrm := m\<rparr>)"
  "runtime_ok rt \<Longrightarrow> keystore_keys_ok k \<Longrightarrow> runtime_ok (rt\<lparr>rtKeystore := k\<rparr>)"
  by (simp_all add: runtime_ok_def)

lemma runtime_parts:
  "runtime_ok rt \<Longrightarrow> screen_ok (rtVfb rt)" "runtime_ok rt \<Longrightarrow> audio_shape (rtAudio rt)"
  "runtime_ok rt \<Longrightarrow> thread_ok (rtDisplay rt)" "runtime_ok rt \<Longrightarrow> camera_ok (rtCamera rt)"
  "runtime_ok rt \<Longrightarrow> boot_ok (rtBoot rt)" "runtime_ok rt \<Longrightarrow> boot_keys (rtBoot rt)"
  "runtime_ok rt \<Longrightarrow> grBuffers (rtGralloc rt) = []" "runtime_ok rt \<Longrightarrow> drSessions (rtDrm rt) = []"
  "runtime_ok rt \<Longrightarrow> keystore_keys_ok (rtKeystore rt)"
  by (simp_all add: runtime_ok_def)

lemmas component_rules = guarded_components runtime_parts boot_component set_sys_ok set_host_ok rt_sys_keys

section \<open>Mounting\<close>

text \<open>The entry point mounts exactly the images the component mounts, and keeps the reader with its device.\<close>

lemma open_is_fs_device:
  "openFilesystem f = bnd (fs_device f) (\<lambda>d. case d of None \<Rightarrow> Inr None | Some dev \<Rightarrow> ext4_open dev)"
proof (cases "sparse_create f")
  case None
  then show ?thesis
    by (cases "verifyFileDescriptor (Some f)") (simp_all add: openFilesystem_def fs_device_def)
qed (simp add: openFilesystem_def fs_device_def)

lemma ext4_open_dev: "ext4_open dev = Inr (Some r) \<Longrightarrow> mDev r = dev"
  by (auto simp: ext4_open_def Let_def bnd_Inr_iff init_fields_def split: if_splits prod.splits)

lemma native_open:
  "nativeOpenFilesystem f rt =
     bnd (openFilesystem f) (\<lambda>m. Inr (m \<noteq> None, rt\<lparr>rtReader := m, rtBlockDev := map_option mDev m\<rparr>))"
proof (cases "fs_device f")
  case (Inr d)
  show ?thesis
  proof (cases d)
    case (Some dev)
    show ?thesis
    proof (cases "ext4_open dev")
      case (Inr r)
      then show ?thesis
        using \<open>fs_device f = Inr d\<close> Some ext4_open_dev [of dev]
        by (cases r) (simp_all add: nativeOpenFilesystem_def open_is_fs_device unmounted_def Let_def)
    qed (simp add: \<open>fs_device f = Inr d\<close> Some nativeOpenFilesystem_def open_is_fs_device unmounted_def Let_def)
  qed (simp add: Inr nativeOpenFilesystem_def open_is_fs_device unmounted_def Let_def)
qed (simp add: nativeOpenFilesystem_def open_is_fs_device Let_def)

lemma native_open_path:
  "nativeOpenFilesystemPath openf j rt =
     (if jchars [] j = [] then Inr (False, rt)
      else case openf (jchars [] j) of
        None \<Rightarrow> Inr (False, rt)
      | Some (n, f) \<Rightarrow>
          bnd (openFilesystem f) (\<lambda>m. Inr (m \<noteq> None,
            rt\<lparr>rtReader := m, rtBlockDev := map_option mDev m, rtFds := (if m = None then rtFds rt else n # rtFds rt)\<rparr>)))"
proof -
  have "(let rt' = unmounted (rt\<lparr>rtFds := n # rtFds rt\<rparr>) in
      bnd (fs_device f) (\<lambda>d. case d of
            None \<Rightarrow> Inr (False, rt'\<lparr>rtFds := remove1 n (rtFds rt')\<rparr>)
          | Some dev \<Rightarrow>
              let rt' = rt'\<lparr>rtBlockDev := Some dev\<rparr> in
              bnd (ext4_open dev) (\<lambda>r. case r of
                None \<Rightarrow> Inr (False, rt'\<lparr>rtBlockDev := None, rtFds := remove1 n (rtFds rt')\<rparr>)
              | Some r \<Rightarrow> Inr (True, rt'\<lparr>rtReader := Some r\<rparr>)))) =
    bnd (openFilesystem f) (\<lambda>m. Inr (m \<noteq> None,
        rt\<lparr>rtReader := m, rtBlockDev := map_option mDev m, rtFds := (if m = None then rtFds rt else n # rtFds rt)\<rparr>))" for n f
  proof (cases "fs_device f")
    case (Inr d)
    show ?thesis
    proof (cases d)
      case (Some dev)
      show ?thesis
      proof (cases "ext4_open dev")
        case (Inr r)
        then show ?thesis
          using \<open>fs_device f = Inr d\<close> Some ext4_open_dev [of dev]
          by (cases r) (simp_all add: open_is_fs_device unmounted_def Let_def)
      qed (simp add: \<open>fs_device f = Inr d\<close> Some open_is_fs_device unmounted_def Let_def)
    qed (simp add: Inr open_is_fs_device unmounted_def Let_def)
  qed (simp add: open_is_fs_device Let_def)
  then show ?thesis
    by (auto simp: nativeOpenFilesystemPath_def Let_def split: option.splits)
qed

lemma mounted_ok: "runtime_ok rt \<Longrightarrow> runtime_ok (rt\<lparr>rtReader := m, rtBlockDev := map_option mDev m\<rparr>)"
  by (simp add: runtime_ok_def)

lemma mount_calls [call_ok]:
  assumes "runtime_ok rt"
  shows "nativeOpenFilesystem f rt = Inr (ok, rt') \<Longrightarrow> runtime_ok rt'"
    and "nativeOpenFilesystemPath openf j rt = Inr (ok, rt') \<Longrightarrow> runtime_ok rt'"
    and "runtime_ok (nativeCloseFilesystem rt)"
  using assms mounted_ok [OF assms]
  by (auto simp: native_open native_open_path bnd_Inr_iff nativeCloseFilesystem_def unmounted_def runtime_ok_def
      split: if_splits option.splits)

section \<open>Every entry point keeps the process in shape\<close>

lemma setprop_ok: "runtime_ok rt \<Longrightarrow> runtime_ok (rt_setprop k v rt)"
  unfolding rt_setprop_def by (intro boot_component) (simp_all add: runtime_parts boot_ok_frames keeps_keys)

lemma sandbox_calls [call_ok]:
  assumes "runtime_ok rt"
  shows "runtime_ok (snd (nativePrepareSandbox j rt))"
    and "nativeExtractBinaryFromVfs stk j t rt = Inr (ok, rt') \<Longrightarrow> runtime_ok rt'"
    and "runtime_ok (snd (nativeExecuteCommand net environ j k rt))" "runtime_ok (snd (nativePollProcessOutput rt))"
    and "runtime_ok (snd (nativeIsProcessActive wt rt))" "runtime_ok (nativeKillProcess rt)"
    and "runtime_ok (snd (nativeDeployHookLibrary j rt))"
    and "nativeRunBinderDiagnostic cl pair rt = Inr (s, rt') \<Longrightarrow> runtime_ok rt'"
  using assms
  by (auto simp: nativePrepareSandbox_def nativeExtractBinaryFromVfs_def nativeExecuteCommand_def nativePollProcessOutput_def
      nativeIsProcessActive_def nativeKillProcess_def nativeDeployHookLibrary_def nativeRunBinderDiagnostic_def
      case_prod_beta bnd_Inr_iff set_host_ok split: option.splits)

lemma init_vfb_ok: "runtime_ok rt \<Longrightarrow> runtime_ok (snd (init_vfb io w h dir rt))"
  using screen_init [of "fst io" "fst (snd io)" "snd (snd io)" "rtVfb rt" w h dir]
  by (simp add: init_vfb_def case_prod_beta guarded_components)

lemma screen_calls [call_ok]:
  assumes "runtime_ok rt"
  shows "runtime_ok (snd (nativeInitVfb vio iio w h j rt))"
    and "nativeSendTouchEvent F a x y p rt = Inr rt' \<Longrightarrow> runtime_ok rt'"
    and "nativeDrawTouchFeedback xi yi c r rt = Inr rt' \<Longrightarrow> runtime_ok rt'"
    and "nativeClearVfb c rt = Inr rt' \<Longrightarrow> runtime_ok rt'"
    and "runtime_ok (nativeInjectKeyEvent k a rt)" "runtime_ok (nativeInjectKeyClick k rt)"
  using assms
  by (auto simp: nativeInitVfb_def nativeSendTouchEvent_def nativeDrawTouchFeedback_def nativeClearVfb_def
      nativeInjectKeyEvent_def nativeInjectKeyClick_def Let_def case_prod_beta bnd_Inr_iff
      intro!: set_host_ok guarded_components init_vfb_ok dest: screen_circle screen_clear runtime_parts(1))

lemma display_calls [call_ok]:
  assumes "runtime_ok rt"
  shows "runtime_ok (nativeSetSurface s rt)" "runtime_ok (nativeClearSurface rt)" "runtime_ok (nativeSetVfbMode b rt)"
    and "nativeStartTestRender rt = Inr rt' \<Longrightarrow> runtime_ok rt'" "runtime_ok (nativeStopTestRender rt)"
  using assms thread_steps [OF runtime_parts(3) [OF assms]]
  by (auto simp: nativeSetSurface_def nativeClearSurface_def nativeSetVfbMode_def nativeStartTestRender_def
      nativeStopTestRender_def bnd_Inr_iff guarded_components)

lemma property_calls [call_ok]:
  assumes "runtime_ok rt"
  shows "runtime_ok (snd (nativeStartPropertyService io j t rt))" "runtime_ok (nativeStopPropertyService rt)"
    and "runtime_ok (nativeSetProperty k v rt)"
proof -
  define x where "x = start_service (fst io) (fst (snd io)) (snd (snd io)) (fst (rt_sys rt)) (rt_host rt) (jchars [] j)"
  have k: "keys_distinct (fst (snd x))"
    unfolding x_def by (rule start_service_keys) (rule rt_sys_keys [OF assms])
  have "snd (nativeStartPropertyService io j t rt) = set_sys (snd x) rt
      \<or> snd (nativeStartPropertyService io j t rt) = set_sys (loadFromBuildProp (fst (rt_sys (set_sys (snd x) rt)))
          (rt_host (set_sys (snd x) rt)) (the t)) (set_sys (snd x) rt)"
    by (auto simp: nativeStartPropertyService_def x_def [symmetric] case_prod_beta Let_def split: option.splits)
  moreover have "fst (rt_sys (set_sys (snd x) rt)) = fst (snd x)"
    by (simp add: rt_sys_def set_sys_def)
  ultimately show "runtime_ok (snd (nativeStartPropertyService io j t rt))"
    using assms k by (auto intro!: set_sys_ok load_keys)
  show "runtime_ok (nativeStopPropertyService rt)"
    using assms by (simp add: nativeStopPropertyService_def set_sys_ok stop_service_keys rt_sys_keys)
  show "runtime_ok (nativeSetProperty k v rt)"
    using assms by (simp add: nativeSetProperty_def Let_def setprop_ok)
qed

lemma boot_calls [call_ok]:
  assumes "runtime_ok rt"
  shows "nativeLoadInitFromVfs stk rt = Inr (n, rt') \<Longrightarrow> runtime_ok rt'"
    and "runtime_ok (snd (nativeStartBootSequence rt))" "runtime_ok (nativeStopBootSequence rt)"
    and "runtime_ok (snd (nativeControlService j act rt))"
    and "runtime_ok (snd (nativeRunGsiTestSuite net j rt))"
proof -
  note b = runtime_parts(5,6) [OF assms]
  show "nativeLoadInitFromVfs stk rt = Inr (n, rt') \<Longrightarrow> runtime_ok rt'"
    using assms b by (auto simp: nativeLoadInitFromVfs_def bnd_Inr_iff split: option.splits
        intro!: boot_component dest: load_ok load_init_keys)
  show "runtime_ok (snd (nativeStartBootSequence rt))" "runtime_ok (nativeStopBootSequence rt)"
    using assms b by (simp_all add: nativeStartBootSequence_def nativeStopBootSequence_def boot_component boot_ok_frames
        stop_all_ok keeps_keys)
  have "boot_ok (snd (restartService nm (rtBoot rt)))" "boot_keys (snd (restartService nm (rtBoot rt)))" for nm
    using b by (simp_all add: restartService_def startService_ok stopService_ok keeps_keys)
  then show "runtime_ok (snd (nativeControlService j act rt))"
    using assms b by (simp add: nativeControlService_def Let_def case_prod_beta boot_component startService_ok stopService_ok
        keeps_keys)
  have "snd (testPropertyService (rtBoot rt)) = boot_setprop (rtBoot rt) ''test.gsi.runner'' ''active_ok''"
    by (simp add: testPropertyService_def Let_def)
  then have "fst (snd (runGsiTestSuite net d v (rtBoot rt) s)) = boot_setprop (rtBoot rt) ''test.gsi.runner'' ''active_ok''" for d v s
    by (simp add: runGsiTestSuite_def Let_def case_prod_beta)
  then show "runtime_ok (snd (nativeRunGsiTestSuite net j rt))"
    using assms b boot_component [OF assms, of "boot_setprop (rtBoot rt) ''test.gsi.runner'' ''active_ok''"]
    by (simp add: nativeRunGsiTestSuite_def case_prod_beta boot_ok_frames keeps_keys)
qed

lemma graphics_calls [call_ok]:
  assumes "runtime_ok rt"
  shows "runtime_ok (snd (nativeInitGralloc j rt))" "runtime_ok (nativeStartBootAnimation e rt)"
  using assms runtime_parts(7) [OF assms]
  by (simp_all add: nativeInitGralloc_def init_gralloc_def initialize_gralloc_def nativeStartBootAnimation_def
      start_animation_def startBootAnimation_def stopBootAnimation_def guarded_components)

lemma network_calls [call_ok]:
  assumes "runtime_ok rt"
  shows "runtime_ok (snd (nativeInitNetwork io j p s rt))" "runtime_ok (nativeShutdownNetwork rt)"
  using assms network_keys [OF rt_sys_keys [OF assms]]
  by (simp_all add: nativeInitNetwork_def nativeShutdownNetwork_def case_prod_beta set_sys_ok set_host_ok)

lemma log_calls [call_ok]:
  assumes "runtime_ok rt"
  shows "runtime_ok (snd (nativeInitLogcatBroker net t self j rt))" "runtime_ok (nativeShutdownLogcatBroker rt)"
    and "runtime_ok (nativeClearLogs rt)" "runtime_ok (snd (nativeInjectTestCrash tm now stamp names nt pid tid r rt))"
  using assms
  by (simp_all add: nativeInitLogcatBroker_def nativeShutdownLogcatBroker_def nativeClearLogs_def nativeInjectTestCrash_def
      Let_def case_prod_beta set_host_ok)

lemma audio_calls [call_ok]:
  assumes "runtime_ok rt"
  shows "runtime_ok (snd (nativeInitAudio j rt))" "runtime_ok (nativeShutdownAudio rt)"
    and "nativeReadAudioPcm xs rt = Inr (n, ys, rt') \<Longrightarrow> runtime_ok rt'"
    and "nativeWriteAudioPcm xs rt = Inr (n, rt') \<Longrightarrow> runtime_ok rt'"
    and "nativePlayChime D type rt = Inr (ok, rt') \<Longrightarrow> runtime_ok rt'"
  using assms runtime_parts(2) [OF assms]
  by (auto simp: nativeInitAudio_def init_audio_def nativeShutdownAudio_def nativeReadAudioPcm_def nativeWriteAudioPcm_def
      nativePlayChime_def play_chime_def case_prod_beta bnd_Inr_iff split: option.splits if_splits
      intro!: set_host_ok guarded_components audio_init audio_shutdown dest: audio_read audio_write audio_chime)

lemma sensor_calls [call_ok]:
  assumes "runtime_ok rt"
  shows "nativeInitBattery j rt = Inr (ok, rt') \<Longrightarrow> runtime_ok rt'"
    and "nativeUpdateBattery cap js jh v te ac us rt = Inr (ok, rt') \<Longrightarrow> runtime_ok rt'"
    and "nativeInitSensors F io now j rt = Inr (ok, rt') \<Longrightarrow> runtime_ok rt'"
    and "nativeUpdateSensors F now ax ay az gx gy gz lux prox rt = Inr (ok, rt') \<Longrightarrow> runtime_ok rt'"
  unfolding nativeInitBattery_def init_battery_def nativeUpdateBattery_def nativeInitSensors_def init_sensors_def
    nativeUpdateSensors_def
  using rt_sys_keys [OF assms] assms
  by (auto elim!: on_sys_ok dest: battery_table_keys sensor_keys)

lemma camera_calls [call_ok]:
  assumes "runtime_ok rt"
  shows "nativeInitCamera j rt = Inr (ok, rt') \<Longrightarrow> runtime_ok rt'"
    and "nativeStartCameraStream F i w h rt = Inr (ok, rt') \<Longrightarrow> runtime_ok rt'"
    and "runtime_ok (nativeStopCameraStream F i rt)"
proof -
  note c = runtime_parts(4) [OF assms]
  show "nativeInitCamera j rt = Inr (ok, rt') \<Longrightarrow> runtime_ok rt'"
    unfolding nativeInitCamera_def init_camera_def
    using c assms rt_sys_keys [OF assms] by (elim on_sys_result) (auto intro!: guarded_components set_sys_ok dest: camera_init initialize_camera_keys)
  show "nativeStartCameraStream F i w h rt = Inr (ok, rt') \<Longrightarrow> runtime_ok rt'"
    unfolding nativeStartCameraStream_def
    using c assms rt_sys_keys [OF assms] by (elim on_sys_result) (auto intro!: guarded_components set_sys_ok dest: camera_start startStream_keys)
  show "runtime_ok (nativeStopCameraStream F i rt)"
    using assms stopStream_ok(1) [OF c, of "fDec F 0 0" i "rt_sys rt"] stopStream_keys [OF rt_sys_keys [OF assms], of "fDec F 0 0" i]
    by (simp add: nativeStopCameraStream_def case_prod_beta guarded_components set_sys_ok)
qed

lemma storage_calls [call_ok]:
  assumes "runtime_ok rt"
  shows "nativeInitStorage stk ls j rt = Inr (ok, rt') \<Longrightarrow> runtime_ok rt'"
    and "nativePopulateStorageSamples stk ls rt = Inr (ok, rt') \<Longrightarrow> runtime_ok rt'"
    and "nativeWipeStorage stk ls rt = Inr (ok, rt') \<Longrightarrow> runtime_ok rt'"
  unfolding nativeInitStorage_def init_storage_def nativePopulateStorageSamples_def storage_samples_def nativeWipeStorage_def
  using rt_sys_keys [OF assms] assms
  by (auto simp: bnd_Inr_iff elim!: on_sys_ok intro!: set_sys_ok dest: storage_keys)

lemma radio_calls [call_ok]:
  assumes "runtime_ok rt"
  shows "nativeInitTelephony j rt = Inr (ok, rt') \<Longrightarrow> runtime_ok rt'"
    and "nativeToggleSim e rt = Inr (ok, rt') \<Longrightarrow> runtime_ok rt'" "nativeToggleWifi e rt = Inr (ok, rt') \<Longrightarrow> runtime_ok rt'"
    and "nativeInitBluetooth j rt = Inr (ok, rt') \<Longrightarrow> runtime_ok rt'"
    and "nativeToggleBluetooth e rt = Inr (ok, rt') \<Longrightarrow> runtime_ok rt'" "runtime_ok (snd (nativeStartBleScan rt))"
  unfolding nativeInitTelephony_def init_telephony_def nativeToggleSim_def nativeToggleWifi_def
    nativeInitBluetooth_def init_bluetooth_def nativeToggleBluetooth_def nativeStartBleScan_def
  using rt_sys_keys [OF assms] assms
  by (auto simp: case_prod_beta elim!: on_sys_ok dest: telephony_keys bluetooth_keys)

lemma drm_calls [call_ok]:
  assumes "runtime_ok rt"
  shows "nativeInitDrm j rt = Inr (ok, rt') \<Longrightarrow> runtime_ok rt'" "runtime_ok (nativeToggleDrm e rt)"
    and "runtime_ok (snd (nativeRunDrmCryptoTest now rt))"
proof -
  note d = drm_steps [OF runtime_parts(8) [OF assms]] and s = rt_sys_keys [OF assms]
  show "nativeInitDrm j rt = Inr (ok, rt') \<Longrightarrow> runtime_ok rt'"
    unfolding nativeInitDrm_def init_drm_def
    using d(1) [of "rt_sys rt" "jchars [] j"] assms drm_keys(1) [OF _ s]
    by (elim on_sys_result) (auto intro!: guarded_components set_sys_ok)
  obtain m sys where t: "toggleDrm (rtDrm rt) (rt_sys rt) e = (m, sys)"
    by (cases "toggleDrm (rtDrm rt) (rt_sys rt) e")
  then show "runtime_ok (nativeToggleDrm e rt)"
    using assms d(2) [of "rt_sys rt" e] drm_keys(2) [OF t s] by (simp add: nativeToggleDrm_def guarded_components set_sys_ok)
  show "runtime_ok (snd (nativeRunDrmCryptoTest now rt))"
    using assms d(3) [of now] by (simp add: nativeRunDrmCryptoTest_def case_prod_beta guarded_components)
qed

lemma keystore_calls [call_ok]:
  assumes "runtime_ok rt"
  shows "nativeInitKeystore now j rt = Inr (ok, rt') \<Longrightarrow> runtime_ok rt'"
    and "nativeEnrollFingerprint now i nm rt = Inr (ok, rt') \<Longrightarrow> runtime_ok rt'"
    and "runtime_ok (snd (nativeAuthenticateFingerprint now m rt))" "runtime_ok (nativeToggleBiometrics e rt)"
proof -
  note k = keystore_steps [OF runtime_parts(9) [OF assms]] and s = rt_sys_keys [OF assms]
  show "nativeInitKeystore now j rt = Inr (ok, rt') \<Longrightarrow> runtime_ok rt'"
    unfolding nativeInitKeystore_def init_keystore_def
    using k(1) [of now "rt_sys rt" "jchars [] j"] assms keystore_keys(1) [OF _ s]
    by (elim on_sys_result) (auto intro!: guarded_components set_sys_ok)
  show "nativeEnrollFingerprint now i nm rt = Inr (ok, rt') \<Longrightarrow> runtime_ok rt'"
    unfolding nativeEnrollFingerprint_def
    using k(2) [of now "rt_sys rt" i "jchars [] nm"] assms keystore_keys(2) [OF _ s]
    by (elim on_sys_result) (auto intro!: guarded_components set_sys_ok)
  show "runtime_ok (snd (nativeAuthenticateFingerprint now m rt))"
    using assms k(3) [of now m] by (simp add: nativeAuthenticateFingerprint_def case_prod_beta guarded_components)
  obtain m sys where t: "toggleBiometrics (rtKeystore rt) (rt_sys rt) e = (m, sys)"
    by (cases "toggleBiometrics (rtKeystore rt) (rt_sys rt) e")
  then show "runtime_ok (nativeToggleBiometrics e rt)"
    using assms k(4) [of "rt_sys rt" e] keystore_keys(3) [OF t s]
    by (simp add: nativeToggleBiometrics_def guarded_components set_sys_ok)
qed

lemma gpu_calls [call_ok]:
  assumes "runtime_ok rt"
  shows "nativeInitGpu j rt = Inr (ok, rt') \<Longrightarrow> runtime_ok rt'"
    and "nativeRunGpuTest F rt = Inr (s, rt') \<Longrightarrow> runtime_ok rt'"
    and "nativeClearVfbColor c rt = Inr (ok, rt') \<Longrightarrow> runtime_ok rt'"
proof -
  show "nativeInitGpu j rt = Inr (ok, rt') \<Longrightarrow> runtime_ok rt'"
    unfolding nativeInitGpu_def init_gpu_def
    using assms rt_sys_keys [OF assms] by (auto elim!: on_sys_ok dest: gpu_keys)
  show "nativeRunGpuTest F rt = Inr (s, rt') \<Longrightarrow> runtime_ok rt'"
    using assms by (auto simp: nativeRunGpuTest_def runGpuSelfTest_def bnd_Inr_iff
        intro!: guarded_components dest: screen_triangle [OF runtime_parts(1) [OF assms]])
  show "nativeClearVfbColor c rt = Inr (ok, rt') \<Longrightarrow> runtime_ok rt'"
    using assms by (auto simp: nativeClearVfbColor_def bnd_Inr_iff
        intro!: guarded_components dest: screen_clear_color [OF runtime_parts(1) [OF assms]])
qed

lemma usb_calls [call_ok]:
  assumes "runtime_ok rt"
  shows "nativeInitUsb so j port rt = Inr (ok, rt') \<Longrightarrow> runtime_ok rt'"
    and "runtime_ok (snd (nativeToggleAdbServer so st rt))" "runtime_ok (snd (nativeSimulateAdbConnection rt))"
  unfolding nativeInitUsb_def init_usb_def nativeToggleAdbServer_def nativeSimulateAdbConnection_def
  using assms rt_sys_keys [OF assms]
  by (auto simp: case_prod_beta elim!: on_sys_ok dest: usb_keys)

lemma extract_calls [call_ok]:
  assumes "runtime_ok rt" "nativeExtractEssentialSystem mb stk j rt = Inr (s, rt')"
  shows "runtime_ok rt'"
  using assms by (auto simp: nativeExtractEssentialSystem_def bnd_Inr_iff set_host_ok split: option.splits)

section \<open>The live boot\<close>

lemma live_append_ok [simp]: "runtime_ok (live_appendLog l rt) = runtime_ok rt"
  by (simp add: live_appendLog_def)

lemma live_lines_ok [simp]: "runtime_ok (live_lines ls rt) = runtime_ok rt"
  unfolding live_lines_def by (induction ls arbitrary: rt) simp_all

lemma setprops_ok: "runtime_ok rt \<Longrightarrow> runtime_ok (rt_setprops kvs rt)"
  unfolding rt_setprops_def by (induction kvs arbitrary: rt) (auto simp: setprop_ok)

lemma live_properties_ok: "runtime_ok rt \<Longrightarrow> runtime_ok (live_properties env dir bp rt)"
proof -
  assume rt: "runtime_ok rt"
  define x where "x = start_service (fst (lvPropIo env)) (fst (snd (lvPropIo env))) (snd (snd (lvPropIo env)))
    (fst (rt_sys rt)) (rt_host rt) dir"
  have x: "runtime_ok (set_sys (snd x) rt)"
    using rt start_service_keys [OF rt_sys_keys [OF rt]] by (simp add: x_def set_sys_ok)
  have "runtime_ok (set_sys (loadFromBuildProp (fst (rt_sys (set_sys (snd x) rt))) (rt_host (set_sys (snd x) rt)) t)
      (set_sys (snd x) rt))" for t
    by (rule set_sys_ok [OF x load_keys [OF rt_sys_keys [OF x]]])
  then show "runtime_ok (live_properties env dir bp rt)"
    using x by (simp add: live_properties_def x_def [symmetric] case_prod_beta Let_def setprops_ok)
qed

lemma live_extract_ok: "runtime_ok rt \<Longrightarrow> live_extract env r stk dir rt = Inr rt' \<Longrightarrow> runtime_ok rt'"
  by (auto simp: live_extract_def bnd_Inr_iff set_host_ok)

text \<open>The initialisations of the live boot are those of the entry points.\<close>

lemma jchars_simps [simp]: "jchars d (Some s) = s" "jchars d None = d"
  by (simp_all add: jchars_def)

lemma init_calls:
  assumes "runtime_ok rt"
  shows "init_battery dir rt = Inr (ok, rt') \<Longrightarrow> runtime_ok rt'"
    and "init_sensors F io now dir rt = Inr (ok, rt') \<Longrightarrow> runtime_ok rt'"
    and "init_camera dir rt = Inr (ok, rt') \<Longrightarrow> runtime_ok rt'"
    and "init_storage stk ls dir rt = Inr (ok, rt') \<Longrightarrow> runtime_ok rt'"
    and "storage_samples stk ls rt = Inr (ok, rt') \<Longrightarrow> runtime_ok rt'"
    and "init_telephony dir rt = Inr (ok, rt') \<Longrightarrow> runtime_ok rt'"
    and "init_bluetooth dir rt = Inr (ok, rt') \<Longrightarrow> runtime_ok rt'"
    and "init_drm dir rt = Inr (ok, rt') \<Longrightarrow> runtime_ok rt'"
    and "init_keystore now dir rt = Inr (ok, rt') \<Longrightarrow> runtime_ok rt'"
    and "init_gpu dir rt = Inr (ok, rt') \<Longrightarrow> runtime_ok rt'"
    and "init_usb so dir port rt = Inr (ok, rt') \<Longrightarrow> runtime_ok rt'"
    and "play_chime D ty rt = Inr (ok, rt') \<Longrightarrow> runtime_ok rt'"
proof -
  show "init_battery dir rt = Inr (ok, rt') \<Longrightarrow> runtime_ok rt'"
    using sensor_calls(1) [OF assms, where j = "Some dir"] by (simp add: nativeInitBattery_def)
  show "init_sensors F io now dir rt = Inr (ok, rt') \<Longrightarrow> runtime_ok rt'"
    using sensor_calls(3) [OF assms, where j = "Some dir"] by (simp add: nativeInitSensors_def)
  show "init_camera dir rt = Inr (ok, rt') \<Longrightarrow> runtime_ok rt'"
    using camera_calls(1) [OF assms, where j = "Some dir"] by (simp add: nativeInitCamera_def)
  show "init_storage stk ls dir rt = Inr (ok, rt') \<Longrightarrow> runtime_ok rt'"
    using storage_calls(1) [OF assms, where j = "Some dir"] by (simp add: nativeInitStorage_def)
  show "storage_samples stk ls rt = Inr (ok, rt') \<Longrightarrow> runtime_ok rt'"
    using storage_calls(2) [OF assms] by (simp add: nativePopulateStorageSamples_def)
  show "init_telephony dir rt = Inr (ok, rt') \<Longrightarrow> runtime_ok rt'"
    using radio_calls(1) [OF assms, where j = "Some dir"] by (simp add: nativeInitTelephony_def)
  show "init_bluetooth dir rt = Inr (ok, rt') \<Longrightarrow> runtime_ok rt'"
    using radio_calls(4) [OF assms, where j = "Some dir"] by (simp add: nativeInitBluetooth_def)
  show "init_drm dir rt = Inr (ok, rt') \<Longrightarrow> runtime_ok rt'"
    using drm_calls(1) [OF assms, where j = "Some dir"] by (simp add: nativeInitDrm_def)
  show "init_keystore now dir rt = Inr (ok, rt') \<Longrightarrow> runtime_ok rt'"
    using keystore_calls(1) [OF assms, where j = "Some dir"] by (simp add: nativeInitKeystore_def)
  show "init_gpu dir rt = Inr (ok, rt') \<Longrightarrow> runtime_ok rt'"
    using gpu_calls(1) [OF assms, where j = "Some dir"] by (simp add: nativeInitGpu_def)
  show "init_usb so dir port rt = Inr (ok, rt') \<Longrightarrow> runtime_ok rt'"
    using usb_calls(1) [OF assms, where j = "Some dir"] by (simp add: nativeInitUsb_def)
  show "play_chime D ty rt = Inr (ok, rt') \<Longrightarrow> runtime_ok rt'"
    using audio_calls(5) [OF assms] by (simp add: nativePlayChime_def)
qed

lemma live_hals_ok:
  assumes "runtime_ok rt" "live_hals F D env stk dir rt = Inr rt'"
  shows "runtime_ok rt'"
proof -
  have g: "runtime_ok rt \<Longrightarrow> runtime_ok (snd (init_gralloc dir rt))" "runtime_ok rt \<Longrightarrow> runtime_ok (start_animation rt)"
    "runtime_ok rt \<Longrightarrow> runtime_ok (snd (init_audio dir rt))" for rt :: "'a runtime"
    using graphics_calls(1) [of rt "Some dir"] graphics_calls(2) [of rt True] audio_calls(1) [of rt "Some dir"]
    by (simp_all add: nativeInitGralloc_def nativeInitAudio_def nativeStartBootAnimation_def)
  have "runtime_ok (snd (init_audio dir (start_animation (snd (init_gralloc dir (snd (init_vfb (lvVfbIo env) 720 1280 dir rt)))))))"
    by (intro g init_vfb_ok assms)
  then show ?thesis
    using assms(2) unfolding live_hals_def Let_def
    by (auto simp: bnd_Inr_iff dest!: init_calls [rotated])
qed

lemma live_start_ok:
  assumes "boot_ok b" "boot_keys b"
  shows "boot_ok (live_start env dir b)" "boot_keys (live_start env dir b)"
proof -
  have w: "boot_ok b \<Longrightarrow> boot_ok (bootWorker net g1 g2 g3 dir b)" "boot_keys b \<Longrightarrow> boot_keys (bootWorker net g1 g2 g3 dir b)"
    for net g1 g2 g3 and b :: boot
    by (simp_all add: bootWorker_def Let_def phases_ok phases_keys)
  show "boot_ok (live_start env dir b)" "boot_keys (live_start env dir b)"
    using assms by (simp_all add: live_start_def worker_after_def w boot_ok_frames keeps_keys)
qed

lemma live_supervise_ok:
  assumes "runtime_ok rt" "live_supervise env stk r dir bp cnt rt = Inr (res, rt')"
  shows "runtime_ok rt'"
proof -
  define rt1 where "rt1 = live_lines (hal_lines @ [''[Step 6/6] Executing Android Init Supervisor & Service Class Launch...'']) rt"
  have rt1: "runtime_ok rt1" using assms(1) by (simp add: rt1_def)
  obtain n b where i: "loadInitFromVfs r stk (rtBoot rt1) = Inr (n, b)"
    and rt': "rt' = (live_lines final_lines (rt_setprops final_props
        ((live_appendLog (''  -> Loaded '' @ dec n @ '' init services from VFS init.rc scripts.'') (rt1\<lparr>rtBoot := b\<rparr>))
         \<lparr>rtBoot := live_start env dir b\<rparr>)))\<lparr>rtLiveActive := False\<rparr>"
    using assms(2) unfolding live_supervise_def Let_def bnd_Inr_iff rt1_def [symmetric]
    by (auto simp: live_appendLog_def)
  have b: "boot_ok b" "boot_keys b"
    using load_ok [OF runtime_parts(5) [OF rt1] i] load_init_keys [OF i runtime_parts(6) [OF rt1]] by simp_all
  show ?thesis
    unfolding rt' using rt1 b live_start_ok [OF b] by (simp add: setprops_ok boot_component)
qed

lemma live_run_ok:
  assumes "runtime_ok rt" "live_run F D env stk r dir rt = Inr (res, rt')"
  shows "runtime_ok rt'"
  using assms unfolding live_run_def Let_def bnd_Inr_iff
  by (auto dest!: live_supervise_ok [rotated] live_hals_ok [rotated] live_extract_ok [rotated] simp: live_properties_ok)

text \<open>The live boot and \<^verbatim>\<open>nativeOpenFilesystem\<close> mount the same images.\<close>

definition log_text :: "string list \<Rightarrow> string" where
  "log_text ls = concat (map (\<lambda>l. l @ [nl]) ls)"

lemma log_text_append: "log_text (xs @ ys) = log_text xs @ log_text ys"
  by (simp add: log_text_def)

lemma live_lines_log: "live_lines ls rt = rt\<lparr>rtLiveLog := rtLiveLog rt @ log_text ls\<rparr>"
  unfolding live_lines_def
  by (induction ls arbitrary: rt) (simp_all add: live_appendLog_def log_text_def)

lemma fs_device_opened: "fs_device f = bnd (open_device f) (\<lambda>d. Inr (map_option snd d))"
proof (cases "sparse_create f")
  case None
  then show ?thesis
    by (cases "verifyFileDescriptor (Some f)") (simp_all add: open_device_def fs_device_def)
qed (simp add: open_device_def fs_device_def)

lemma live_fail_log:
  "live_fail msg (rt\<lparr>rtLiveActive := True, rtLiveLog := log_text ls\<rparr>) =
     Inr (live_failed\<lparr>lbBootLog := log_text (ls @ [msg])\<rparr>, rt\<lparr>rtLiveLog := log_text (ls @ [msg]), rtLiveActive := False\<rparr>)"
  by (simp add: live_fail_def live_appendLog_def getLastBootLog_def log_text_def)

lemma boot_follows_mount:
  "\<exists>ls. case openFilesystem f of
     Inl e \<Rightarrow> bootFromFd F D env stk f dir rt = Inl e
   | Inr None \<Rightarrow> bootFromFd F D env stk f dir rt =
       Inr (live_failed\<lparr>lbBootLog := log_text ls\<rparr>, rt\<lparr>rtLiveLog := log_text ls, rtLiveActive := False\<rparr>)
   | Inr (Some r) \<Rightarrow> bootFromFd F D env stk f dir rt =
       live_run F D env stk r dir (rt\<lparr>rtLiveActive := True, rtLiveLog := log_text ls\<rparr>)"
proof (cases "open_device f")
  case (Inl e)
  then show ?thesis
    by (simp add: open_is_fs_device fs_device_opened bootFromFd_def Let_def)
next
  case (Inr d)
  have start: "live_lines head_lines (rt\<lparr>rtLiveActive := True, rtLiveLog := []\<rparr>) =
      rt\<lparr>rtLiveActive := True, rtLiveLog := log_text head_lines\<rparr>"
    by (simp add: live_lines_log)
  show ?thesis
  proof (cases d)
    case None
    then show ?thesis
      using Inr live_fail_log [where ls = head_lines and rt = rt]
      by (auto simp: open_is_fs_device fs_device_opened bootFromFd_def Let_def start)
  next
    case (Some ld)
    obtain line dev where ld: "ld = (line, dev)" by (cases ld)
    define ls where "ls = head_lines @ [line, ''[Step 2/6] Mounting User-Space EXT4 VFS in-memory...'']"
    have b: "bootFromFd F D env stk f dir rt =
      bnd (ext4_open dev) (\<lambda>r. case r of
          None \<Rightarrow> live_fail ''[FAIL] Failed to parse EXT4 superblock or root inode table.''
                    (rt\<lparr>rtLiveActive := True, rtLiveLog := log_text ls\<rparr>)
        | Some r \<Rightarrow> live_run F D env stk r dir (rt\<lparr>rtLiveActive := True, rtLiveLog := log_text ls\<rparr>))"
      using Inr Some by (simp add: ld bootFromFd_def Let_def start live_lines_log ls_def log_text_append cong: option.case_cong)
    have m: "openFilesystem f = ext4_open dev"
      using Inr Some by (simp add: ld open_is_fs_device fs_device_opened)
    show ?thesis
    proof (cases "ext4_open dev")
      case (Inr r)
      then show ?thesis
        unfolding m b using live_fail_log by (cases r) auto
    qed (simp add: m b)
  qed
qed

lemma bootFromFd_ok:
  assumes "runtime_ok rt" "bootFromFd F D env stk f dir rt = Inr (res, rt')"
  shows "runtime_ok rt'"
proof -
  obtain ls where "case openFilesystem f of
     Inl e \<Rightarrow> bootFromFd F D env stk f dir rt = Inl e
   | Inr None \<Rightarrow> bootFromFd F D env stk f dir rt =
       Inr (live_failed\<lparr>lbBootLog := log_text ls\<rparr>, rt\<lparr>rtLiveLog := log_text ls, rtLiveActive := False\<rparr>)
   | Inr (Some r) \<Rightarrow> bootFromFd F D env stk f dir rt =
       live_run F D env stk r dir (rt\<lparr>rtLiveActive := True, rtLiveLog := log_text ls\<rparr>)"
    using boot_follows_mount [of F D env stk f dir rt] by blast
  then show ?thesis
    using assms by (auto split: sum.splits option.splits dest: live_run_ok [rotated])
qed

lemma bootFromPath_ok:
  assumes "runtime_ok rt" "bootFromPath F D env stk opened p dir rt = Inr (res, rt')"
  shows "runtime_ok rt'"
  using assms by (auto simp: bootFromPath_def Let_def split: sum.splits dest: bootFromFd_ok [rotated])

lemma live_calls [call_ok]:
  assumes "runtime_ok rt"
  shows "nativeDirectLiveBoot F D env stk openf j d rt = Inr (s, rt') \<Longrightarrow> runtime_ok rt'"
    and "nativeDirectLiveBootFd F D env stk f d rt = Inr (s, rt') \<Longrightarrow> runtime_ok rt'"
  using assms by (auto simp: nativeDirectLiveBoot_def nativeDirectLiveBootFd_def Let_def bnd_Inr_iff
      dest: bootFromPath_ok bootFromFd_ok)

section \<open>Steps of the process\<close>

text \<open>
  A call whose model ends in a fault ends the program and has no step. The last rules are the threads:
  the boot worker, the clients of the property socket, the boot animation, the render loop, the
  camera generators, the collector of command output, and the log, adb and netd servers.
\<close>

inductive engine_step :: "'f float_ops \<Rightarrow> 'd float_ops \<Rightarrow> 'f runtime \<Rightarrow> 'f runtime \<Rightarrow> bool" for F D where
  setSurface: "engine_step F D rt (nativeSetSurface sf rt)"
| clearSurface: "engine_step F D rt (nativeClearSurface rt)"
| closeFilesystem: "engine_step F D rt (nativeCloseFilesystem rt)"
| killProcess: "engine_step F D rt (nativeKillProcess rt)"
| setVfbMode: "engine_step F D rt (nativeSetVfbMode e rt)"
| stopTestRender: "engine_step F D rt (nativeStopTestRender rt)"
| stopPropertyService: "engine_step F D rt (nativeStopPropertyService rt)"
| setProperty: "engine_step F D rt (nativeSetProperty j k rt)"
| stopBootSequence: "engine_step F D rt (nativeStopBootSequence rt)"
| startBootAnimation: "engine_step F D rt (nativeStartBootAnimation e rt)"
| shutdownNetwork: "engine_step F D rt (nativeShutdownNetwork rt)"
| shutdownLogcatBroker: "engine_step F D rt (nativeShutdownLogcatBroker rt)"
| clearLogs: "engine_step F D rt (nativeClearLogs rt)"
| shutdownAudio: "engine_step F D rt (nativeShutdownAudio rt)"
| injectKeyEvent: "engine_step F D rt (nativeInjectKeyEvent n m rt)"
| injectKeyClick: "engine_step F D rt (nativeInjectKeyClick n rt)"
| stopCameraStream: "engine_step F D rt (nativeStopCameraStream F n rt)"
| toggleDrm: "engine_step F D rt (nativeToggleDrm e rt)"
| toggleBiometrics: "engine_step F D rt (nativeToggleBiometrics e rt)"
| prepareSandbox: "engine_step F D rt (snd (nativePrepareSandbox j rt))"
| executeCommand: "engine_step F D rt (snd (nativeExecuteCommand net environ j k rt))"
| pollProcessOutput: "engine_step F D rt (snd (nativePollProcessOutput rt))"
| isProcessActive: "engine_step F D rt (snd (nativeIsProcessActive wt rt))"
| initVfb: "engine_step F D rt (snd (nativeInitVfb vio iio n m j rt))"
| deployHookLibrary: "engine_step F D rt (snd (nativeDeployHookLibrary j rt))"
| startPropertyService: "engine_step F D rt (snd (nativeStartPropertyService io j k rt))"
| startBootSequence: "engine_step F D rt (snd (nativeStartBootSequence rt))"
| controlService: "engine_step F D rt (snd (nativeControlService j n rt))"
| initGralloc: "engine_step F D rt (snd (nativeInitGralloc j rt))"
| initNetwork: "engine_step F D rt (snd (nativeInitNetwork io j k l rt))"
| initLogcatBroker: "engine_step F D rt (snd (nativeInitLogcatBroker lnet t n j rt))"
| injectTestCrash: "engine_step F D rt (snd (nativeInjectTestCrash tm now stamp names nt n m j rt))"
| initAudio: "engine_step F D rt (snd (nativeInitAudio j rt))"
| startBleScan: "engine_step F D rt (snd (nativeStartBleScan rt))"
| runGsiTestSuite: "engine_step F D rt (snd (nativeRunGsiTestSuite net j rt))"
| runDrmCryptoTest: "engine_step F D rt (snd (nativeRunDrmCryptoTest now rt))"
| authenticateFingerprint: "engine_step F D rt (snd (nativeAuthenticateFingerprint now e rt))"
| toggleAdbServer: "engine_step F D rt (snd (nativeToggleAdbServer so e rt))"
| simulateAdbConnection: "engine_step F D rt (snd (nativeSimulateAdbConnection rt))"
| sendTouchEvent: "nativeSendTouchEvent F n x y m rt = Inr rt' \<Longrightarrow> engine_step F D rt rt'"
| drawTouchFeedback: "nativeDrawTouchFeedback n m c d rt = Inr rt' \<Longrightarrow> engine_step F D rt rt'"
| clearVfb: "nativeClearVfb c rt = Inr rt' \<Longrightarrow> engine_step F D rt rt'"
| startTestRender: "nativeStartTestRender rt = Inr rt' \<Longrightarrow> engine_step F D rt rt'"
| openFilesystem: "nativeOpenFilesystem f rt = Inr (res, rt') \<Longrightarrow> engine_step F D rt rt'"
| openFilesystemPath: "nativeOpenFilesystemPath openf j rt = Inr (res, rt') \<Longrightarrow> engine_step F D rt rt'"
| extractBinaryFromVfs: "nativeExtractBinaryFromVfs stk j k rt = Inr (res, rt') \<Longrightarrow> engine_step F D rt rt'"
| runBinderDiagnostic: "nativeRunBinderDiagnostic cl pair rt = Inr (res, rt') \<Longrightarrow> engine_step F D rt rt'"
| loadInitFromVfs: "nativeLoadInitFromVfs stk rt = Inr (res, rt') \<Longrightarrow> engine_step F D rt rt'"
| writeAudioPcm: "nativeWriteAudioPcm xs rt = Inr (res, rt') \<Longrightarrow> engine_step F D rt rt'"
| playChime: "nativePlayChime D n rt = Inr (res, rt') \<Longrightarrow> engine_step F D rt rt'"
| initBattery: "nativeInitBattery j rt = Inr (res, rt') \<Longrightarrow> engine_step F D rt rt'"
| updateBattery: "nativeUpdateBattery n j k m d e e' rt = Inr (res, rt') \<Longrightarrow> engine_step F D rt rt'"
| initSensors: "nativeInitSensors F pio now j rt = Inr (res, rt') \<Longrightarrow> engine_step F D rt rt'"
| updateSensors: "nativeUpdateSensors F now ax ay az gx gy gz lux prox rt = Inr (res, rt') \<Longrightarrow> engine_step F D rt rt'"
| initCamera: "nativeInitCamera j rt = Inr (res, rt') \<Longrightarrow> engine_step F D rt rt'"
| startCameraStream: "nativeStartCameraStream F n m d rt = Inr (res, rt') \<Longrightarrow> engine_step F D rt rt'"
| initStorage: "nativeInitStorage stk ls j rt = Inr (res, rt') \<Longrightarrow> engine_step F D rt rt'"
| populateStorageSamples: "nativePopulateStorageSamples stk ls rt = Inr (res, rt') \<Longrightarrow> engine_step F D rt rt'"
| wipeStorage: "nativeWipeStorage stk ls rt = Inr (res, rt') \<Longrightarrow> engine_step F D rt rt'"
| initTelephony: "nativeInitTelephony j rt = Inr (res, rt') \<Longrightarrow> engine_step F D rt rt'"
| toggleSim: "nativeToggleSim e rt = Inr (res, rt') \<Longrightarrow> engine_step F D rt rt'"
| toggleWifi: "nativeToggleWifi e rt = Inr (res, rt') \<Longrightarrow> engine_step F D rt rt'"
| initBluetooth: "nativeInitBluetooth j rt = Inr (res, rt') \<Longrightarrow> engine_step F D rt rt'"
| toggleBluetooth: "nativeToggleBluetooth e rt = Inr (res, rt') \<Longrightarrow> engine_step F D rt rt'"
| extractEssentialSystem: "nativeExtractEssentialSystem mb stk j rt = Inr (res, rt') \<Longrightarrow> engine_step F D rt rt'"
| initDrm: "nativeInitDrm j rt = Inr (res, rt') \<Longrightarrow> engine_step F D rt rt'"
| initKeystore: "nativeInitKeystore now j rt = Inr (res, rt') \<Longrightarrow> engine_step F D rt rt'"
| enrollFingerprint: "nativeEnrollFingerprint now n j rt = Inr (res, rt') \<Longrightarrow> engine_step F D rt rt'"
| initGpu: "nativeInitGpu j rt = Inr (res, rt') \<Longrightarrow> engine_step F D rt rt'"
| runGpuTest: "nativeRunGpuTest F rt = Inr (res, rt') \<Longrightarrow> engine_step F D rt rt'"
| clearVfbColor: "nativeClearVfbColor c rt = Inr (res, rt') \<Longrightarrow> engine_step F D rt rt'"
| initUsb: "nativeInitUsb so j n rt = Inr (res, rt') \<Longrightarrow> engine_step F D rt rt'"
| directLiveBoot: "nativeDirectLiveBoot F D env stk opn j k rt = Inr (res, rt') \<Longrightarrow> engine_step F D rt rt'"
| directLiveBootFd: "nativeDirectLiveBootFd F D env stk f j rt = Inr (res, rt') \<Longrightarrow> engine_step F D rt rt'"
| readAudioPcm: "nativeReadAudioPcm ys rt = Inr (n, zs, rt') \<Longrightarrow> engine_step F D rt rt'"
| worker1: "engine_step F D rt (rt\<lparr>rtBoot := boot_phase1 dir (rtBoot rt)\<rparr>)"
| worker2: "engine_step F D rt (rt\<lparr>rtBoot := boot_phase2 io dir (rtBoot rt)\<rparr>)"
| worker3: "engine_step F D rt (rt\<lparr>rtBoot := boot_phase3 dir (rtBoot rt)\<rparr>)"
| worker4: "engine_step F D rt (rt\<lparr>rtBoot := boot_phase4 (rtBoot rt)\<rparr>)"
| propertyClient: "serve_client (fst (rt_sys rt)) (rt_host rt) bytes = Inr (s, h, reply) \<Longrightarrow> engine_step F D rt (set_sys (s, h) rt)"
| animationRound: "boot_animation_round F x (rtGralloc rt) (rtVfb rt) = Inr v \<Longrightarrow> engine_step F D rt (rt\<lparr>rtVfb := v\<rparr>)"
| renderRound: "render_round F lk (rtVfb rt) (rtDisplay rt) = Inr d' \<Longrightarrow> engine_step F D rt (rt\<lparr>rtDisplay := d'\<rparr>)"
| cameraThread: "i < 2 \<Longrightarrow> generatorLoop i rounds (rtCamera rt, rt_host rt) = Inr (cam, h) \<Longrightarrow> engine_step F D rt (set_host h (rt\<lparr>rtCamera := cam\<rparr>))"
| collector: "engine_step F D rt (rt\<lparr>rtSpawner := ioLoop irs outs errs (rtSpawner rt)\<rparr>)"
| logWriter: "engine_step F D rt (rt\<lparr>rtLogcat := logdwWorkerLoop n (rtLogcat rt) evs\<rparr>)"
| adbServer: "engine_step F D rt (rt\<lparr>rtUsb := usb_serverLoop clients (rtUsb rt)\<rparr>)"
| netdServer: "engine_step F D rt (rt\<lparr>rtNetwork := fst (netdWorkerLoop clients (rtNetwork rt))\<rparr>)"

lemma thread_steps_ok:
  assumes "runtime_ok rt"
  shows "runtime_ok (rt\<lparr>rtBoot := boot_phase1 dir (rtBoot rt)\<rparr>)" "runtime_ok (rt\<lparr>rtBoot := boot_phase2 io dir (rtBoot rt)\<rparr>)"
    and "runtime_ok (rt\<lparr>rtBoot := boot_phase3 dir (rtBoot rt)\<rparr>)" "runtime_ok (rt\<lparr>rtBoot := boot_phase4 (rtBoot rt)\<rparr>)"
    and "serve_client (fst (rt_sys rt)) (rt_host rt) bytes = Inr (s, h, reply) \<Longrightarrow> runtime_ok (set_sys (s, h) rt)"
    and "boot_animation_round F x (rtGralloc rt) (rtVfb rt) = Inr v \<Longrightarrow> runtime_ok (rt\<lparr>rtVfb := v\<rparr>)"
    and "render_round F lk (rtVfb rt) (rtDisplay rt) = Inr d' \<Longrightarrow> runtime_ok (rt\<lparr>rtDisplay := d'\<rparr>)"
    and "i < 2 \<Longrightarrow> generatorLoop i rounds (rtCamera rt, rt_host rt) = Inr (cam, h') \<Longrightarrow> runtime_ok (set_host h' (rt\<lparr>rtCamera := cam\<rparr>))"
  using assms client_keys [OF rt_sys_keys [OF assms]]
  by (auto simp: runtime_parts phases_ok phases_keys intro!: boot_component guarded_components set_host_ok set_sys_ok
      dest: animation_screen [OF runtime_parts(1) [OF assms]] render_round_thread [OF runtime_parts(3) [OF assms]]
        camera_thread [OF runtime_parts(4) [OF assms]])

lemma engine_step_ok: "engine_step F D rt rt' \<Longrightarrow> runtime_ok rt \<Longrightarrow> runtime_ok rt'"
  by (induction rule: engine_step.induct) ((rule call_ok thread_steps_ok; assumption) | simp)+

lemma runtime_new_ok: "runtime_ok (runtime_new F h)"
  using boot_init_ok [of prop_service_init h]
  by (simp add: runtime_ok_def runtime_new_def boot_keys_def boot_init_def keys_distinct_def prop_service_init_def
      screen_ok_def vfb_new_def audio_shape_def audio_new_def thread_ok_def display_new_def camera_new_ok drm_new_def
      gralloc_new_def keystore_keys_ok_def keystore_new_def)

lemma engine_steps_ok: "(engine_step F D)\<^sup>*\<^sup>* rt rt' \<Longrightarrow> runtime_ok rt \<Longrightarrow> runtime_ok rt'"
  by (induction rule: rtranclp_induct) (blast intro: engine_step_ok)+

end
