(* ===== verification/Engine_Properties.thy ===== *)
theory Engine_Properties
  imports Engine_Steps
begin

text \<open>
  What the entry points promise to Java, whatever calls came before: the shape of the process, the
  calls that cannot fail, the image a mount or a live boot takes, what a live boot reports, and the
  descriptors that mounting by path leaves open.
\<close>

section \<open>The shape of the process\<close>

lemma reachable_ok: "(engine_step F D)\<^sup>*\<^sup>* (runtime_new F h) rt \<Longrightarrow> runtime_ok rt"
  by (erule engine_steps_ok) (rule runtime_new_ok)

text \<open>C1: Whatever Java calls in whatever order, and however the threads of the process run in between,
  the mounted reader reads from the mounted device, the property table has one value for a key, no
  two running services share a process id, a mapped screen has as many pixels as its size says, a
  running audio ring has its full size with both positions inside it, the render thread and the two
  camera threads exist exactly while their flags say so, and no key or fingerprint is stored twice.\<close>

theorem process_state_well_formed:
  assumes "(engine_step F D)\<^sup>*\<^sup>* (runtime_new F h) rt"
  shows "rtBlockDev rt = map_option mDev (rtReader rt)
    \<and> distinct (map fst (psProperties (fst (rt_sys rt))))
    \<and> distinct (map svPid (filter running (services (rtBoot rt))))
    \<and> (\<forall>hdr px. vfMmap (rtVfb rt) = Some (hdr, px) \<longrightarrow>
         vfStride (rtVfb rt) = vfWidth (rtVfb rt) \<and> length px = unat (vfWidth (rtVfb rt) * vfHeight (rtVfb rt)))
    \<and> (auIsRunning (rtAudio rt) \<longrightarrow> length (auRing (rtAudio rt)) = RING_BUFFER_SIZE
         \<and> auReadPos (rtAudio rt) < RING_BUFFER_SIZE \<and> auWritePos (rtAudio rt) < RING_BUFFER_SIZE)
    \<and> dpJoinable (rtDisplay rt) = dpRunning (rtDisplay rt)
    \<and> length (cmCameras (rtCamera rt)) = 2 \<and> cmJoinable (rtCamera rt) = cmRunning (rtCamera rt)
    \<and> distinct (map fst (ksKeys (rtKeystore rt))) \<and> distinct (map fst (ksFingers (rtKeystore rt)))"
proof -
  have ok: "runtime_ok rt"
    using assms by (rule reachable_ok)
  note parts = runtime_parts [OF ok]
  have "auWritePos (rtAudio rt) < RING_BUFFER_SIZE" if "ring_ok (rtAudio rt)"
    using that by (simp add: ring_ok_def)
  then show ?thesis
    using ok parts boot_ok_pids [OF parts(5)] rt_sys_keys [OF ok]
    by (auto simp: runtime_ok_def screen_ok_def audio_shape_def thread_ok_def camera_ok_def keystore_keys_ok_def
        keys_distinct_def ring_ok_def)
qed

text \<open>A mount by path, and what it leaves.\<close>

lemma mount_by_path:
  assumes "jchars [] j \<noteq> []" "openf (jchars [] j) = Some (n, f)" "openFilesystem f = Inr (Some r)"
  shows "nativeOpenFilesystemPath openf j rt =
    Inr (True, rt\<lparr>rtReader := Some r, rtBlockDev := Some (mDev r), rtFds := n # rtFds rt\<rparr>)"
  using assms by (simp add: native_open_path)

lemma demo_mount_step:
  "\<exists>rt r. (engine_step F D)\<^sup>*\<^sup>* (runtime_new F empty_host) rt \<and> rtReader rt = Some r"
proof -
  obtain r where "openFilesystem (file_fd demo_ext4) = Inr (Some r)"
    using demo_ext4_mounts by blast
  then have "nativeOpenFilesystem (file_fd demo_ext4) (runtime_new F empty_host) =
      Inr (True, (runtime_new F empty_host)\<lparr>rtReader := Some r, rtBlockDev := Some (mDev r)\<rparr>)"
    by (simp add: native_open)
  then have "engine_step F D (runtime_new F empty_host)
      ((runtime_new F empty_host)\<lparr>rtReader := Some r, rtBlockDev := Some (mDev r)\<rparr>)"
    by (rule engine_step.openFilesystem)
  then show ?thesis
    by (intro exI [of _ "(runtime_new F empty_host)\<lparr>rtReader := Some r, rtBlockDev := Some (mDev r)\<rparr>"] exI [of _ r])
      (simp add: r_into_rtranclp)
qed

theorem process_state_well_formed_witness:
  "\<exists>rt r. (engine_step milli_ops milli_ops)\<^sup>*\<^sup>* (runtime_new milli_ops empty_host) rt \<and> rtReader rt = Some r
     \<and> rtBlockDev rt = Some (mDev r)"
proof -
  obtain rt r where "(engine_step milli_ops milli_ops)\<^sup>*\<^sup>* (runtime_new milli_ops empty_host) rt" "rtReader rt = Some r"
    using demo_mount_step by blast
  then show ?thesis
    using process_state_well_formed by fastforce
qed

section \<open>Calls that do not fail\<close>

lemma audio_total:
  assumes "audio_shape a"
  shows "\<exists>r. writeSamples a (Some xs) = Inr r" "\<exists>r. readSamples a True k = Inr r"
proof -
  show "\<exists>r. writeSamples a (Some xs) = Inr r"
    using assms write_ring [OF _ refl, of a xs] by (cases "audio_ok a") (auto simp: audio_shape_def writeSamples_def)
  show "\<exists>r. readSamples a True k = Inr r"
    using assms read_ring [of a k] by (cases "audio_ok a") (auto simp: audio_shape_def readSamples_def)
qed

lemma clear_total: "screen_ok v \<Longrightarrow> \<exists>v'. clearScreen v c = Inr v'"
  by (auto simp: screen_ok_def clearScreen_def Let_def split: option.splits)

lemma test_render_total: "thread_ok d \<Longrightarrow> \<exists>d'. startTestRender d = Inr d'"
  by (simp add: thread_ok_def startTestRender_def)

text \<open>C37: In every state the process can reach, writing and reading PCM samples, clearing the screen
  (directly or through the GPU bridge), starting the test renderer and starting a camera stream
  return to Java: no access outside the ring or the screen, no assignment to a thread that runs, for
  any arguments.\<close>

theorem entry_points_do_not_fault:
  assumes "(engine_step F D)\<^sup>*\<^sup>* (runtime_new F h) rt"
  shows "no_fault (nativeWriteAudioPcm xs rt) \<and> no_fault (nativeReadAudioPcm xs rt)
    \<and> no_fault (nativeClearVfb color rt) \<and> no_fault (nativeClearVfbColor color rt)
    \<and> no_fault (nativeStartTestRender rt) \<and> no_fault (nativeStartCameraStream F cam width height rt)"
proof -
  note parts = runtime_parts [OF reachable_ok [OF assms]]
  note screen = clear_total [OF parts(1)]
  have "no_fault (nativeStartCameraStream F cam width height rt)"
    using startStream_ok [OF parts(4), of "fDec F 0 0" cam "u32_of_jint width" "u32_of_jint height" "rt_sys rt"]
    by (auto simp: nativeStartCameraStream_def on_sys_def)
  moreover have "no_fault (nativeWriteAudioPcm xs rt)" "no_fault (nativeReadAudioPcm xs rt)"
    using audio_total(1) [OF parts(2), of "the xs"] audio_total(2) [OF parts(2), of "length (the xs)"]
    by (auto simp: nativeWriteAudioPcm_def nativeReadAudioPcm_def split: option.splits)
  moreover have "no_fault (nativeClearVfb color rt)" "no_fault (nativeClearVfbColor color rt)"
    using screen [of "u32_of_jint color"] by (auto simp: nativeClearVfb_def nativeClearVfbColor_def clearVfbColor_def)
  moreover have "no_fault (nativeStartTestRender rt)"
    using test_render_total [OF parts(3)] by (auto simp: nativeStartTestRender_def)
  ultimately show ?thesis by blast
qed

theorem entry_points_do_not_fault_witness:
  "no_fault (nativeStartTestRender (nativeStopTestRender (runtime_new milli_ops empty_host)))"
proof -
  have "(engine_step milli_ops milli_ops)\<^sup>*\<^sup>* (runtime_new milli_ops empty_host)
      (nativeStopTestRender (runtime_new milli_ops empty_host))"
    by (rule r_into_rtranclp) (rule engine_step.stopTestRender)
  then show ?thesis
    using entry_points_do_not_fault [where xs = None and color = 0 and cam = 0 and width = 0 and height = 0] by blast
qed

section \<open>Mounting and the live boot\<close>

text \<open>C38: \<^verbatim>\<open>nativeOpenFilesystem\<close> mounts exactly when the image has a sparse header or passes
  the verification and its superblock is read, replaces whatever was mounted, also when it fails, and
  the direct live boot takes the same decision on the same image: it runs its steps on the same reader
  or fails with nothing but its log changed.\<close>

theorem live_boot_follows_mount:
  "\<exists>ls. case openFilesystem f of
     Inl e \<Rightarrow> nativeOpenFilesystem f rt = Inl e \<and> bootFromFd F D env stk f dir rt = Inl e
   | Inr None \<Rightarrow>
       nativeOpenFilesystem f rt = Inr (False, rt\<lparr>rtReader := None, rtBlockDev := None\<rparr>)
       \<and> bootFromFd F D env stk f dir rt =
           Inr (live_failed\<lparr>lbBootLog := log_text ls\<rparr>, rt\<lparr>rtLiveLog := log_text ls, rtLiveActive := False\<rparr>)
   | Inr (Some r) \<Rightarrow>
       nativeOpenFilesystem f rt = Inr (True, rt\<lparr>rtReader := Some r, rtBlockDev := Some (mDev r)\<rparr>)
       \<and> bootFromFd F D env stk f dir rt =
           live_run F D env stk r dir (rt\<lparr>rtLiveActive := True, rtLiveLog := log_text ls\<rparr>)"
  using boot_follows_mount [of F D env stk f dir rt]
  by (auto simp: native_open split: sum.splits option.splits)

definition remount :: "string option \<Rightarrow> (string \<Rightarrow> (int \<times> fd) option) \<Rightarrow> 'f runtime \<Rightarrow> fault + 'f runtime" where
  "remount j openf rt = bnd (nativeOpenFilesystemPath openf j rt) (\<lambda>(ok, rt). Inr (nativeCloseFilesystem rt))"

lemma remount_once:
  assumes "jchars [] j \<noteq> []" "openf (jchars [] j) = Some (n, f)" "openFilesystem f = Inr (Some r)"
    and "rtReader rt = None" "rtBlockDev rt = None"
  shows "remount j openf rt = Inr (rt\<lparr>rtFds := n # rtFds rt\<rparr>)"
  using assms by (cases rt) (simp add: remount_def mount_by_path nativeCloseFilesystem_def unmounted_def)

text \<open>C39: Mounting by path and unmounting leaves the opened descriptor behind every time: after any
  number of such cycles the file system is unmounted again, and exactly one more descriptor is open for
  each of them.\<close>

theorem remounts_leak:
  assumes "path \<noteq> []"
    and "list_all2 (\<lambda>openf n. \<exists>f r. openf path = Some (n, f) \<and> openFilesystem f = Inr (Some r)) opens fds"
  shows "\<exists>rt'. for_each opens (remount (Some path)) (nativeCloseFilesystem rt) = Inr rt'
    \<and> rtReader rt' = None \<and> rtBlockDev rt' = None \<and> rtFds rt' = rev fds @ rtFds rt"
proof -
  have "for_each opens (remount (Some path)) s = Inr (s\<lparr>rtFds := rev fds @ rtFds s\<rparr>)"
    if "rtReader s = None" "rtBlockDev s = None" for s :: "'a runtime"
    using assms(2) that
  proof (induction arbitrary: s rule: list_all2_induct)
    case (Cons openf opens n fds)
    obtain f r where "openf path = Some (n, f)" "openFilesystem f = Inr (Some r)"
      using Cons.hyps(1) by blast
    then have "remount (Some path) openf s = Inr (s\<lparr>rtFds := n # rtFds s\<rparr>)"
      using remount_once [of "Some path" openf n f r s] assms(1) Cons.prems by (simp add: jchars_def)
    then show ?case
      using Cons.IH [of "s\<lparr>rtFds := n # rtFds s\<rparr>"] Cons.prems by simp
  qed simp
  then show ?thesis
    by (simp add: nativeCloseFilesystem_def unmounted_def)
qed

theorem remounts_leak_witness:
  "\<exists>rt. for_each [\<lambda>p. Some (3, file_fd demo_ext4), \<lambda>p. Some (4, file_fd demo_ext4)] (remount (Some ''gsi.img''))
      (nativeCloseFilesystem (runtime_new milli_ops empty_host)) = Inr rt
    \<and> rtReader rt = None \<and> rtFds rt = [4, 3]"
proof -
  have "list_all2 (\<lambda>openf n. \<exists>f r. openf ''gsi.img'' = Some (n, f) \<and> openFilesystem f = Inr (Some r))
      [\<lambda>p. Some (3, file_fd demo_ext4), \<lambda>p. Some (4, file_fd demo_ext4)] [3, 4]"
    using demo_ext4_mounts by simp
  from remounts_leak [OF _ this, of "runtime_new milli_ops empty_host"] show ?thesis
    by (auto simp: runtime_new_def)
qed

section \<open>The report of a live boot\<close>

lemma live_appendLog_frame [simp]:
  "rtBoot (live_appendLog l rt) = rtBoot rt" "rtLiveActive (live_appendLog l rt) = rtLiveActive rt"
  by (simp_all add: live_appendLog_def)

lemma live_lines_frame [simp]:
  "rtBoot (live_lines ls rt) = rtBoot rt" "rtLiveActive (live_lines ls rt) = rtLiveActive rt"
  by (simp_all add: live_lines_log)

lemma rt_setprop_frame:
  "bmPhase (rtBoot (rt_setprop k v rt)) = bmPhase (rtBoot rt)"
  "find_prop (fst (rt_sys (rt_setprop k v rt))) q = (if q = k then Some v else find_prop (fst (rt_sys rt)) q)"
  by (simp_all add: rt_setprop_def boot_frame rt_sys_def boot_setprop_look)

lemma final_props_look:
  "bmPhase (rtBoot (rt_setprops final_props rt)) = bmPhase (rtBoot rt)"
  "find_prop (fst (rt_sys (rt_setprops final_props rt))) ''sys.boot_completed'' = Some ''1''"
  "find_prop (fst (rt_sys (rt_setprops final_props rt))) ''dev.bootcomplete'' = Some ''1''"
  by (simp_all add: rt_setprops_def final_props_def rt_setprop_frame)

definition phase_after :: "nat \<Rightarrow> BootPhase" where
  "phase_after k = (if k = 0 then IDLE else if k = 1 then EARLY_INIT else if k = 2 then INIT
     else if k = 3 then BOOT else COMPLETED)"

lemma live_start_phase:
  "bmPhase (live_start env dir b) = (if bmIsBooting b then bmPhase b else phase_after (lvPhases env))"
proof -
  have k: "lvPhases env = 0 \<or> lvPhases env = 1 \<or> lvPhases env = 2 \<or> lvPhases env = 3 \<or> 4 \<le> lvPhases env"
    by arith
  show ?thesis
    using k by (auto simp: live_start_def worker_after_def startBootSequence_def phase_after_def worker_phases
        worker_completed)
qed

text \<open>C40: A live boot that has loaded its init services reports success, with their number and the
  final log, and sets the properties that announce a completed boot, however many of the boot
  manager's four phases are over when it stops waiting: the phase it leaves is the last one the worker
  reached (or the one of the boot that was already running), so it says that the system is fully active
  also when no phase has finished.\<close>

theorem live_boot_reports_completion:
  assumes "loadInitFromVfs r stk (rtBoot rt) = Inr (n, b)"
  shows "\<exists>res rt'. live_supervise env stk r dir bp cnt rt = Inr (res, rt')
    \<and> lbSuccess res \<and> lbTotalServices res = n \<and> lbTotalProperties res = cnt \<and> lbBootLog res = rtLiveLog rt'
    \<and> \<not> rtLiveActive rt'
    \<and> find_prop (fst (rt_sys rt')) ''sys.boot_completed'' = Some ''1''
    \<and> find_prop (fst (rt_sys rt')) ''dev.bootcomplete'' = Some ''1''
    \<and> bmPhase (rtBoot rt') = (if bmIsBooting b then bmPhase b else phase_after (lvPhases env))"
proof -
  define rt1 where "rt1 = (live_appendLog (''  -> Loaded '' @ dec n @ '' init services from VFS init.rc scripts.'')
      ((live_lines (hal_lines @ [''[Step 6/6] Executing Android Init Supervisor & Service Class Launch...'']) rt)\<lparr>rtBoot := b\<rparr>))
      \<lparr>rtBoot := live_start env dir b\<rparr>"
  define rt' where "rt' = (live_lines final_lines (rt_setprops final_props rt1))\<lparr>rtLiveActive := False\<rparr>"
  have "live_supervise env stk r dir bp cnt rt =
      Inr (\<lparr>lbSuccess = True, lbOsVersion = bpOsVersion bp, lbSdkVersion = bpSdkVersion bp, lbBuildId = bpBuildId bp,
        lbModel = bpModel bp, lbTotalServices = n, lbTotalProperties = cnt, lbBootLog = rtLiveLog rt'\<rparr>, rt')"
    using assms by (simp add: live_supervise_def Let_def rt1_def rt'_def getLastBootLog_def)
  moreover have "bmPhase (rtBoot rt') = bmPhase (live_start env dir b)" "\<not> rtLiveActive rt'"
    "find_prop (fst (rt_sys rt')) ''sys.boot_completed'' = Some ''1''"
    "find_prop (fst (rt_sys rt')) ''dev.bootcomplete'' = Some ''1''"
    using final_props_look [of rt1] by (simp_all add: rt'_def rt_sys_def rt1_def)
  ultimately show ?thesis
    by (auto simp: live_start_phase)
qed

definition idle_env :: live_env where
  "idle_env = \<lparr>lvPropIo = (True, True, True), lvMegabytes = (\<lambda>n. []), lvVfbIo = (True, True, True), lvPipeIo = (True, True),
     lvMonotonic = 0, lvNow = 0, lvListing = (\<lambda>_ _. None), lvAdbSocket = True, lvBootIo = (True, True, True), lvPhases = 0\<rparr>"

theorem live_boot_reports_completion_witness:
  "\<exists>res rt'. live_supervise idle_env 1 demo_reader ''/d'' no_build_prop 0 (runtime_new milli_ops empty_host) = Inr (res, rt')
     \<and> lbSuccess res \<and> find_prop (fst (rt_sys rt')) ''sys.boot_completed'' = Some ''1'' \<and> bmPhase (rtBoot rt') = IDLE"
proof -
  obtain n b where l: "loadInitFromVfs demo_reader 1 (rtBoot (runtime_new milli_ops empty_host)) = Inr (n, b)"
      "\<not> bmIsBooting b"
    unfolding loadInitFromVfs_def demo_load by (auto simp: runtime_new_def boot_init_def)
  show ?thesis
    using live_boot_reports_completion [OF l(1), of idle_env "''/d''" no_build_prop 0] l(2)
    by (auto simp: idle_env_def phase_after_def)
qed

end
