(* ===== verification/Boot_Once.thy ===== *)
theory Boot_Once
  imports Engine_Properties
begin

text \<open>
  The listener threads of the telephony bridge have no entry point that stops them, and its
  initialization assigns to their thread objects: a process boots an image once.
\<close>

named_theorems modem
named_theorems modem_after

lemma set_frames [simp]:
  "rtTelephony (set_sys s rt) = rtTelephony rt" "rtTelephony (set_host h rt) = rtTelephony rt"
  "rtTelephony (rt_setprop k v rt) = rtTelephony rt"
  by (simp_all add: set_sys_def set_host_def rt_setprop_def)

lemma on_sys_frame:
  assumes "on_sys look store f rt = Inr (ok, rt')" "\<And>c rt. rtTelephony (store c rt) = rtTelephony rt"
  shows "rtTelephony rt' = rtTelephony rt"
  using assms by (auto elim!: on_sys_result)

lemma plain_calls [modem]:
  "rtTelephony (nativeSetSurface sf rt) = rtTelephony rt" "rtTelephony (nativeClearSurface rt) = rtTelephony rt"
  "rtTelephony (nativeCloseFilesystem rt) = rtTelephony rt" "rtTelephony (nativeKillProcess rt) = rtTelephony rt"
  "rtTelephony (nativeSetVfbMode e rt) = rtTelephony rt" "rtTelephony (nativeStopTestRender rt) = rtTelephony rt"
  "rtTelephony (nativeStopPropertyService rt) = rtTelephony rt" "rtTelephony (nativeSetProperty j k rt) = rtTelephony rt"
  "rtTelephony (nativeStopBootSequence rt) = rtTelephony rt" "rtTelephony (nativeStartBootAnimation e rt) = rtTelephony rt"
  "rtTelephony (nativeShutdownNetwork rt) = rtTelephony rt" "rtTelephony (nativeShutdownLogcatBroker rt) = rtTelephony rt"
  "rtTelephony (nativeClearLogs rt) = rtTelephony rt" "rtTelephony (nativeShutdownAudio rt) = rtTelephony rt"
  "rtTelephony (nativeInjectKeyEvent n m rt) = rtTelephony rt" "rtTelephony (nativeInjectKeyClick n rt) = rtTelephony rt"
  "rtTelephony (nativeStopCameraStream F n rt) = rtTelephony rt" "rtTelephony (nativeToggleDrm e rt) = rtTelephony rt"
  "rtTelephony (nativeToggleBiometrics e rt) = rtTelephony rt"
  by (simp_all add: nativeSetSurface_def nativeClearSurface_def nativeCloseFilesystem_def unmounted_def nativeKillProcess_def
      nativeSetVfbMode_def nativeStopTestRender_def nativeStopPropertyService_def nativeSetProperty_def
      nativeStopBootSequence_def nativeStartBootAnimation_def start_animation_def nativeShutdownNetwork_def
      nativeShutdownLogcatBroker_def nativeClearLogs_def nativeShutdownAudio_def nativeInjectKeyEvent_def
      nativeInjectKeyClick_def nativeStopCameraStream_def nativeToggleDrm_def nativeToggleBiometrics_def
      Let_def case_prod_beta)

lemma pair_calls [modem]:
  "rtTelephony (snd (nativePrepareSandbox j rt)) = rtTelephony rt" "rtTelephony (snd (nativeExecuteCommand net environ j k rt)) = rtTelephony rt"
  "rtTelephony (snd (nativePollProcessOutput rt)) = rtTelephony rt" "rtTelephony (snd (nativeIsProcessActive wt rt)) = rtTelephony rt"
  "rtTelephony (snd (nativeInitVfb vio iio n m j rt)) = rtTelephony rt" "rtTelephony (snd (nativeDeployHookLibrary j rt)) = rtTelephony rt"
  "rtTelephony (snd (nativeStartPropertyService io j k rt)) = rtTelephony rt" "rtTelephony (snd (nativeStartBootSequence rt)) = rtTelephony rt"
  "rtTelephony (snd (nativeControlService j n rt)) = rtTelephony rt" "rtTelephony (snd (nativeInitGralloc j rt)) = rtTelephony rt"
  "rtTelephony (snd (nativeInitNetwork io j k l rt)) = rtTelephony rt"
  "rtTelephony (snd (nativeInitLogcatBroker lnet t n j rt)) = rtTelephony rt"
  "rtTelephony (snd (nativeInjectTestCrash tm now stamp names nt n m j rt)) = rtTelephony rt"
  "rtTelephony (snd (nativeInitAudio j rt)) = rtTelephony rt"
  "rtTelephony (snd (nativeStartBleScan rt)) = rtTelephony rt" "rtTelephony (snd (nativeRunGsiTestSuite net j rt)) = rtTelephony rt"
  "rtTelephony (snd (nativeRunDrmCryptoTest now rt)) = rtTelephony rt"
  "rtTelephony (snd (nativeAuthenticateFingerprint now e rt)) = rtTelephony rt"
  "rtTelephony (snd (nativeToggleAdbServer so e rt)) = rtTelephony rt" "rtTelephony (snd (nativeSimulateAdbConnection rt)) = rtTelephony rt"
  by (simp_all add: nativePrepareSandbox_def nativeExecuteCommand_def nativePollProcessOutput_def nativeIsProcessActive_def
      nativeInitVfb_def init_vfb_def nativeDeployHookLibrary_def nativeStartPropertyService_def nativeStartBootSequence_def
      nativeControlService_def nativeInitGralloc_def init_gralloc_def nativeInitNetwork_def nativeInitLogcatBroker_def
      nativeInjectTestCrash_def nativeInitAudio_def init_audio_def nativeStartBleScan_def nativeRunGsiTestSuite_def
      nativeRunDrmCryptoTest_def nativeAuthenticateFingerprint_def nativeToggleAdbServer_def nativeSimulateAdbConnection_def
      Let_def case_prod_beta split: option.splits)

lemma screen_and_file_calls [modem_after]:
  "nativeSendTouchEvent F n x y m rt = Inr rt' \<Longrightarrow> rtTelephony rt' = rtTelephony rt"
  "nativeDrawTouchFeedback n m c d rt = Inr rt' \<Longrightarrow> rtTelephony rt' = rtTelephony rt"
  "nativeClearVfb c rt = Inr rt' \<Longrightarrow> rtTelephony rt' = rtTelephony rt"
  "nativeStartTestRender rt = Inr rt' \<Longrightarrow> rtTelephony rt' = rtTelephony rt"
  "nativeOpenFilesystem f rt = Inr (ok, rt') \<Longrightarrow> rtTelephony rt' = rtTelephony rt"
  "nativeOpenFilesystemPath openf j rt = Inr (ok, rt') \<Longrightarrow> rtTelephony rt' = rtTelephony rt"
  "nativeExtractBinaryFromVfs stk j k rt = Inr (ok, rt') \<Longrightarrow> rtTelephony rt' = rtTelephony rt"
  "nativeRunBinderDiagnostic cl pair rt = Inr (tx, rt') \<Longrightarrow> rtTelephony rt' = rtTelephony rt"
  "nativeLoadInitFromVfs stk rt = Inr (n', rt') \<Longrightarrow> rtTelephony rt' = rtTelephony rt"
  "nativeWriteAudioPcm xs rt = Inr (n', rt') \<Longrightarrow> rtTelephony rt' = rtTelephony rt"
  "nativeReadAudioPcm xs rt = Inr (n', zs, rt') \<Longrightarrow> rtTelephony rt' = rtTelephony rt"
  "nativePlayChime D n rt = Inr (ok, rt') \<Longrightarrow> rtTelephony rt' = rtTelephony rt"
  "nativeRunGpuTest F rt = Inr (tx, rt') \<Longrightarrow> rtTelephony rt' = rtTelephony rt"
  "nativeClearVfbColor c rt = Inr (ok, rt') \<Longrightarrow> rtTelephony rt' = rtTelephony rt"
  "nativePopulateStorageSamples stk ls rt = Inr (ok, rt') \<Longrightarrow> rtTelephony rt' = rtTelephony rt"
  "nativeWipeStorage stk ls rt = Inr (ok, rt') \<Longrightarrow> rtTelephony rt' = rtTelephony rt"
  "nativeExtractEssentialSystem mb stk j rt = Inr (tx, rt') \<Longrightarrow> rtTelephony rt' = rtTelephony rt"
  by (auto simp: nativeSendTouchEvent_def nativeDrawTouchFeedback_def nativeClearVfb_def nativeStartTestRender_def
      native_open native_open_path nativeExtractBinaryFromVfs_def nativeRunBinderDiagnostic_def nativeLoadInitFromVfs_def
      nativeWriteAudioPcm_def nativeReadAudioPcm_def nativePlayChime_def play_chime_def nativeRunGpuTest_def
      nativeClearVfbColor_def nativePopulateStorageSamples_def storage_samples_def nativeWipeStorage_def
      nativeExtractEssentialSystem_def bnd_Inr_iff Let_def case_prod_beta split: option.splits if_splits)

lemma bridge_calls [modem_after]:
  "nativeInitBattery j rt = Inr (ok, rt') \<Longrightarrow> rtTelephony rt' = rtTelephony rt"
  "nativeUpdateBattery n j k m d e e' rt = Inr (ok, rt') \<Longrightarrow> rtTelephony rt' = rtTelephony rt"
  "nativeInitSensors F pio now j rt = Inr (ok, rt') \<Longrightarrow> rtTelephony rt' = rtTelephony rt"
  "nativeUpdateSensors F now ax ay az gx gy gz lux prox rt = Inr (ok, rt') \<Longrightarrow> rtTelephony rt' = rtTelephony rt"
  "nativeInitCamera j rt = Inr (ok, rt') \<Longrightarrow> rtTelephony rt' = rtTelephony rt"
  "nativeStartCameraStream F n m' d' rt = Inr (ok, rt') \<Longrightarrow> rtTelephony rt' = rtTelephony rt"
  "nativeInitStorage stk ls j rt = Inr (ok, rt') \<Longrightarrow> rtTelephony rt' = rtTelephony rt"
  "nativeInitBluetooth j rt = Inr (ok, rt') \<Longrightarrow> rtTelephony rt' = rtTelephony rt"
  "nativeToggleBluetooth e rt = Inr (ok, rt') \<Longrightarrow> rtTelephony rt' = rtTelephony rt"
  "nativeInitDrm j rt = Inr (ok, rt') \<Longrightarrow> rtTelephony rt' = rtTelephony rt"
  "nativeInitKeystore now j rt = Inr (ok, rt') \<Longrightarrow> rtTelephony rt' = rtTelephony rt"
  "nativeEnrollFingerprint now n j rt = Inr (ok, rt') \<Longrightarrow> rtTelephony rt' = rtTelephony rt"
  "nativeInitGpu j rt = Inr (ok, rt') \<Longrightarrow> rtTelephony rt' = rtTelephony rt"
  "nativeInitUsb so j n rt = Inr (ok, rt') \<Longrightarrow> rtTelephony rt' = rtTelephony rt"
  unfolding nativeInitBattery_def init_battery_def nativeUpdateBattery_def nativeInitSensors_def init_sensors_def
    nativeUpdateSensors_def nativeInitCamera_def init_camera_def nativeStartCameraStream_def nativeInitStorage_def
    init_storage_def nativeInitBluetooth_def init_bluetooth_def nativeToggleBluetooth_def nativeInitDrm_def init_drm_def
    nativeInitKeystore_def init_keystore_def nativeEnrollFingerprint_def nativeInitGpu_def init_gpu_def nativeInitUsb_def
    init_usb_def
  by (erule on_sys_frame, simp)+

lemma modem_calls [modem_after]:
  "nativeToggleSim e rt = Inr (ok, rt') \<Longrightarrow> tbJoinable (rtTelephony rt') = tbJoinable (rtTelephony rt)"
  "nativeToggleWifi e rt = Inr (ok, rt') \<Longrightarrow> tbJoinable (rtTelephony rt') = tbJoinable (rtTelephony rt)"
  unfolding nativeToggleSim_def nativeToggleWifi_def
  by (erule on_sys_result, simp add: toggleSim_def toggleWifi_def Let_def split: if_splits)+

lemma init_telephony_starts:
  "init_telephony dir rt = Inr (ok, rt') \<Longrightarrow> \<not> tbJoinable (rtTelephony rt) \<and> tbJoinable (rtTelephony rt')"
  unfolding init_telephony_def
  by (erule on_sys_result) (auto simp: initialize_telephony_def startSocketServers_def Let_def bnd_Inr_iff split: if_splits)

section \<open>The live boot\<close>

lemma live_frames [simp]:
  "rtTelephony (live_appendLog l rt) = rtTelephony rt" "rtTelephony (live_lines ls rt) = rtTelephony rt"
  "rtTelephony (rt_setprops kvs rt) = rtTelephony rt"
proof -
  show "rtTelephony (live_appendLog l rt) = rtTelephony rt" "rtTelephony (live_lines ls rt) = rtTelephony rt"
    by (simp_all add: live_appendLog_def live_lines_log)
  show "rtTelephony (rt_setprops kvs rt) = rtTelephony rt"
    unfolding rt_setprops_def by (intro foldl_inv [where P = "\<lambda>s. rtTelephony s = rtTelephony rt"]) auto
qed

lemma live_step_frames:
  "rtTelephony (live_properties env dir bp rt) = rtTelephony rt"
  "live_extract env r stk dir rt = Inr rt' \<Longrightarrow> rtTelephony rt' = rtTelephony rt"
  by (auto simp: live_properties_def live_extract_def bnd_Inr_iff Let_def case_prod_beta)

lemma live_supervise_frame:
  "live_supervise env stk r dir bp cnt rt = Inr (res, rt') \<Longrightarrow> rtTelephony rt' = rtTelephony rt"
  by (auto simp: live_supervise_def bnd_Inr_iff Let_def)

lemma hal_frames:
  "rtTelephony (snd (init_vfb io w h dir rt)) = rtTelephony rt" "rtTelephony (snd (init_gralloc dir rt)) = rtTelephony rt"
  "rtTelephony (start_animation rt) = rtTelephony rt" "rtTelephony (snd (init_audio dir rt)) = rtTelephony rt"
  "play_chime D n rt = Inr (ok, rt') \<Longrightarrow> rtTelephony rt' = rtTelephony rt"
  "init_battery dir rt = Inr (ok, rt') \<Longrightarrow> rtTelephony rt' = rtTelephony rt"
  "init_sensors F pio now dir rt = Inr (ok, rt') \<Longrightarrow> rtTelephony rt' = rtTelephony rt"
  "init_camera dir rt = Inr (ok, rt') \<Longrightarrow> rtTelephony rt' = rtTelephony rt"
  "init_storage stk ls dir rt = Inr (ok, rt') \<Longrightarrow> rtTelephony rt' = rtTelephony rt"
  "storage_samples stk ls rt = Inr (ok, rt') \<Longrightarrow> rtTelephony rt' = rtTelephony rt"
  "init_bluetooth dir rt = Inr (ok, rt') \<Longrightarrow> rtTelephony rt' = rtTelephony rt"
  "init_drm dir rt = Inr (ok, rt') \<Longrightarrow> rtTelephony rt' = rtTelephony rt"
  "init_keystore t dir rt = Inr (ok, rt') \<Longrightarrow> rtTelephony rt' = rtTelephony rt"
  "init_gpu dir rt = Inr (ok, rt') \<Longrightarrow> rtTelephony rt' = rtTelephony rt"
  "init_usb so dir port rt = Inr (ok, rt') \<Longrightarrow> rtTelephony rt' = rtTelephony rt"
  unfolding init_battery_def init_sensors_def init_camera_def init_storage_def init_bluetooth_def init_drm_def
    init_keystore_def init_gpu_def init_usb_def
  by (simp_all add: init_vfb_def init_gralloc_def start_animation_def init_audio_def play_chime_def storage_samples_def
      case_prod_beta on_sys_frame, auto simp: bnd_Inr_iff elim: on_sys_frame)

lemma live_hals_once:
  assumes "live_hals F D env stk dir rt = Inr rt'"
  shows "\<not> tbJoinable (rtTelephony rt) \<and> tbJoinable (rtTelephony rt')"
  using assms unfolding live_hals_def Let_def
  by (auto simp: bnd_Inr_iff hal_frames(1-4) dest!: hal_frames(5-) init_telephony_starts)

lemma live_run_once:
  assumes "live_run F D env stk r dir rt = Inr (res, rt')"
  shows "\<not> tbJoinable (rtTelephony rt) \<and> tbJoinable (rtTelephony rt')"
  using assms unfolding live_run_def Let_def bnd_Inr_iff
  by (auto dest!: live_supervise_frame live_hals_once live_step_frames(2) simp: live_step_frames(1))

lemma live_boot_modem:
  assumes "bootFromFd F D env stk f dir rt = Inr (res, rt')"
  shows "if lbSuccess res then \<not> tbJoinable (rtTelephony rt) \<and> tbJoinable (rtTelephony rt')
    else rtTelephony rt' = rtTelephony rt"
proof -
  obtain ls where ls: "case openFilesystem f of
     Inl e \<Rightarrow> bootFromFd F D env stk f dir rt = Inl e
   | Inr None \<Rightarrow> bootFromFd F D env stk f dir rt =
       Inr (live_failed\<lparr>lbBootLog := log_text ls\<rparr>, rt\<lparr>rtLiveLog := log_text ls, rtLiveActive := False\<rparr>)
   | Inr (Some r) \<Rightarrow> bootFromFd F D env stk f dir rt =
       live_run F D env stk r dir (rt\<lparr>rtLiveActive := True, rtLiveLog := log_text ls\<rparr>)"
    using boot_follows_mount [of F D env stk f dir rt] by blast
  have "lbSuccess res" if "live_run F D env stk r dir rt1 = Inr (res, rt')" for r rt1
    using that by (auto simp: live_run_def live_supervise_def bnd_Inr_iff Let_def)
  then show ?thesis
    using ls assms by (auto simp: live_failed_def split: sum.splits option.splits dest: live_run_once)
qed

lemma live_boot_keeps_modem:
  "bootFromFd F D env stk f dir rt = Inr (res, rt') \<Longrightarrow> tbJoinable (rtTelephony rt) \<Longrightarrow> tbJoinable (rtTelephony rt')"
  by (drule live_boot_modem) (auto split: if_splits)

lemma live_calls_modem [modem_after]:
  "nativeDirectLiveBootFd F D env stk f j rt = Inr (tx, rt') \<Longrightarrow> tbJoinable (rtTelephony rt) \<Longrightarrow> tbJoinable (rtTelephony rt')"
  "nativeDirectLiveBoot F D env stk opn j k rt = Inr (tx, rt') \<Longrightarrow> tbJoinable (rtTelephony rt) \<Longrightarrow> tbJoinable (rtTelephony rt')"
  by (auto simp: nativeDirectLiveBootFd_def nativeDirectLiveBoot_def bootFromPath_def bnd_Inr_iff Let_def
      split: sum.splits dest: live_boot_keeps_modem)

lemma init_telephony_call [modem_after]:
  "nativeInitTelephony j rt = Inr (ok, rt') \<Longrightarrow> tbJoinable (rtTelephony rt')"
  by (simp add: nativeInitTelephony_def init_telephony_starts)

lemma step_keeps_modem:
  "engine_step F D rt rt' \<Longrightarrow> tbJoinable (rtTelephony rt) \<Longrightarrow> tbJoinable (rtTelephony rt')"
  by (induction rule: engine_step.induct) (auto simp: modem dest: modem_after)

lemma steps_keep_modem:
  "(engine_step F D)\<^sup>*\<^sup>* rt rt' \<Longrightarrow> tbJoinable (rtTelephony rt) \<Longrightarrow> tbJoinable (rtTelephony rt')"
  by (induction rule: rtranclp_induct) (auto intro: step_keeps_modem)

section \<open>One boot for a process\<close>

lemma modem_blocks_boot:
  assumes "tbJoinable (rtTelephony rt)" "openFilesystem f = Inr (Some r)"
  shows "\<exists>e. bootFromFd F D env stk f dir rt = Inl e"
proof -
  obtain ls where "bootFromFd F D env stk f dir rt =
      live_run F D env stk r dir (rt\<lparr>rtLiveActive := True, rtLiveLog := log_text ls\<rparr>)"
    using boot_follows_mount [of F D env stk f dir rt] assms(2) by auto
  moreover have "live_run F D env stk r dir (rt\<lparr>rtLiveActive := True, rtLiveLog := log_text ls\<rparr>) \<noteq> Inr x" for x
    using live_run_once [of F D env stk r dir "rt\<lparr>rtLiveActive := True, rtLiveLog := log_text ls\<rparr>" "fst x" "snd x"] assms(1)
    by auto
  ultimately show ?thesis
    by (metis sum.exhaust)
qed

text \<open>C3: Once the telephony bridge has been initialized, by its own entry point or by a live boot that
  succeeded, no call and no thread of the process takes its listener threads down again: from every
  later state a second initialization ends the program, and so does, without an answer, every live boot
  of an image that mounts. (The application initializes the bridge when it starts.)\<close>

theorem live_boot_only_once:
  assumes "(\<exists>j ok. nativeInitTelephony j rt = Inr (ok, booted))
      \<or> (\<exists>env' stk' f' dir' res. bootFromFd F D env' stk' f' dir' rt = Inr (res, booted) \<and> lbSuccess res)"
    and "(engine_step F D)\<^sup>*\<^sup>* booted later" and "openFilesystem f = Inr (Some r)"
  shows "nativeInitTelephony j later = Inl Terminated \<and> (\<exists>e. bootFromFd F D env stk f dir later = Inl e)"
proof -
  have "tbJoinable (rtTelephony booted)"
    using assms(1) by (auto dest: init_telephony_call live_boot_modem)
  then have "tbJoinable (rtTelephony later)"
    by (rule steps_keep_modem [OF assms(2)])
  then show ?thesis
    using modem_blocks_boot [OF _ assms(3)]
    by (simp add: nativeInitTelephony_def init_telephony_def on_sys_def initialize_telephony_def startSocketServers_def Let_def)
qed

theorem live_boot_only_once_witness:
  "\<exists>rt e. nativeInitTelephony (Some ''/s'') (runtime_new milli_ops empty_host) = Inr (True, rt)
     \<and> bootFromFd milli_ops milli_ops idle_env 1 (file_fd demo_ext4) ''/s'' (nativeClearLogs rt) = Inl e"
proof -
  obtain rt where rt: "nativeInitTelephony (Some ''/s'') (runtime_new milli_ops empty_host) = Inr (True, rt)"
    by (simp add: nativeInitTelephony_def init_telephony_def on_sys_def initialize_telephony_def startSocketServers_def
        runtime_new_def telephony_new_def Let_def)
  moreover have "(engine_step milli_ops milli_ops)\<^sup>*\<^sup>* rt (nativeClearLogs rt)"
    by (rule r_into_rtranclp) (rule engine_step.clearLogs)
  moreover obtain r where "openFilesystem (file_fd demo_ext4) = Inr (Some r)"
    using demo_ext4_mounts by blast
  ultimately show ?thesis
    using live_boot_only_once [where rt = "runtime_new milli_ops empty_host" and booted = rt and j = None
        and env = idle_env and stk = 1 and dir = "''/s''"] by blast
qed

end
