(* ===== verification/Guest_View.thy ===== *)
theory Guest_View
  imports Boot_Once
begin

text \<open>
  What a guest process sees of the runtime: it is started with the environment of the sandbox and the
  hook library, and reads the properties that Java sets.
\<close>

lemma child_environment:
  assumes "dir \<noteq> []"
  shows "sandbox_dir (chEnviron (spawn_child h environ cmd dir)) = dir"
    and "chEnviron (spawn_child h environ cmd dir) ''GSI_VIRTUAL_UID'' = Some ''0''"
    and "may_read h (dir @ ''/lib64/libgsi_hook.so'') \<Longrightarrow>
      chEnviron (spawn_child h environ cmd dir) ''LD_PRELOAD'' = Some (dir @ ''/lib64/libgsi_hook.so'')"
  using assms by (simp_all add: spawn_child_def child_env_def sandbox_dir_def Let_def)

lemma command_child:
  assumes "nativeExecuteCommand net environ (Some cmd) (Some dir) rt = ((ok, Some c), rt')"
  shows "c = spawn_child (rt_host rt) environ cmd dir \<and> rt_sys rt' = rt_sys rt"
  using assms by (auto simp: nativeExecuteCommand_def Let_def jchars_def rt_sys_def split: prod.splits if_splits)

lemma java_property_in_sync:
  assumes "keys_distinct (fst (rt_sys rt))" "psPropertiesFilePath (fst (rt_sys rt)) \<noteq> []"
    and "writable (rt_host rt) (psPropertiesFilePath (fst (rt_sys rt)))" "k \<noteq> []"
  shows "in_sync (fst (rt_sys (nativeSetProperty (Some k) (Some v) rt))) (rt_host (nativeSetProperty (Some k) (Some v) rt))"
    and "psPropertiesFilePath (fst (rt_sys (nativeSetProperty (Some k) (Some v) rt))) = psPropertiesFilePath (fst (rt_sys rt))"
    and "psProperties (fst (rt_sys (nativeSetProperty (Some k) (Some v) rt))) = psProperties (put_prop (fst (rt_sys rt)) k v)"
  using assms flush_in_sync [of "put_prop (fst (rt_sys rt)) k v" "rt_host rt"]
  by (simp_all add: nativeSetProperty_def jchars_def Let_def rt_setprop_def boot_setprop_def setProperty_def rt_sys_def
      rt_host_def keys_distinct_put)

lemma set_update_insert: "set (AList.update k v al) \<subseteq> insert (k, v) (set al)"
  by (induction al) auto

lemma put_prop_printable:
  "\<forall>kv \<in> set (psProperties s). printable kv \<Longrightarrow> printable (k, v) \<Longrightarrow> \<forall>kv \<in> set (psProperties (put_prop s k v)). printable kv"
  using set_update_insert [of k v "psProperties s"] by (auto simp: put_prop_def)

text \<open>C2: A command that Java starts in a sandbox runs under the shell with the sandbox as its working
  directory and its virtual identity, with the hook library preloaded when it was deployed; every path
  its hooks redirect lies under that sandbox, and what it reads with \<^verbatim>\<open>__system_property_get\<close>
  for a property Java has just set is that value, cut at 91 bytes: in every state the process can reach
  in which the property service serves the sandbox and its file can be written, provided keys hold no
  closing bracket, keys and values no newline or NUL, and a line fits the hook's buffer.\<close>

theorem guest_reads_java_property:
  assumes "(engine_step F D)\<^sup>*\<^sup>* (runtime_new F h) rt"
    and "psPropertiesFilePath (fst (rt_sys rt)) = dir @ ''/dev/__properties_text__''"
    and "writable (rt_host rt) (dir @ ''/dev/__properties_text__'')"
    and "\<forall>kv \<in> set (psProperties (fst (rt_sys rt))). printable kv" "printable (k, v)" "k \<noteq> []" "dir \<noteq> []"
    and "nativeExecuteCommand net environ (Some cmd) (Some dir) (nativeSetProperty (Some k) (Some v) rt) = ((ok, Some c), rt')"
  shows "chArgv c = [chPath c, ''-c'', cmd] \<and> chCwd c = dir \<and> chEnviron c ''GSI_VIRTUAL_UID'' = Some ''0''
    \<and> (may_read (rt_host rt') (dir @ ''/lib64/libgsi_hook.so'') \<longrightarrow>
         chEnviron c ''LD_PRELOAD'' = Some (dir @ ''/lib64/libgsi_hook.so''))
    \<and> (redirectSandboxPath (chEnviron c) (Some p) = p \<or> starts_with (dir @ ''/'') (redirectSandboxPath (chEnviron c) (Some p)))
    \<and> hook_property_get (chEnviron c) (rt_host rt') real_get k = (min (length v) 91, take 91 v)"
proof -
  define later where "later = nativeSetProperty (Some k) (Some v) rt"
  have c: "c = spawn_child (rt_host later) environ cmd dir" and same: "rt_sys rt' = rt_sys later"
    using command_child [OF assms(8)] by (simp_all add: later_def)
  have host: "rt_host rt' = rt_host later"
    using same by (simp add: rt_sys_def rt_host_def)
  note env = child_environment [OF assms(7), of "rt_host later" environ cmd, folded c]
  note sync = java_property_in_sync [OF rt_sys_keys [OF reachable_ok [OF assms(1)]] _ _ assms(6), of v, folded later_def]
  have "hook_property_get (chEnviron c) (rt_host later) real_get k = (min (length v) 91, take 91 v)"
  proof (rule property_get_sees_service)
    show "in_sync (fst (rt_sys later)) (rt_host later)"
      using sync(1) assms(2,3) by simp
    show "psPropertiesFilePath (fst (rt_sys later)) = sandbox_dir (chEnviron c) @ ''/dev/__properties_text__''"
      using sync(2) assms(2,3) env(1) by simp
    show "\<forall>kv \<in> set (psProperties (fst (rt_sys later))). printable kv"
      using sync(3) put_prop_printable [OF assms(4,5)] assms(2,3) by simp
    show "find_prop (fst (rt_sys later)) k = Some v"
      using sync(3) assms(2,3) by (simp add: find_prop_def put_prop_def update_conv')
  qed
  moreover have "redirectSandboxPath (chEnviron c) (Some p) = p \<or> starts_with (dir @ ''/'') (redirectSandboxPath (chEnviron c) (Some p))"
    using redirect_cases [of dir p] env(1) by (auto simp: redirectSandboxPath_def starts_with_def)
  moreover have "chArgv c = [chPath c, ''-c'', cmd]" "chCwd c = dir"
    by (simp_all add: c spawn_child_def child_argv_def Let_def)
  ultimately show ?thesis
    using env(2,3) host by simp
qed

text \<open>A process whose property service has started in \<^verbatim>\<open>/s\<close>.\<close>

definition served :: "int runtime" where
  "served = snd (nativeStartPropertyService (True, True, True) (Some ''/s'') None (runtime_new milli_ops empty_host))"

lemma served_service:
  obtains s h where "start_service True True True prop_service_init empty_host ''/s'' = (True, s, h)"
    and "rt_sys served = (s, h)" "rt_host served = h" "psProperties s = foldl (\<lambda>al kv. AList.update (fst kv) (snd kv) al) [] system_defaults"
proof -
  have fold: "psProperties (foldl (\<lambda>s kv. put_prop s (fst kv) (snd kv)) s kvs) =
      foldl (\<lambda>al kv. AList.update (fst kv) (snd kv) al) (psProperties s) kvs" for s kvs
    by (induction kvs arbitrary: s) (simp_all add: put_prop_def)
  obtain s h where st: "start_service True True True prop_service_init empty_host ''/s'' = (True, s, h)"
    by (simp add: start_service_def prop_service_init_def Let_def)
  then have "psProperties s = foldl (\<lambda>al kv. AList.update (fst kv) (snd kv) al) [] system_defaults"
    by (auto simp: start_service_def prop_service_init_def Let_def fold find_prop_def)
  moreover have "rt_sys (runtime_new milli_ops empty_host) = (prop_service_init, empty_host)"
    "rt_host (runtime_new milli_ops empty_host) = empty_host"
    by (simp_all add: runtime_new_def rt_sys_def rt_host_def boot_init_def)
  ultimately show ?thesis
    using that st by (simp add: served_def nativeStartPropertyService_def jchars_def rt_sys_def set_sys_def rt_host_def)
qed

lemma defaults_printable:
  "\<forall>kv \<in> set (foldl (\<lambda>al kv. AList.update (fst kv) (snd kv) al) [] system_defaults). printable kv"
  by code_simp

theorem guest_reads_java_property_witness:
  "\<exists>ok c rt'. nativeExecuteCommand (Some (3, 4), Some (5, 6), Some (7, 8), 42) (\<lambda>_. None) (Some ''getprop a'') (Some ''/s'')
       (nativeSetProperty (Some ''a'') (Some ''b'') served) = ((ok, Some c), rt')
     \<and> hook_property_get (chEnviron c) (rt_host rt') None ''a'' = (1, ''b'')"
proof -
  obtain s h where sv: "start_service True True True prop_service_init empty_host ''/s'' = (True, s, h)"
    "rt_sys served = (s, h)" "rt_host served = h"
    and props: "psProperties s = foldl (\<lambda>al kv. AList.update (fst kv) (snd kv) al) [] system_defaults"
    by (rule served_service)
  have clean: "\<forall>kv \<in> set (psProperties s). printable kv"
    unfolding props by (rule defaults_printable)
  have reach: "(engine_step milli_ops milli_ops)\<^sup>*\<^sup>* (runtime_new milli_ops empty_host) served"
    unfolding served_def by (rule r_into_rtranclp) (rule engine_step.startPropertyService)
  have "in_sync s h"
    using start_service_in_sync [OF sv(1)]
    by (simp add: prop_service_init_def keys_distinct_def writable_def empty_host_def)
  moreover have path: "psPropertiesFilePath s = ''/s'' @ ''/dev/__properties_text__''"
    using sv(1) by (auto simp: start_service_def prop_service_init_def Let_def path_foldl)
  ultimately have wr: "writable (rt_host served) (''/s'' @ ''/dev/__properties_text__'')"
    using sv(3) by (simp add: in_sync_def)
  obtain c rt' where ex: "nativeExecuteCommand (Some (3, 4), Some (5, 6), Some (7, 8), 42) (\<lambda>_. None) (Some ''getprop a'')
      (Some ''/s'') (nativeSetProperty (Some ''a'') (Some ''b'') served) = ((True, Some c), rt')"
    by (simp add: nativeExecuteCommand_def execute_command_def create_pipes_def split: prod.splits)
  have "hook_property_get (chEnviron c) (rt_host rt') None ''a'' = (min (length ''b'') 91, take 91 ''b'')"
    using guest_reads_java_property [OF reach _ wr _ _ _ _ ex, where p = "''/x''" and real_get = None] sv(2) clean path
    by (simp add: printable_def nl_def nul_def)
  then show ?thesis
    using ex by auto
qed

end
