(* ===== verification/Spec2Isabelle.thy ===== *)
theory Spec2Isabelle
  imports Boot_Manager Hook_Engine Virtual_Binder Logcat_Broker Audio_Bridge Battery_Bridge Telephony_Bridge
    Bluetooth_Bridge Usb_Bridge Drm_Bridge Keystore_Bridge Network_Bridge Extractor Storage_Bridge
    Gralloc_Bridge Display_Pipeline Gpu_Bridge Camera_Bridge Sensor_Bridge Input_Bridge Process_Spawner Init_Runner Guest_View
begin

text \<open>
  \<^bold>\<open>The program.\<close> GsiRuntime-Engine runs an Android system image inside an ordinary
  application. Its native engine, \<^verbatim>\<open>src/app/src/main/cpp\<close>, reads the image (raw or
  sparse, an EXT4 file system), extracts it into a sandbox directory, parses its init scripts, boots
  the services by spawning processes, and stands in for the parts of the system the image expects: a
  libc whose calls are interposed, a property service, a log daemon, a binder device and bridges for
  the hardware. This development models that code in HOL and proves what it does.

  \<^bold>\<open>The parts, bottom up.\<close> Names are those of the source; a record has the members of its
  class, a method is a function from the old record (and the host) to its result and the new one.

  \<^descr> \<^verbatim>\<open>Prelude\<close>: outcomes \<open>fault + 'a\<close> with the faults of C++
  (\<open>OutOfBounds\<close>, \<open>DivideByZero\<close>, \<open>SelfDeadlock\<close>, \<dots>), little-endian reads, string search and decimal numbers, arithmetic on
  \<^verbatim>\<open>int\<close> with its range written out, counting loops.
  \<^descr> \<^verbatim>\<open>Host_Files\<close>: the host file system the engine touches, a map from paths to
  directories, files and sockets.
  \<^descr> \<^verbatim>\<open>Block_Device\<close> (\<^verbatim>\<open>block_device.cpp\<close>): raw and sparse devices; the
  sparse index and its binary search refine the linear walk over the chunks.
  \<^descr> \<^verbatim>\<open>Image_Verifier\<close> (\<^verbatim>\<open>image_verifier.cpp\<close>): header checks of an image file.
  \<^descr> \<^verbatim>\<open>Ext4_Reader\<close> (\<^verbatim>\<open>ext4_reader.cpp\<close>): superblock, inodes, extent trees,
  directories, path resolution and \<^verbatim>\<open>build.prop\<close>, on any device.
  \<^descr> \<^verbatim>\<open>Init_Parser\<close> (\<^verbatim>\<open>init_parser.cpp\<close>) and \<^verbatim>\<open>Boot_Manager\<close>
  (\<^verbatim>\<open>boot_manager.cpp\<close>): scripts to services, the boot phases and their interleavings with
  requests from outside.
  \<^descr> \<^verbatim>\<open>Extractor\<close> (\<^verbatim>\<open>gsi_extractor.cpp\<close>, \<^verbatim>\<open>sandbox_manager.cpp\<close>): the
  copy of the image's tree into the sandbox.
  \<^descr> \<^verbatim>\<open>Property_Service\<close> (\<^verbatim>\<open>property_service.cpp\<close>): the sorted property table,
  its mirror file and both wire protocols.
  \<^descr> \<^verbatim>\<open>Virtual_Binder\<close> (\<^verbatim>\<open>virtual_binder.cpp\<close>) and \<^verbatim>\<open>Hook_Engine\<close>
  (\<^verbatim>\<open>hook_engine.cpp\<close>): the interposed libc, path redirection, virtual identity, and the
  binder descriptors it hands out.
  \<^descr> \<^verbatim>\<open>Logcat_Broker\<close> (\<^verbatim>\<open>logcat_broker.cpp\<close>): the log ring, its packet format,
  queries and tombstones.
  \<^descr> \<^verbatim>\<open>Process_Spawner\<close> (\<^verbatim>\<open>process_spawner.cpp\<close>): environment, argument vector
  and the loop that reads a child's pipes.
  \<^descr> \<^verbatim>\<open>Bridge_Common\<close> and the hardware bridges, one theory per source file:
  \<^verbatim>\<open>Audio_Bridge\<close>, \<^verbatim>\<open>Battery_Bridge\<close>, \<^verbatim>\<open>Telephony_Bridge\<close>,
  \<^verbatim>\<open>Bluetooth_Bridge\<close>, \<^verbatim>\<open>Usb_Bridge\<close>, \<^verbatim>\<open>Drm_Bridge\<close>,
  \<^verbatim>\<open>Keystore_Bridge\<close>, \<^verbatim>\<open>Network_Bridge\<close>, \<^verbatim>\<open>Storage_Bridge\<close>,
  \<^verbatim>\<open>Input_Bridge\<close>, \<^verbatim>\<open>Sensor_Bridge\<close>, \<^verbatim>\<open>Camera_Bridge\<close>,
  \<^verbatim>\<open>Virtual_Framebuffer\<close>, \<^verbatim>\<open>Gralloc_Bridge\<close>, \<^verbatim>\<open>Gpu_Bridge\<close>,
  \<^verbatim>\<open>Display_Pipeline\<close>. \<^verbatim>\<open>Float_Ops\<close> is the arithmetic the last ones draw with.
  \<^descr> \<^verbatim>\<open>Init_Runner\<close> (\<^verbatim>\<open>init_runner.cpp\<close>): the test suite of seven checks
  with its side effects, and its report.
  \<^descr> \<^verbatim>\<open>Runtime\<close>: the state of the whole process, one field for each object with a
  \<^verbatim>\<open>getInstance\<close> and for the globals of \<^verbatim>\<open>gsi_engine.cpp\<close>.
  \<^verbatim>\<open>Live_Boot\<close> (\<^verbatim>\<open>live_boot_runner.cpp\<close>): the six steps from an image to a
  booted process. \<^verbatim>\<open>Jni_Engine\<close> (\<^verbatim>\<open>gsi_engine.cpp\<close>): every entry point
  Java can call, under its own name without the package prefix, a function of the Java arguments and the
  state of the process.
  \<^descr> \<^verbatim>\<open>Engine_Invariants\<close>, \<^verbatim>\<open>Engine_Steps\<close>,
  \<^verbatim>\<open>Engine_Properties\<close>, \<^verbatim>\<open>Boot_Once\<close> and \<^verbatim>\<open>Guest_View\<close>: what each operation keeps of its component, the step relation of
  the process with one rule for every entry point that changes the state and for every thread, and what
  holds after any sequence of those steps: the shape of the process, the calls that cannot fail, mounts
  and live boots, and what a command started from Java sees of the properties Java sets.

  \<^bold>\<open>How they interact.\<close> The reader is generic in its device: raw and sparse devices are
  interpretations of one locale, and the verifier and the reader decode the same superblock. The
  extractor, the init parser and the boot manager call the reader. The boot manager, and every bridge
  that publishes, call \<open>setProperty\<close>, which rewrites the mirror file that the hooked
  \<^verbatim>\<open>__system_property_get\<close> loads. The hook engine sends paths and socket addresses to the
  places where the property service, the log broker and the network bridge have their nodes: the
  theorem of this file. The entry points, and the live boot that chains most of them, are the only code
  that touches more than one component of the process at a time: the invariant \<open>runtime_ok\<close>
  collects what each component promises, and \<open>engine_step\<close> keeps it. The locale \<open>publisher\<close> states what publishing a view of a bridge's
  state promises and is interpreted on every bridge that does it; \<open>prop_store\<close> is the contract of
  the property table, \<open>fifo\<close> that of the audio ring.

  \<^bold>\<open>Lemma groups.\<close> Per component: functional behaviour on every branch, an invariant where
  there is state (files in sync with the table, unique process ids, nodes that show the bridge's
  state), refinement of an abstract specification (chunk walk, bounded queue, last entries of a log,
  copy of a tree), round trips (packets, properties, ciphers, directory listings), bounds, and the
  errors the code really has: cyclic extent trees, wrapped lengths, lock order, a race between a write
  and a shutdown, lost exit codes.

  \<^bold>\<open>Bounds and fuel.\<close> Machine integers are words of their width or integers with their range written out;
  unbounded numbers occur only where the source holds a container's length. Recursion over an image takes a
  number of stack frames \<open>stk\<close> and faults with \<open>StackExhausted\<close> without them; the theorems
  either show that the depth of the tree suffices or that no number does. Every other loop is
  structural over the data the source walks, or has a termination proof. A socket loop is a fold over
  the messages that arrive.

  \<^bold>\<open>Parameters.\<close> System calls of sockets, epoll and the real libc, clocks, random bytes and
  process ids are arguments. Floating-point arithmetic, its rounding and its printed form are a record of
  operations (\<open>float_ops\<close>): what is proved of the drawing code holds for every arithmetic. The results of the system calls of a live
  boot are the fields of \<open>live_env\<close>; the steps of the process take all of them as arbitrary.

  \<^bold>\<open>Not modelled.\<close> Log output of the engine itself; the Java side and the JNI functions
  beyond the strings, arrays and objects they pass (a Java string is its C string, \<^verbatim>\<open>NewStringUTF\<close>
  cuts at a zero byte, the modified encoding of other characters is left out, and so is a pending
  exception); the log callback of the live boot, which nothing installs. Threads are steps between whole
  operations: what happens inside the critical section of a mutex is one step, races inside an operation
  appear only where a theorem or a finding names them. Sleeps take no time. The Kotlin application, the
  build files and the shell scripts are outside the native engine.
\<close>

section \<open>The sockets of the sandbox\<close>

text \<open>Frames: what a start leaves alone of the host.\<close>

lemma mkdir_keeps: "hNodes h q \<noteq> None \<Longrightarrow> hNodes (fst (host_mkdir h p m)) q = hNodes h q"
  by (auto simp: host_mkdir_def host_exists_def)

lemma chmod_other: "q \<noteq> p \<Longrightarrow> hNodes (host_chmod h p m) q = hNodes h q"
  by (auto simp: host_chmod_def split: option.splits node.splits)

lemma unlink_other: "q \<noteq> p \<Longrightarrow> hNodes (host_unlink h p) q = hNodes h q"
  by (simp add: host_unlink_def)

lemma bind_other: "length p \<le> 107 \<Longrightarrow> q \<noteq> p \<Longrightarrow> hNodes (bind_node h p) q = hNodes h q"
  by (simp add: bind_node_def)

lemma flush_other: "q \<noteq> psPropertiesFilePath s \<Longrightarrow> hNodes (flushPropertiesToFile s h) q = hNodes h q"
  by (simp add: flushPropertiesToFile_def host_write_other)

lemmas frames = mkdir_keeps chmod_other unlink_other bind_other flush_other

text \<open>Each start leaves its own sockets and keeps the others.\<close>

lemma service_socket:
  assumes "start_service True True True s h dir = (True, s', h')" "\<not> psIsRunning s" "length dir \<le> 79"
  shows "hNodes h' (dir @ ''/dev/socket/property_service'') = Some (Sock 438)"
    and "psPropertiesFilePath s' = dir @ ''/dev/__properties_text__''"
proof -
  have f: "psPropertiesFilePath (foldl (\<lambda>s kv. put_prop s (fst kv) (snd kv)) s kvs) = psPropertiesFilePath s" for s kvs
    by (induction kvs arbitrary: s) (simp_all add: put_prop_def)
  then show "psPropertiesFilePath s' = dir @ ''/dev/__properties_text__''"
    using assms(1,2) by (auto simp: start_service_def Let_def)
  show "hNodes h' (dir @ ''/dev/socket/property_service'') = Some (Sock 438)"
    using assms by (auto simp: start_service_def Let_def f frames host_chmod_def)
qed

lemma logcat_sockets:
  assumes "start_logcat \<lparr>dwSocket = True, dwBind = True, drSocket = True, drBind = True, drListen = True\<rparr> t self lc h dir m = (ok, lc', h')"
    "\<not> lcIsRunning lc" "length dir \<le> 79"
  shows "hNodes h' (dir @ ''/dev/socket/logdw'') = Some (Sock 438)"
    "hNodes h' (dir @ ''/dev/socket/logdr'') = Some (Sock 438)"
    "hNodes h q \<noteq> None \<Longrightarrow> q \<noteq> dir @ ''/dev/socket/logdw'' \<Longrightarrow> q \<noteq> dir @ ''/dev/socket/logdr'' \<Longrightarrow> hNodes h' q = hNodes h q"
  using assms by (auto simp: start_logcat_def Let_def frames log_files_def bind_chmod_sock)

lemma provision_keeps:
  assumes "hNodes (snd sys) q \<noteq> None" "q \<noteq> p"
  shows "hNodes (snd (sys_provision p text sys)) q = hNodes (snd sys) q"
  using assms by (simp add: sys_provision_def sys_write_def frames host_write_other split: prod.splits)
    (metis fst_conv host_write_other)

lemma network_socket:
  assumes "initialize_network True True True n sys dir pr se = (ok, n', sys')"
    "\<not> nbIsRunning n" "length dir \<le> 79" "psPropertiesFilePath (fst sys) = dir @ ''/dev/__properties_text__''"
  shows "hNodes (snd sys') (dir @ ''/dev/socket/netd'') = Some (Sock 438)"
    "hNodes (snd sys) (dir @ ''/dev/socket/'' @ q) \<noteq> None \<Longrightarrow> q \<noteq> ''netd'' \<Longrightarrow>
     hNodes (snd sys') (dir @ ''/dev/socket/'' @ q) = hNodes (snd sys) (dir @ ''/dev/socket/'' @ q)"
proof -
  show "hNodes (snd sys') (dir @ ''/dev/socket/netd'') = Some (Sock 438)"
    using network_listens [OF assms(2), of dir sys pr se] assms(1,3) by simp
  define m where "m = n\<lparr>nbSandboxDir := dir, nbPrimaryDns := (if pr \<noteq> [] then pr else nbPrimaryDns n),
    nbSecondaryDns := (if se \<noteq> [] then se else nbSecondaryDns n)\<rparr>"
  assume q: "hNodes (snd sys) (dir @ ''/dev/socket/'' @ q) \<noteq> None" "q \<noteq> ''netd''"
  let ?q = "dir @ ''/dev/socket/'' @ q"
  have "hNodes (snd (provisionFiles m sys)) ?q = hNodes (snd sys) ?q"
    using q(1) by (simp add: provisionFiles_def Let_def provision_keeps sys_mkdir_def frames m_def)
  moreover have "psPropertiesFilePath (fst (provisionFiles m sys)) = psPropertiesFilePath (fst sys)"
    by (simp add: provisionFiles_def Let_def sys_provision_def sys_write_def sys_mkdir_def split: prod.splits)
  ultimately have r: "hNodes (snd (network_registerSystemProperties m (provisionFiles m sys))) ?q = hNodes (snd sys) ?q"
    using assms(4) by (simp add: network_registerSystemProperties_def set_props_host)
  then show "hNodes (snd sys') ?q = hNodes (snd sys) ?q"
    using assms(1-3) q
    by (auto simp: initialize_network_def Let_def sys_mkdir_def frames bind_chmod_sock simp flip: m_def split: prod.splits)
qed

text \<open>C36: What the hooks and the servers agree on: after the property service, the log broker and
  the network bridge have started on one sandbox, a guest that connects to any Unix address the hook
  diverts is connected to a path under that sandbox where one of the servers has bound its socket
  with mode 0666.\<close>

theorem hooked_connect_reaches_server:
  assumes "\<not> psIsRunning s" "\<not> lcIsRunning lc" "\<not> nbIsRunning n" "length (sandbox_dir env) \<le> 79"
    and "start_service True True True s h (sandbox_dir env) = (True, s1, h1)"
    and "start_logcat \<lparr>dwSocket = True, dwBind = True, drSocket = True, drBind = True, drListen = True\<rparr>
           tm self lc h1 (sandbox_dir env) k = (ok, lc', h2)"
    and "initialize_network True True True n (s1, h2) (sandbox_dir env) dns1 dns2 = (ok', n', sys)"
    and "connect_target sun_path = Some t"
  shows "hook_connect env libc fd (UnixAddr sun_path) =
           delegate libc (RConnect fd (UnixAddr (sandbox_dir env @ t))) (- 1)
    \<and> hNodes (snd sys) (sandbox_dir env @ t) = Some (Sock 438)"
proof
  let ?d = "sandbox_dir env"
  note ps = service_socket [OF assms(5,1,4)] and lg = logcat_sockets [OF assms(6,2,4)]
  note nw = network_socket [OF assms(7,3,4)]
  have t: "t = ''/dev/socket/property_service'' \<or> t = ''/dev/socket/netd''
      \<or> t = ''/dev/socket/logdw'' \<or> t = ''/dev/socket/logdr''"
    using assms(8) by (auto simp: connect_target_def split: if_splits)
  then have "length t \<le> 28" by auto
  then show "hook_connect env libc fd (UnixAddr sun_path) = delegate libc (RConnect fd (UnixAddr (?d @ t))) (- 1)"
    using assms(4,8) by (simp add: hook_connect_def)
  have "hNodes h2 (?d @ ''/dev/socket/property_service'') = Some (Sock 438)"
    using lg(3) [of "?d @ ''/dev/socket/property_service''"] ps(1) by simp
  then show "hNodes (snd sys) (?d @ t) = Some (Sock 438)"
    using t nw(1) nw(2) [of "''property_service''"] nw(2) [of "''logdw''"] nw(2) [of "''logdr''"] lg(1,2) ps(2)
    by auto
qed

theorem hooked_connect_reaches_server_witness:
  "\<exists>s1 h1 ok lc' h2 ok' n' sys.
     start_service True True True prop_service_init empty_host default_sandbox = (True, s1, h1)
   \<and> start_logcat \<lparr>dwSocket = True, dwBind = True, drSocket = True, drBind = True, drListen = True\<rparr>
       (0, 0) 1 logcat_init h1 default_sandbox 5000 = (ok, lc', h2)
   \<and> initialize_network True True True network_new (s1, h2) default_sandbox [] [] = (ok', n', sys)
   \<and> hNodes (snd sys) (default_sandbox @ ''/dev/socket/netd'') = Some (Sock 438)"
proof -
  let ?env = "\<lambda>k. None :: string option"
  have d: "sandbox_dir ?env = default_sandbox" by (simp add: sandbox_dir_def)
  obtain s1 h1 where a: "start_service True True True prop_service_init empty_host default_sandbox = (True, s1, h1)"
    by (simp add: start_service_def prop_service_init_def Let_def)
  obtain ok lc' h2 where b: "start_logcat \<lparr>dwSocket = True, dwBind = True, drSocket = True, drBind = True, drListen = True\<rparr>
       (0, 0) 1 logcat_init h1 default_sandbox 5000 = (ok, lc', h2)"
    by (metis prod_cases3)
  obtain ok' n' sys where c: "initialize_network True True True network_new (s1, h2) default_sandbox [] [] = (ok', n', sys)"
    by (metis prod_cases3)
  have "hNodes (snd sys) (default_sandbox @ ''/dev/socket/netd'') = Some (Sock 438)"
    using hooked_connect_reaches_server [where env = ?env and sun_path = "''/dev/socket/netd''" and t = "''/dev/socket/netd''",
        unfolded d, OF _ _ _ _ a b c]
    by (simp add: prop_service_init_def logcat_init_def network_new_def default_sandbox_def connect_target_def
        starts_with_def)
  with a b c show ?thesis by blast
qed

end
